(* ===== verification/Prelude.thy ===== *)
theory Prelude imports Main "HOL-Library.Word" "HOL-Library.Signed_Division" "HOL-Library.Sublist"
  "HOL-Library.State_Monad" "HOL-Library.Multiset" begin

text \<open>
  What every component of the development shares: Go's 64-bit integers written as
  integers with explicit wrap-around, Go's nil-able maps, durations, the functions of
  package strings the code calls, panics as values, and the weakest-precondition
  calculus over the state monad in which the handlers are written.
\<close>

named_theorems wp_simps \<open>equations that run a handler symbolically\<close>
named_theorems wp_intro \<open>summaries of called operations, as introduction rules for wp\<close>

section \<open>Machine integers\<close>

text \<open>An int64 is an integer between -2^63 and 2^63 - 1; the operations wrap.\<close>

definition in64 :: "int \<Rightarrow> bool" where
  "in64 x \<longleftrightarrow> - (2 ^ 63) \<le> x \<and> x < 2 ^ 63"

definition wrap64 :: "int \<Rightarrow> int" where
  "wrap64 x = (x + 2 ^ 63) mod 2 ^ 64 - 2 ^ 63"

definition add64 :: "int \<Rightarrow> int \<Rightarrow> int" where
  "add64 a b = wrap64 (a + b)"

definition sub64 :: "int \<Rightarrow> int \<Rightarrow> int" where
  "sub64 a b = wrap64 (a - b)"

definition mul64 :: "int \<Rightarrow> int \<Rightarrow> int" where
  "mul64 a b = wrap64 (a * b)"

text \<open>Go's division truncates towards zero; the divisor is tested by the caller.\<close>

definition div64 :: "int \<Rightarrow> int \<Rightarrow> int" where
  "div64 a b = wrap64 (a sdiv b)"

lemma wrap64_in64 [simp, intro]: "in64 (wrap64 x)"
proof -
  have "0 \<le> (x + 2 ^ 63) mod 2 ^ 64" "(x + 2 ^ 63) mod 2 ^ 64 < 2 ^ 64" by simp_all
  then show ?thesis by (simp add: in64_def wrap64_def)
qed

lemma wrap64_id [simp]: "in64 x \<Longrightarrow> wrap64 x = x"
  by (simp add: in64_def wrap64_def)

lemma wrap64_idem: "wrap64 (wrap64 x) = wrap64 x"
  by simp

lemma wrap64_cong: "x mod 2 ^ 64 = y mod 2 ^ 64 \<Longrightarrow> wrap64 x = wrap64 y"
  unfolding wrap64_def by (metis mod_add_left_eq)

lemma wrap64_mod: "wrap64 x mod 2 ^ 64 = x mod 2 ^ 64"
  unfolding wrap64_def by (simp add: mod_diff_left_eq)

lemma wrap64_add_left [simp]: "wrap64 (wrap64 a + b) = wrap64 (a + b)"
  by (rule wrap64_cong) (metis mod_add_left_eq wrap64_mod)

lemma wrap64_add_right [simp]: "wrap64 (a + wrap64 b) = wrap64 (a + b)"
  by (rule wrap64_cong) (metis mod_add_right_eq wrap64_mod)

lemma add64_in64 [simp, intro]: "in64 (add64 a b)"
  by (simp add: add64_def)

lemma sub64_in64 [simp, intro]: "in64 (sub64 a b)"
  by (simp add: sub64_def)

text \<open>The wrap-around is the one of a signed 64-bit machine word.\<close>

lemma wrap64_word: "wrap64 x = sint (word_of_int x :: 64 word)"
proof -
  have "sint (word_of_int x :: 64 word) = signed_take_bit 63 x"
    by (simp add: sint_sbintrunc')
  also have "\<dots> = wrap64 x"
    by (simp add: signed_take_bit_eq_take_bit_shift take_bit_eq_mod wrap64_def)
  finally show ?thesis by simp
qed

text \<open>A running int64 sum is the wrapped sum, whatever wraps on the way.\<close>

lemma foldl_add64: "in64 a \<Longrightarrow> foldl (\<lambda>s x. add64 s (f x)) a xs = wrap64 (a + (\<Sum>x\<leftarrow>xs. f x))"
  by (induction xs arbitrary: a) (auto simp: add64_def algebra_simps)

section \<open>Durations\<close>

text \<open>
  Times and durations are nanoseconds. time.Time.Sub saturates at the largest and
  smallest int64 duration.
\<close>

definition second :: int where "second = 1000000000"
definition minute :: int where "minute = 60 * second"

definition time_sub :: "int \<Rightarrow> int \<Rightarrow> int" where
  "time_sub t u = max (- (2 ^ 63)) (min (2 ^ 63 - 1) (t - u))"

lemma minute_pos: "0 < minute"
  by (simp add: minute_def second_def)

lemma time_sub_less_iff:
  "0 < d \<Longrightarrow> d < 2 ^ 63 \<Longrightarrow> time_sub t u < d \<longleftrightarrow> t - u < d"
  by (auto simp: time_sub_def)

section \<open>Nil-able maps\<close>

text \<open>A Go map is nil or a finite map. Reading a nil map finds nothing; writing panics.\<close>

type_synonym ('k, 'v) gomap = "('k \<rightharpoonup> 'v) option"

definition mget :: "('k, 'v) gomap \<Rightarrow> 'k \<Rightarrow> 'v option" where
  "mget m k = (case m of None \<Rightarrow> None | Some f \<Rightarrow> f k)"

definition mput :: "('k, 'v) gomap \<Rightarrow> 'k \<Rightarrow> 'v \<Rightarrow> ('k, 'v) gomap option" where
  "mput m k v = (case m of None \<Rightarrow> None | Some f \<Rightarrow> Some (Some (f(k \<mapsto> v))))"

lemma mget_simps [simp]: "mget None k = None" "mget (Some f) k = f k"
  by (simp_all add: mget_def)

lemma mput_simps [simp]: "mput None k v = None" "mput (Some f) k v = Some (Some (f(k \<mapsto> v)))"
  by (simp_all add: mput_def)

section \<open>Package strings\<close>

text \<open>
  A string is its list of bytes. strings.ToLower lowers ASCII letters; of the letters
  outside ASCII, only the Kelvin sign (E2 84 AA) and the dotted capital I (C4 B0) lower
  to ASCII letters, and those two are written out, so that searching the result for an
  ASCII text gives the answer Go gives on any UTF-8 text.
\<close>

definition lower_char :: "char \<Rightarrow> char" where
  "lower_char c = (if 65 \<le> (of_char c :: nat) \<and> (of_char c :: nat) \<le> 90
     then char_of ((of_char c :: nat) + 32) else c)"

function ToLower :: "string \<Rightarrow> string" where
  "ToLower s = (case s of [] \<Rightarrow> []
     | c # cs \<Rightarrow>
        if take 3 s = [CHR 0xE2, CHR 0x84, CHR 0xAA] then CHR ''k'' # ToLower (drop 2 cs)
        else if take 2 s = [CHR 0xC4, CHR 0xB0] then CHR ''i'' # ToLower (drop 1 cs)
        else lower_char c # ToLower cs)"
  by pat_completeness auto
termination
  by (relation "measure length") auto

declare ToLower.simps [simp del]

fun Contains :: "string \<Rightarrow> string \<Rightarrow> bool" where
  "Contains [] sub = (sub = [])"
| "Contains (c # cs) sub = (prefix sub (c # cs) \<or> Contains cs sub)"

lemma Contains_iff: "Contains s sub \<longleftrightarrow> sublist sub s"
  by (induction s) (auto simp: sublist_Cons_right)

definition HasSuffix :: "string \<Rightarrow> string \<Rightarrow> bool" where
  "HasSuffix s suf = (length suf \<le> length s \<and> drop (length s - length suf) s = suf)"

definition TrimSuffix :: "string \<Rightarrow> string \<Rightarrow> string" where
  "TrimSuffix s suf = (if HasSuffix s suf then take (length s - length suf) s else s)"

lemma HasSuffix_iff: "HasSuffix s suf \<longleftrightarrow> suffix suf s"
  by (metis HasSuffix_def suffix_take suffix_length_le append_take_drop_id suffixI
      suffix_def append_eq_conv_conj diff_add_inverse2 length_append)

lemma TrimSuffix_append [simp]: "TrimSuffix (s @ suf) suf = s"
  by (simp add: TrimSuffix_def HasSuffix_def)

section \<open>Subsequences\<close>

lemma sorted_wrt_subseq: "subseq xs ys \<Longrightarrow> sorted_wrt P ys \<Longrightarrow> sorted_wrt P xs"
  by (induction rule: list_emb.induct) (auto elim: list_emb_set)

section \<open>Filtering an updated list\<close>

lemma filter_update:
  assumes "i < length xs"
  shows "\<exists>as bs. filter P xs = as @ (if P (xs ! i) then [xs ! i] else []) @ bs \<and>
    filter P (xs[i := y]) = as @ (if P y then [y] else []) @ bs"
proof -
  have x: "xs = take i xs @ xs ! i # drop (Suc i) xs" using assms by (rule id_take_nth_drop)
  have y: "xs[i := y] = take i xs @ y # drop (Suc i) xs" using assms by (rule upd_conv_take_nth_drop)
  have "filter P xs = filter P (take i xs) @ (if P (xs ! i) then [xs ! i] else []) @ filter P (drop (Suc i) xs)"
    by (subst x) simp
  moreover have "filter P (xs[i := y]) = filter P (take i xs) @ (if P y then [y] else []) @ filter P (drop (Suc i) xs)"
    by (simp add: y)
  ultimately show ?thesis by blast
qed

lemma length_filter_update:
  assumes "i < length xs"
  shows "length (filter P (xs[i := y])) + (if P (xs ! i) then 1 else 0) =
    length (filter P xs) + (if P y then 1 else 0)"
proof -
  obtain as bs where "filter P xs = as @ (if P (xs ! i) then [xs ! i] else []) @ bs"
    "filter P (xs[i := y]) = as @ (if P y then [y] else []) @ bs"
    using filter_update[OF assms] by blast
  then show ?thesis by simp
qed

text \<open>Where at most one element has a property, the others do not.\<close>

lemma only_one:
  assumes "length (filter P xs) \<le> 1" and "P (xs ! i)" and "i < length xs" "j < length xs" "j \<noteq> i"
  shows "\<not> P (xs ! j)"
proof
  assume "P (xs ! j)"
  then have "{i, j} \<subseteq> {k. k < length xs \<and> P (xs ! k)}" using assms by auto
  then have "card {i, j} \<le> card {k. k < length xs \<and> P (xs ! k)}" by (intro card_mono) auto
  then show False using assms by (simp add: length_filter_conv_card)
qed

section \<open>Panics\<close>

datatype 'a go = Ret 'a | Panic string

section \<open>Weakest preconditions of stateful code\<close>

text \<open>
  A handler is a term of the library's state monad. \<open>wp m s Q\<close> says that running m from
  s gives a result and a state for which Q holds; its equations run a handler step by
  step, with the unknown answers of the outside world left symbolic.
\<close>

definition wp :: "('s, 'a) state \<Rightarrow> 's \<Rightarrow> ('a \<Rightarrow> 's \<Rightarrow> bool) \<Rightarrow> bool" where
  "wp m s Q \<longleftrightarrow> (case run_state m s of (r, s') \<Rightarrow> Q r s')"

lemma wp_return [wp_simps]: "wp (State_Monad.return x) s Q \<longleftrightarrow> Q x s"
  by (simp add: wp_def)

lemma wp_bind [wp_simps]: "wp (State_Monad.bind m f) s Q \<longleftrightarrow> wp m s (\<lambda>x s'. wp (f x) s' Q)"
  by (simp add: wp_def split: prod.split)

lemma wp_get [wp_simps]: "wp State_Monad.get s Q \<longleftrightarrow> Q s s"
  by (simp add: wp_def)

lemma wp_set [wp_simps]: "wp (State_Monad.set t) s Q \<longleftrightarrow> Q () t"
  by (simp add: wp_def)

lemma wp_conseq: "wp m s P \<Longrightarrow> (\<And>r s'. P r s' \<Longrightarrow> Q r s') \<Longrightarrow> wp m s Q"
  by (auto simp: wp_def)

lemma wp_disjI1: "wp m s P \<Longrightarrow> wp m s (\<lambda>r s'. P r s' \<or> Q r s')"
  by (auto simp: wp_def)

lemma wp_run: "wp m s Q \<longleftrightarrow> Q (fst (run_state m s)) (snd (run_state m s))"
  by (simp add: wp_def split: prod.split)

lemma wp_conj: "wp m s (\<lambda>r s'. P r s' \<and> Q r s') \<longleftrightarrow> wp m s P \<and> wp m s Q"
  by (simp add: wp_run)

text \<open>Running a computation that may panic, and going on only if it returned.\<close>

definition go_bind :: "('s, 'a go) state \<Rightarrow> ('a \<Rightarrow> ('s, 'b go) state) \<Rightarrow> ('s, 'b go) state" where
  "go_bind m f = State_Monad.bind m
     (\<lambda>r. case r of Ret v \<Rightarrow> f v | Panic msg \<Rightarrow> State_Monad.return (Panic msg))"

lemma wp_go_bind [wp_simps]:
  "wp (go_bind m f) s Q \<longleftrightarrow>
     wp m s (\<lambda>r s'. case r of Ret v \<Rightarrow> wp (f v) s' Q | Panic msg \<Rightarrow> Q (Panic msg) s')"
  by (simp add: go_bind_def wp_bind wp_def split: go.split prod.split)

end
