(* ===== verification/Api_Types.thy ===== *)
theory Api_Types imports Prelude begin

text \<open>
  The data of the program. First the custom resource of api/v1/namespacequota_types.go,
  struct by struct with the Go field names (a prefix only where two structs share a
  name). Then the fields of the Kubernetes objects that the code reads or writes. The
  type parameter 'q stands for resource.Quantity, which is a type of a library and stays
  abstract; \<open>quantity_ops\<close> is what the code calls on it.
\<close>

section \<open>Metadata shared by all objects\<close>

record object_meta =
  Name :: string
  Namespace :: string
  Labels :: "string \<rightharpoonup> string"
  Annotations :: "string \<rightharpoonup> string"
  Generation :: int

record condition =
  cond_Type :: string
  cond_Status :: string
  cond_Reason :: string
  cond_Message :: string
  cond_ObservedGeneration :: int
  cond_LastTransitionTime :: int

section \<open>The NamespaceQuota custom resource\<close>

record management_cluster =
  mc_Name :: string
  mc_RepositoryURL :: string

record cluster_ref =
  cr_Name :: string
  cr_RepositoryURL :: string
  cr_Path :: string
  EndpointServer :: string
  ManagementCluster :: management_cluster

record applied_quota_ref =
  aqr_Namespace :: string
  aqr_Name :: string

record quota_scaling =
  qs_Enabled :: bool
  MinQuota :: "string \<rightharpoonup> string"
  MaxQuota :: "string \<rightharpoonup> string"
  ScaleStep :: "string \<rightharpoonup> string"
  TargetQuotaUtilization :: int
  Mode :: string

record node_scaling =
  ns_Enabled :: bool
  MinNodes :: int
  MaxNodes :: int
  NodeFlavor :: string
  ScaleUpCooldownSeconds :: int
  ScaleUpThreshold :: int

record behavior =
  QuotaScaling :: quota_scaling
  NodeScaling :: node_scaling

record namespace_quota_spec =
  ClusterRef :: cluster_ref
  AppliedQuotaRef :: applied_quota_ref
  Behavior :: behavior

record namespace_quota_status =
  Conditions :: "condition list"
  LastUpdated :: "int option"

record namespace_quota =
  nsq_Meta :: object_meta
  nsq_Spec :: namespace_quota_spec
  nsq_Status :: namespace_quota_status

section \<open>Kubernetes objects\<close>

type_synonym 'q resource_list = "string \<rightharpoonup> 'q"

text \<open>Spec.Hard is written by the code, so whether the map is nil matters there.\<close>

record 'q resource_quota =
  rq_Meta :: object_meta
  SpecHard :: "(string, 'q) gomap"
  StatusHard :: "'q resource_list"
  StatusUsed :: "'q resource_list"

record 'q container =
  Requests :: "'q resource_list"

record 'q pod =
  InitContainers :: "'q container list"
  Containers :: "'q container list"
  NodeName :: string
  Phase :: string

record taint =
  taint_Key :: string
  Effect :: string

record 'q node =
  node_Name :: string
  Unschedulable :: bool
  Taints :: "taint list"
  Allocatable :: "'q resource_list"

record deployment =
  dep_Meta :: object_meta
  dep_Conditions :: "condition list"

text \<open>Spec.Replicas is a pointer: None is nil.\<close>

record replica_set =
  rs_Meta :: object_meta
  Replicas :: "int option"
  ReadyReplicas :: int
  rs_Conditions :: "condition list"

record event =
  ev_Type :: string
  ev_Reason :: string
  ev_Message :: string
  LastTimestamp :: int
  InvolvedKind :: string
  InvolvedName :: string
  InvolvedNamespace :: string

text \<open>The objects that are sent to the management cluster.\<close>

datatype 'q k8s_obj = ObjRQ "'q resource_quota" | ObjNSQ namespace_quota

section \<open>Quantities\<close>

text \<open>
  The operations of k8s.io/apimachinery's resource.Quantity and of corev1.ResourceList
  that the code calls. MilliValue and Value give int64 numbers; ParseQuantity gives an
  error text or a quantity, and MustParse panics where it gives an error.
\<close>

record 'q quantity_ops =
  q_zero :: 'q
  MilliValue :: "'q \<Rightarrow> int"
  Value :: "'q \<Rightarrow> int"
  Add :: "'q \<Rightarrow> 'q \<Rightarrow> 'q"
  NewMilliQuantity :: "int \<Rightarrow> 'q"
  NewQuantity :: "int \<Rightarrow> 'q"
  ParseQuantity :: "string \<Rightarrow> string + 'q"
  rl_Cpu :: "'q resource_list \<Rightarrow> 'q"
  rl_Memory :: "'q resource_list \<Rightarrow> 'q"

text \<open>
  What the documentation of the library promises, used as a hypothesis where a property
  needs it. \<open>amt\<close> is the exact amount of a quantity in units of 10^-9 (the smallest a
  quantity can express). MilliValue and Value round up, and are exact only while the
  result fits an int64.
\<close>

definition ceil_div :: "int \<Rightarrow> int \<Rightarrow> int" where
  "ceil_div a b = - ((- a) div b)"

definition quantity_laws :: "('q, 'z) quantity_ops_scheme \<Rightarrow> ('q \<Rightarrow> int) \<Rightarrow> bool" where
  "quantity_laws Q amt \<longleftrightarrow>
     amt (q_zero Q) = 0 \<and>
     (\<forall>a b. amt (Add Q a b) = amt a + amt b) \<and>
     (\<forall>n. in64 n \<longrightarrow> amt (NewMilliQuantity Q n) = n * 1000000) \<and>
     (\<forall>n. in64 n \<longrightarrow> amt (NewQuantity Q n) = n * 1000000000) \<and>
     (\<forall>a. in64 (ceil_div (amt a) 1000000) \<longrightarrow> MilliValue Q a = ceil_div (amt a) 1000000) \<and>
     (\<forall>a. in64 (ceil_div (amt a) 1000000000) \<longrightarrow> Value Q a = ceil_div (amt a) 1000000000) \<and>
     (\<forall>rl. rl_Cpu Q rl = (case rl ''cpu'' of Some q \<Rightarrow> q | None \<Rightarrow> q_zero Q)) \<and>
     (\<forall>rl. rl_Memory Q rl = (case rl ''memory'' of Some q \<Rightarrow> q | None \<Rightarrow> q_zero Q))"

lemma quantity_lawsD:
  assumes "quantity_laws Q amt"
  shows "amt (q_zero Q) = 0"
    and "amt (Add Q a b) = amt a + amt b"
    and "in64 n \<Longrightarrow> amt (NewMilliQuantity Q n) = n * 1000000"
    and "in64 n \<Longrightarrow> amt (NewQuantity Q n) = n * 1000000000"
    and "in64 (ceil_div (amt a) 1000000) \<Longrightarrow> MilliValue Q a = ceil_div (amt a) 1000000"
    and "in64 (ceil_div (amt a) 1000000000) \<Longrightarrow> Value Q a = ceil_div (amt a) 1000000000"
    and "rl_Cpu Q rl = (case rl ''cpu'' of Some q \<Rightarrow> q | None \<Rightarrow> q_zero Q)"
    and "rl_Memory Q rl = (case rl ''memory'' of Some q \<Rightarrow> q | None \<Rightarrow> q_zero Q)"
  using assms by (auto simp: quantity_laws_def)

text \<open>A lookup with [] that misses gives the zero Quantity.\<close>

definition rl_index :: "('q, 'z) quantity_ops_scheme \<Rightarrow> 'q option \<Rightarrow> 'q" where
  "rl_index Q r = (case r of Some q \<Rightarrow> q | None \<Rightarrow> q_zero Q)"

lemma rl_index_simps [simp]: "rl_index Q (Some q) = q" "rl_index Q None = q_zero Q"
  by (simp_all add: rl_index_def)

section \<open>Errors\<close>

text \<open>
  Errors of the API server are told apart only by IsNotFound. The other constructors are
  the errors the code builds with fmt.Errorf, with their arguments.
\<close>

datatype api_error = NotFound | ApiError string

datatype err =
    ErrApi api_error
  | ErrListing api_error
  | ErrNoNSQ string
  | ErrMultipleNSQ string
  | ErrNoRQ string
  | ErrMultipleRQ string
  | ErrNoApiEndpoint string
  | ErrScaleUpAPI err
  | ErrInvalidCpuStep string string
  | ErrInvalidMemoryStep string string
  | ErrScaleStepMissing string
  | ErrInvalidQuantity string string
  | ErrMarshal string
  | ErrNewRequest string
  | ErrPost string
  | ErrStatus string
  | ErrCpuAboveMax int int
  | ErrMemoryAboveMax int int
  | ErrGpuAboveMax int int
  | ErrNoEndpointServer

end
