(* ===== verification/Platform.thy ===== *)
theory Platform imports Api_Types begin

text \<open>
  The world outside the program. The Kubernetes API server, the HTTP endpoint, the clock
  and the YAML library are fields of the record \<open>ext\<close>, an argument of every definition
  that uses them; an environment of the unspecified type 'e is passed through every call,
  so that two calls may be answered differently. The state of a handler is that
  environment and, as a ghost, the trace of the calls that change something outside the
  process.
\<close>

record ('e, 'q) ext = "'q quantity_ops" +
  range_order :: "string list \<Rightarrow> string list"
  Getenv :: "string \<Rightarrow> string"
  Now :: "'e \<Rightarrow> int \<times> 'e"
  Marshal :: "'q k8s_obj \<Rightarrow> string + string"
  NewRequest :: "string \<Rightarrow> string option"
  HttpDo :: "string \<Rightarrow> string \<Rightarrow> 'e \<Rightarrow> (string + int \<times> string) \<times> 'e"
  GetNSQ :: "string \<Rightarrow> string \<Rightarrow> 'e \<Rightarrow> (api_error + namespace_quota) \<times> 'e"
  ListNSQ :: "string \<Rightarrow> 'e \<Rightarrow> (api_error + namespace_quota list) \<times> 'e"
  GetRQ :: "string \<Rightarrow> string \<Rightarrow> 'e \<Rightarrow> (api_error + 'q resource_quota) \<times> 'e"
  ListRQ :: "string \<Rightarrow> 'e \<Rightarrow> (api_error + 'q resource_quota list) \<times> 'e"
  UpdateRQ :: "'q resource_quota \<Rightarrow> 'e \<Rightarrow> api_error option \<times> 'e"
  ListNodes :: "'e \<Rightarrow> (api_error + 'q node list) \<times> 'e"
  ListPods :: "string option \<Rightarrow> 'e \<Rightarrow> (api_error + 'q pod list) \<times> 'e"
  ListDeployments :: "string \<Rightarrow> 'e \<Rightarrow> (api_error + deployment list) \<times> 'e"
  ListReplicaSets :: "string \<Rightarrow> 'e \<Rightarrow> (api_error + replica_set list) \<times> 'e"
  ListEvents :: "string \<Rightarrow> 'e \<Rightarrow> (api_error + event list) \<times> 'e"

text \<open>
  The calls that change something outside the process: of the workload cluster's
  controller, and of the management server. A commit holds the message and the files of
  the working tree, a push the branch, a sync the client it is asked
  of, the application and its namespace, a created file its owner, repository, path,
  content and message.
\<close>

datatype 'q action =
    Posted string "'q k8s_obj"
  | RQUpdated "'q resource_quota"
  | NamespaceCreated string
  | NSQCreated namespace_quota
  | NSQUpdated namespace_quota
  | GitCommitted string "string \<rightharpoonup> string"
  | GitPushed string
  | AppSynced string string string
  | FileCreated string string string string string

record ('e, 'q) world =
  env :: 'e
  trace :: "'q action list"

text \<open>A question to the outside, and the ghost step that records an effect.\<close>

definition ask :: "('e \<Rightarrow> 'a \<times> 'e) \<Rightarrow> (('e, 'q, 'z) world_scheme, 'a) state" where
  "ask f = State (\<lambda>s. (fst (f (env s)), s\<lparr>env := snd (f (env s))\<rparr>))"

definition emit :: "'q action \<Rightarrow> (('e, 'q, 'z) world_scheme, unit) state" where
  "emit a = State (\<lambda>s. ((), s\<lparr>trace := trace s @ [a]\<rparr>))"

lemma wp_ask [wp_simps]:
  "wp (ask f) s Q \<longleftrightarrow> Q (fst (f (env s))) (s\<lparr>env := snd (f (env s))\<rparr>)"
  by (simp add: wp_def ask_def)

lemma wp_emit [wp_simps]: "wp (emit a) s Q \<longleftrightarrow> Q () (s\<lparr>trace := trace s @ [a]\<rparr>)"
  by (simp add: wp_def emit_def)

end
