(* ===== verification/Sample_World.thy ===== *)
theory Sample_World imports Platform begin

text \<open>
  A concrete instance of the outside world, on which the witnesses of the properties
  evaluate: quantities are integers in units of 10^-9, and the API server answers from
  a record of objects. Nothing of the model depends on it.
\<close>

definition sample_parse :: "string \<Rightarrow> string + int" where
  "sample_parse s =
     (if s = ''500m'' then Inr 500000000
      else if s = ''1'' then Inr 1000000000
      else if s = ''4000m'' then Inr 4000000000
      else if s = ''512Mi'' then Inr (536870912 * 1000000000)
      else if s = ''4Gi'' then Inr (4294967296 * 1000000000)
      else Inl ''unable to parse quantity's value'')"

record sample_env =
  se_now :: int
  se_nsqs :: "namespace_quota list"
  se_rqs :: "int resource_quota list"
  se_nodes :: "int node list"
  se_pods :: "(string \<times> int pod) list"
  se_deps :: "deployment list"
  se_rss :: "replica_set list"
  se_events :: "event list"
  se_status :: int

definition in_ns :: "string \<Rightarrow> object_meta \<Rightarrow> bool" where
  "in_ns ns m \<longleftrightarrow> Namespace m = ns"

definition named :: "string \<Rightarrow> string \<Rightarrow> object_meta \<Rightarrow> bool" where
  "named ns nm m \<longleftrightarrow> Namespace m = ns \<and> Name m = nm"

definition found :: "'a option \<Rightarrow> api_error + 'a" where
  "found r = (case r of None \<Rightarrow> Inl NotFound | Some x \<Rightarrow> Inr x)"

definition sample_ext :: "(string \<Rightarrow> string) \<Rightarrow> (sample_env, int) ext" where
  "sample_ext getenv = \<lparr>
     q_zero = 0,
     MilliValue = (\<lambda>a. ceil_div a 1000000),
     Value = (\<lambda>a. ceil_div a 1000000000),
     Add = (+),
     NewMilliQuantity = (\<lambda>n. n * 1000000),
     NewQuantity = (\<lambda>n. n * 1000000000),
     ParseQuantity = sample_parse,
     rl_Cpu = (\<lambda>rl. case rl ''cpu'' of Some q \<Rightarrow> q | None \<Rightarrow> 0),
     rl_Memory = (\<lambda>rl. case rl ''memory'' of Some q \<Rightarrow> q | None \<Rightarrow> 0),
     range_order = rev,
     Getenv = getenv,
     Now = (\<lambda>e. (se_now e, e\<lparr>se_now := se_now e + 1\<rparr>)),
     Marshal = (\<lambda>_. Inr ''---''),
     NewRequest = (\<lambda>_. None),
     HttpDo = (\<lambda>_ _ e. (Inr (se_status e, ''status''), e)),
     GetNSQ = (\<lambda>ns nm e. (found (find (\<lambda>x. named ns nm (nsq_Meta x)) (se_nsqs e)), e)),
     ListNSQ = (\<lambda>ns e. (Inr (filter (\<lambda>x. in_ns ns (nsq_Meta x)) (se_nsqs e)), e)),
     GetRQ = (\<lambda>ns nm e. (found (find (\<lambda>x. named ns nm (rq_Meta x)) (se_rqs e)), e)),
     ListRQ = (\<lambda>ns e. (Inr (filter (\<lambda>x. in_ns ns (rq_Meta x)) (se_rqs e)), e)),
     UpdateRQ = (\<lambda>rq e. (None, e\<lparr>se_rqs := map (\<lambda>x.
        if named (Namespace (rq_Meta rq)) (Name (rq_Meta rq)) (rq_Meta x) then rq else x) (se_rqs e)\<rparr>)),
     ListNodes = (\<lambda>e. (Inr (se_nodes e), e)),
     ListPods = (\<lambda>ns e. (Inr (map snd (filter (\<lambda>p. ns = None \<or> ns = Some (fst p)) (se_pods e))), e)),
     ListDeployments = (\<lambda>ns e. (Inr (filter (\<lambda>x. in_ns ns (dep_Meta x)) (se_deps e)), e)),
     ListReplicaSets = (\<lambda>ns e. (Inr (filter (\<lambda>x. in_ns ns (rs_Meta x)) (se_rss e)), e)),
     ListEvents = (\<lambda>ns e. (Inr (filter (\<lambda>x. InvolvedNamespace x = ns) (se_events e)), e))\<rparr>"

lemma sample_ext_sel [simp]:
  "q_zero (sample_ext g) = 0"
  "MilliValue (sample_ext g) a = ceil_div a 1000000"
  "Value (sample_ext g) a = ceil_div a 1000000000"
  "Add (sample_ext g) a b = a + b"
  "NewMilliQuantity (sample_ext g) n = n * 1000000"
  "NewQuantity (sample_ext g) n = n * 1000000000"
  "ParseQuantity (sample_ext g) = sample_parse"
  "rl_Cpu (sample_ext g) rl = (case rl ''cpu'' of Some q \<Rightarrow> q | None \<Rightarrow> 0)"
  "rl_Memory (sample_ext g) rl = (case rl ''memory'' of Some q \<Rightarrow> q | None \<Rightarrow> 0)"
  "range_order (sample_ext g) = rev"
  "Getenv (sample_ext g) = g"
  by (simp_all add: sample_ext_def)

lemma sample_ext_calls [simp]:
  "Now (sample_ext g) e = (se_now e, e\<lparr>se_now := se_now e + 1\<rparr>)"
  "Marshal (sample_ext g) ob = Inr ''---''"
  "NewRequest (sample_ext g) u = None"
  "HttpDo (sample_ext g) u b e = (Inr (se_status e, ''status''), e)"
  "GetNSQ (sample_ext g) ns nm e = (found (find (\<lambda>x. named ns nm (nsq_Meta x)) (se_nsqs e)), e)"
  "ListNSQ (sample_ext g) ns e = (Inr (filter (\<lambda>x. in_ns ns (nsq_Meta x)) (se_nsqs e)), e)"
  "GetRQ (sample_ext g) ns nm e = (found (find (\<lambda>x. named ns nm (rq_Meta x)) (se_rqs e)), e)"
  "ListRQ (sample_ext g) ns e = (Inr (filter (\<lambda>x. in_ns ns (rq_Meta x)) (se_rqs e)), e)"
  "UpdateRQ (sample_ext g) rq e = (None, e\<lparr>se_rqs := map (\<lambda>x.
     if named (Namespace (rq_Meta rq)) (Name (rq_Meta rq)) (rq_Meta x) then rq else x) (se_rqs e)\<rparr>)"
  "ListNodes (sample_ext g) e = (Inr (se_nodes e), e)"
  "ListPods (sample_ext g) ons e =
     (Inr (map snd (filter (\<lambda>p. ons = None \<or> ons = Some (fst p)) (se_pods e))), e)"
  "ListDeployments (sample_ext g) ns e = (Inr (filter (\<lambda>x. in_ns ns (dep_Meta x)) (se_deps e)), e)"
  "ListReplicaSets (sample_ext g) ns e = (Inr (filter (\<lambda>x. in_ns ns (rs_Meta x)) (se_rss e)), e)"
  "ListEvents (sample_ext g) ns e = (Inr (filter (\<lambda>x. InvolvedNamespace x = ns) (se_events e)), e)"
  by (simp_all add: sample_ext_def)

lemma sample_laws: "quantity_laws (sample_ext g) id"
  by (simp add: quantity_laws_def split: option.split)

end
