(* ===== verification/Cluster_Free.thy ===== *)
theory Cluster_Free imports Sample_World "HOL-Library.AList" begin

text \<open>
  computeClusterFree of internal/controller/namespacequota_controller.go: the free CPU,
  memory and GPU of the worker nodes, summed over the cluster and maximal per node.
  The Go map of worker nodes is an association list with distinct keys; the order in
  which range visits it is not specified by Go and is taken from \<open>range_order\<close>.
\<close>

section \<open>Definitions\<close>

record cluster_free =
  ClusterCPU :: int
  ClusterMem :: int
  ClusterGPU :: int
  MaxNodeCPU :: int
  MaxNodeMem :: int
  MaxNodeGPU :: int

definition isControlTaint :: "taint \<Rightarrow> bool" where
  "isControlTaint t \<longleftrightarrow>
     taint_Key t = ''node-role.kubernetes.io/control-plane'' \<or>
     taint_Key t = ''node-role.kubernetes.io/master'' \<or>
     taint_Key t = ''node.kubernetes.io/master''"

definition skip_node :: "'q node \<Rightarrow> bool" where
  "skip_node n \<longleftrightarrow> list_ex (\<lambda>t. isControlTaint t \<and>
     (Effect t = ''NoSchedule'' \<or> Effect t = ''PreferNoSchedule'')) (Taints n)"

definition worker_nodes :: "'q node list \<Rightarrow> (string \<times> 'q node) list" where
  "worker_nodes nl = foldl (\<lambda>m n.
     if Unschedulable n then m
     else if skip_node n then m
     else AList.update (node_Name n) n m) [] nl"

record node_usage =
  usedCPU :: "string \<Rightarrow> int"
  usedMem :: "string \<Rightarrow> int"
  usedGPU :: "string \<Rightarrow> int"

definition no_usage :: node_usage where
  "no_usage = \<lparr>usedCPU = \<lambda>_. 0, usedMem = \<lambda>_. 0, usedGPU = \<lambda>_. 0\<rparr>"

definition bump :: "(string \<Rightarrow> int) \<Rightarrow> string \<Rightarrow> int \<Rightarrow> string \<Rightarrow> int" where
  "bump m k v = m(k := add64 (m k) v)"

definition add_container ::
  "('q, 'z) quantity_ops_scheme \<Rightarrow> string \<Rightarrow> node_usage \<Rightarrow> 'q container \<Rightarrow> node_usage" where
  "add_container Q nm u ctr = \<lparr>
     usedCPU = bump (usedCPU u) nm (MilliValue Q (rl_Cpu Q (Requests ctr))),
     usedMem = bump (usedMem u) nm (Value Q (rl_Memory Q (Requests ctr))),
     usedGPU = (case Requests ctr ''nvidia.com/gpu'' of
                  Some gpu \<Rightarrow> bump (usedGPU u) nm (Value Q gpu)
                | None \<Rightarrow> usedGPU u)\<rparr>"

definition add_pod ::
  "('q, 'z) quantity_ops_scheme \<Rightarrow> (string \<times> 'q node) list \<Rightarrow> node_usage \<Rightarrow> 'q pod \<Rightarrow> node_usage" where
  "add_pod Q wn u p =
     (if Phase p = ''Succeeded'' \<or> Phase p = ''Failed'' then u
      else if NodeName p = [] then u
      else if map_of wn (NodeName p) = None then u
      else foldl (add_container Q (NodeName p)) u (InitContainers p @ Containers p))"

definition node_usages ::
  "('q, 'z) quantity_ops_scheme \<Rightarrow> (string \<times> 'q node) list \<Rightarrow> 'q pod list \<Rightarrow> node_usage" where
  "node_usages Q wn pods = foldl (add_pod Q wn) no_usage pods"

definition clamp0 :: "int \<Rightarrow> int" where
  "clamp0 x = (if x < 0 then 0 else x)"

definition free_cpu :: "('q, 'z) quantity_ops_scheme \<Rightarrow> node_usage \<Rightarrow> string \<Rightarrow> 'q node \<Rightarrow> int" where
  "free_cpu Q u nm n = clamp0 (sub64 (MilliValue Q (rl_Cpu Q (Allocatable n))) (usedCPU u nm))"

definition free_mem :: "('q, 'z) quantity_ops_scheme \<Rightarrow> node_usage \<Rightarrow> string \<Rightarrow> 'q node \<Rightarrow> int" where
  "free_mem Q u nm n = clamp0 (sub64 (Value Q (rl_Memory Q (Allocatable n))) (usedMem u nm))"

definition free_gpu :: "('q, 'z) quantity_ops_scheme \<Rightarrow> node_usage \<Rightarrow> string \<Rightarrow> 'q node \<Rightarrow> int" where
  "free_gpu Q u nm n = clamp0 (sub64
     (case Allocatable n ''nvidia.com/gpu'' of Some g \<Rightarrow> Value Q g | None \<Rightarrow> 0) (usedGPU u nm))"

definition add_node_free ::
  "('q, 'z) quantity_ops_scheme \<Rightarrow> node_usage \<Rightarrow> (string \<times> 'q node) list \<Rightarrow>
   cluster_free \<Rightarrow> string \<Rightarrow> cluster_free" where
  "add_node_free Q u wn res nm = (case map_of wn nm of
     None \<Rightarrow> res
   | Some n \<Rightarrow>
      let freeCPU = free_cpu Q u nm n; freeMem = free_mem Q u nm n; freeGPU = free_gpu Q u nm n
      in \<lparr>ClusterCPU = add64 (ClusterCPU res) freeCPU,
          ClusterMem = add64 (ClusterMem res) freeMem,
          ClusterGPU = add64 (ClusterGPU res) freeGPU,
          MaxNodeCPU = (if freeCPU > MaxNodeCPU res then freeCPU else MaxNodeCPU res),
          MaxNodeMem = (if freeMem > MaxNodeMem res then freeMem else MaxNodeMem res),
          MaxNodeGPU = (if freeGPU > MaxNodeGPU res then freeGPU else MaxNodeGPU res)\<rparr>)"

definition zero_free :: cluster_free where
  "zero_free = \<lparr>ClusterCPU = 0, ClusterMem = 0, ClusterGPU = 0,
     MaxNodeCPU = 0, MaxNodeMem = 0, MaxNodeGPU = 0\<rparr>"

definition cluster_free_of ::
  "('e, 'q, 'y) ext_scheme \<Rightarrow> 'q node list \<Rightarrow> 'q pod list \<Rightarrow> cluster_free" where
  "cluster_free_of E nodes pods =
     (let wn = worker_nodes nodes; u = node_usages E wn pods
      in foldl (add_node_free E u wn) zero_free (range_order E (map fst wn)))"

definition computeClusterFree ::
  "('e, 'q, 'y) ext_scheme \<Rightarrow> (('e, 'q, 'z) world_scheme, api_error + cluster_free) state" where
  "computeClusterFree E = do {
     nl \<leftarrow> ask (ListNodes E);
     (case nl of
        Inl e \<Rightarrow> State_Monad.return (Inl e)
      | Inr nodes \<Rightarrow> do {
          pl \<leftarrow> ask (ListPods E None);
          (case pl of
             Inl e \<Rightarrow> State_Monad.return (Inl e)
           | Inr pods \<Rightarrow> State_Monad.return (Inr (cluster_free_of E nodes pods)))
        })
   }"

section \<open>The worker nodes\<close>

definition eligible :: "'q node \<Rightarrow> bool" where
  "eligible n \<longleftrightarrow> \<not> Unschedulable n \<and> \<not> skip_node n"

lemma worker_nodes_snoc:
  "worker_nodes (nl @ [n]) =
     (if eligible n then AList.update (node_Name n) n (worker_nodes nl) else worker_nodes nl)"
  by (simp add: worker_nodes_def eligible_def)

lemma distinct_worker_nodes: "distinct (map fst (worker_nodes nl))"
  by (induction nl rule: rev_induct)
     (auto simp: worker_nodes_snoc worker_nodes_def[of "[]"] intro: distinct_update)

text \<open>The last eligible node of a name wins, as in the Go map.\<close>

lemma map_of_worker_nodes:
  "map_of (worker_nodes nl) nm = find (\<lambda>n. eligible n \<and> node_Name n = nm) (rev nl)"
  by (induction nl rule: rev_induct)
     (auto simp: worker_nodes_snoc worker_nodes_def[of "[]"] update_conv')

text \<open>With distinct node names the map is the list of eligible nodes.\<close>

lemma update_fresh: "k \<notin> fst ` set al \<Longrightarrow> AList.update k v al = al @ [(k, v)]"
  by (induction al) auto

lemma worker_nodes_distinct:
  "distinct (map node_Name nl) \<Longrightarrow>
     worker_nodes nl = map (\<lambda>n. (node_Name n, n)) (filter eligible nl)"
proof (induction nl rule: rev_induct)
  case Nil
  then show ?case by (simp add: worker_nodes_def)
next
  case (snoc n nl)
  then have "node_Name n \<notin> fst ` set (worker_nodes nl)" by auto
  with snoc show ?case by (simp add: worker_nodes_snoc update_fresh)
qed

lemma worker_lookup:
  assumes "distinct (map node_Name nl)" "n \<in> set nl" "eligible n"
  shows "map_of (worker_nodes nl) (node_Name n) = Some n"
  using assms by (intro map_of_is_SomeI distinct_worker_nodes) (auto simp: worker_nodes_distinct)

section \<open>Usage per node\<close>

text \<open>What the code adds up for a node: the requests of the active pods bound to it.\<close>

definition active_on :: "string \<Rightarrow> 'q pod \<Rightarrow> bool" where
  "active_on nm p \<longleftrightarrow> Phase p \<noteq> ''Succeeded'' \<and> Phase p \<noteq> ''Failed'' \<and> NodeName p = nm"

definition all_containers :: "'q pod \<Rightarrow> 'q container list" where
  "all_containers p = InitContainers p @ Containers p"

definition containers_on :: "string \<Rightarrow> 'q pod list \<Rightarrow> 'q container list" where
  "containers_on nm pods = concat (map all_containers (filter (active_on nm) pods))"

lemma usage_containers:
  "usedCPU (foldl (add_container Q nm) u cs) k =
     (if k = nm then foldl (\<lambda>s c. add64 s (MilliValue Q (rl_Cpu Q (Requests c)))) (usedCPU u nm) cs
      else usedCPU u k)"
  "usedMem (foldl (add_container Q nm) u cs) k =
     (if k = nm then foldl (\<lambda>s c. add64 s (Value Q (rl_Memory Q (Requests c)))) (usedMem u nm) cs
      else usedMem u k)"
  by (induction cs arbitrary: u) (auto simp: add_container_def bump_def)

definition gpu_request :: "('q, 'z) quantity_ops_scheme \<Rightarrow> 'q container \<Rightarrow> int" where
  "gpu_request Q c = (case Requests c ''nvidia.com/gpu'' of Some g \<Rightarrow> Value Q g | None \<Rightarrow> 0)"

lemma add_gpu_request:
  "in64 (usedGPU u nm) \<Longrightarrow>
     usedGPU (add_container Q nm u c) nm = add64 (usedGPU u nm) (gpu_request Q c)"
  by (simp add: add_container_def gpu_request_def bump_def add64_def split: option.split)

lemma usage_containers_gpu:
  "in64 (usedGPU u nm) \<Longrightarrow> usedGPU (foldl (add_container Q nm) u cs) nm =
     foldl (\<lambda>s c. add64 s (gpu_request Q c)) (usedGPU u nm) cs"
  by (induction cs arbitrary: u) (simp_all add: add_gpu_request)

lemma usage_containers_gpu_other:
  "k \<noteq> nm \<Longrightarrow> usedGPU (foldl (add_container Q nm) u cs) k = usedGPU u k"
  by (induction cs arbitrary: u) (auto simp: add_container_def bump_def split: option.split)

lemma usage_pods_gpu:
  assumes "nm \<noteq> []" "map_of wn nm \<noteq> None" "in64 (usedGPU u nm)"
  shows "usedGPU (foldl (add_pod Q wn) u pods) nm =
      wrap64 (usedGPU u nm + (\<Sum>c\<leftarrow>containers_on nm pods. gpu_request Q c))"
  using assms
proof (induction pods arbitrary: u)
  case Nil
  then show ?case by (simp add: containers_on_def)
next
  case (Cons p pods)
  show ?case
  proof (cases "active_on nm p")
    case True
    then have "usedGPU (add_pod Q wn u p) nm =
        wrap64 (usedGPU u nm + (\<Sum>c\<leftarrow>all_containers p. gpu_request Q c))"
      using Cons.prems
      by (auto simp: add_pod_def active_on_def usage_containers_gpu foldl_add64 all_containers_def
          algebra_simps)
    with True Cons show ?thesis by (simp add: containers_on_def algebra_simps)
  next
    case False
    then have "usedGPU (add_pod Q wn u p) nm = usedGPU u nm"
      using Cons.prems by (auto simp: add_pod_def active_on_def usage_containers_gpu_other)
    with False Cons show ?thesis by (simp add: containers_on_def)
  qed
qed

lemma usage_pods:
  assumes "nm \<noteq> []" "map_of wn nm \<noteq> None"
  shows "usedCPU (foldl (add_pod Q wn) u pods) nm =
      foldl (\<lambda>s c. add64 s (MilliValue Q (rl_Cpu Q (Requests c)))) (usedCPU u nm) (containers_on nm pods)"
    and "usedMem (foldl (add_pod Q wn) u pods) nm =
      foldl (\<lambda>s c. add64 s (Value Q (rl_Memory Q (Requests c)))) (usedMem u nm) (containers_on nm pods)"
  using assms
  by (induction pods arbitrary: u)
     (auto simp: add_pod_def usage_containers containers_on_def active_on_def all_containers_def)

lemma node_usages_eq:
  assumes "nm \<noteq> []" "map_of wn nm \<noteq> None"
  shows "usedCPU (node_usages Q wn pods) nm =
      wrap64 (\<Sum>c\<leftarrow>containers_on nm pods. MilliValue Q (rl_Cpu Q (Requests c)))"
    and "usedMem (node_usages Q wn pods) nm =
      wrap64 (\<Sum>c\<leftarrow>containers_on nm pods. Value Q (rl_Memory Q (Requests c)))"
    and "usedGPU (node_usages Q wn pods) nm =
      wrap64 (\<Sum>c\<leftarrow>containers_on nm pods. gpu_request Q c)"
  using usage_pods[OF assms, of Q no_usage pods] usage_pods_gpu[OF assms, of no_usage Q pods]
  by (simp_all add: node_usages_def no_usage_def in64_def foldl_add64)

section \<open>The loop over the map, in any order\<close>

lemma clamp0_nonneg [simp]: "0 \<le> clamp0 x"
  by (simp add: clamp0_def)

lemma clamp0_max: "clamp0 x = max 0 x"
  by (simp add: clamp0_def)

lemma foldl_max:
  "foldl (\<lambda>m x. if f x > m then f x else m) (a::int) xs = Max (insert a (f ` set xs))"
proof (induction xs arbitrary: a)
  case (Cons x xs)
  have "Max (insert (if f x > a then f x else a) (f ` set xs)) = Max (insert a (f ` set (x # xs)))"
    by (cases "xs = []") (auto simp: Max.insert_remove max_def)
  then show ?case by (simp only: foldl.simps Cons.IH)
qed simp

text \<open>The component of the result that \<open>sel\<close> reads is a fold of its own.\<close>

lemma add_node_free_folds:
  assumes "set ks \<subseteq> dom (map_of wn)"
  shows "ClusterCPU (foldl (add_node_free Q u wn) r ks) =
      foldl (\<lambda>s k. add64 s (free_cpu Q u k (the (map_of wn k)))) (ClusterCPU r) ks"
    and "ClusterMem (foldl (add_node_free Q u wn) r ks) =
      foldl (\<lambda>s k. add64 s (free_mem Q u k (the (map_of wn k)))) (ClusterMem r) ks"
    and "ClusterGPU (foldl (add_node_free Q u wn) r ks) =
      foldl (\<lambda>s k. add64 s (free_gpu Q u k (the (map_of wn k)))) (ClusterGPU r) ks"
    and "MaxNodeCPU (foldl (add_node_free Q u wn) r ks) =
      foldl (\<lambda>m k. if free_cpu Q u k (the (map_of wn k)) > m
                   then free_cpu Q u k (the (map_of wn k)) else m) (MaxNodeCPU r) ks"
    and "MaxNodeMem (foldl (add_node_free Q u wn) r ks) =
      foldl (\<lambda>m k. if free_mem Q u k (the (map_of wn k)) > m
                   then free_mem Q u k (the (map_of wn k)) else m) (MaxNodeMem r) ks"
    and "MaxNodeGPU (foldl (add_node_free Q u wn) r ks) =
      foldl (\<lambda>m k. if free_gpu Q u k (the (map_of wn k)) > m
                   then free_gpu Q u k (the (map_of wn k)) else m) (MaxNodeGPU r) ks"
  using assms
  by (induction ks arbitrary: r) (auto simp: add_node_free_def Let_def)

section \<open>The reference definition\<close>

text \<open>
  What a reader of the comment expects: of every eligible node, its allocatable amount
  less the requests of the active pods bound to it, and 0 where that is negative. No
  map, no loop order, no accumulated usage.
\<close>

definition spec_cpu :: "('q, 'z) quantity_ops_scheme \<Rightarrow> 'q pod list \<Rightarrow> 'q node \<Rightarrow> int" where
  "spec_cpu Q pods n = max 0 (wrap64 (MilliValue Q (rl_Cpu Q (Allocatable n)) -
     (\<Sum>c\<leftarrow>containers_on (node_Name n) pods. MilliValue Q (rl_Cpu Q (Requests c)))))"

definition spec_mem :: "('q, 'z) quantity_ops_scheme \<Rightarrow> 'q pod list \<Rightarrow> 'q node \<Rightarrow> int" where
  "spec_mem Q pods n = max 0 (wrap64 (Value Q (rl_Memory Q (Allocatable n)) -
     (\<Sum>c\<leftarrow>containers_on (node_Name n) pods. Value Q (rl_Memory Q (Requests c)))))"

definition spec_gpu :: "('q, 'z) quantity_ops_scheme \<Rightarrow> 'q pod list \<Rightarrow> 'q node \<Rightarrow> int" where
  "spec_gpu Q pods n = max 0 (wrap64 (
     (case Allocatable n ''nvidia.com/gpu'' of Some g \<Rightarrow> Value Q g | None \<Rightarrow> 0) -
     (\<Sum>c\<leftarrow>containers_on (node_Name n) pods. gpu_request Q c)))"

lemma wrap64_diff_right [simp]: "wrap64 (a - wrap64 b) = wrap64 (a - b)"
  by (rule wrap64_cong) (metis mod_diff_right_eq wrap64_mod)

lemma free_eq_spec:
  assumes "distinct (map node_Name nl)" "n \<in> set nl" "eligible n" "node_Name n \<noteq> []"
  shows "free_cpu Q (node_usages Q (worker_nodes nl) pods) (node_Name n) n = spec_cpu Q pods n"
    and "free_mem Q (node_usages Q (worker_nodes nl) pods) (node_Name n) n = spec_mem Q pods n"
    and "free_gpu Q (node_usages Q (worker_nodes nl) pods) (node_Name n) n = spec_gpu Q pods n"
proof -
  have m: "map_of (worker_nodes nl) (node_Name n) \<noteq> None"
    using worker_lookup[OF assms(1-3)] by simp
  show "free_cpu Q (node_usages Q (worker_nodes nl) pods) (node_Name n) n = spec_cpu Q pods n"
    "free_mem Q (node_usages Q (worker_nodes nl) pods) (node_Name n) n = spec_mem Q pods n"
    "free_gpu Q (node_usages Q (worker_nodes nl) pods) (node_Name n) n = spec_gpu Q pods n"
    by (simp_all add: free_cpu_def free_mem_def free_gpu_def spec_cpu_def spec_mem_def
        spec_gpu_def sub64_def clamp0_max node_usages_eq[OF assms(4) m])
qed

text \<open>Sums and maxima over the visited names, moved to the nodes.\<close>

lemma sum_over_names:
  assumes d: "distinct (map node_Name nl)" and ms: "mset ks = mset (map fst (worker_nodes nl))"
    and f: "\<And>n. n \<in> set nl \<Longrightarrow> eligible n \<Longrightarrow> f (node_Name n) = (g n :: int)"
  shows "(\<Sum>k\<leftarrow>ks. f k) = (\<Sum>n\<leftarrow>filter eligible nl. g n)"
    and "f ` set ks = g ` set (filter eligible nl)"
proof -
  have names: "map fst (worker_nodes nl) = map node_Name (filter eligible nl)"
    by (simp add: worker_nodes_distinct[OF d])
  have "(\<Sum>k\<leftarrow>ks. f k) = sum_mset (image_mset f (mset ks))"
    by (metis mset_map sum_mset_sum_list)
  also have "\<dots> = (\<Sum>k\<leftarrow>map node_Name (filter eligible nl). f k)"
    unfolding ms names by (metis mset_map sum_mset_sum_list)
  also have "\<dots> = (\<Sum>n\<leftarrow>filter eligible nl. g n)"
    by (auto simp: o_def f intro!: arg_cong[of _ _ sum_list] map_cong)
  finally show "(\<Sum>k\<leftarrow>ks. f k) = (\<Sum>n\<leftarrow>filter eligible nl. g n)" .
  have "set ks = set (map fst (worker_nodes nl))" using ms by (metis set_mset_mset)
  then show "f ` set ks = g ` set (filter eligible nl)"
    using f unfolding names by (auto simp: image_iff)
qed

text \<open>The whole result, from the nodes.\<close>

lemma cluster_free_of_spec:
  assumes ord: "\<And>ks. mset (range_order E ks) = mset ks"
    and d: "distinct (map node_Name nodes)" and ne: "\<And>n. n \<in> set nodes \<Longrightarrow> node_Name n \<noteq> []"
  shows "cluster_free_of E nodes pods =
     \<lparr>ClusterCPU = wrap64 (\<Sum>n\<leftarrow>filter eligible nodes. spec_cpu E pods n),
      ClusterMem = wrap64 (\<Sum>n\<leftarrow>filter eligible nodes. spec_mem E pods n),
      ClusterGPU = wrap64 (\<Sum>n\<leftarrow>filter eligible nodes. spec_gpu E pods n),
      MaxNodeCPU = Max (insert 0 (spec_cpu E pods ` set (filter eligible nodes))),
      MaxNodeMem = Max (insert 0 (spec_mem E pods ` set (filter eligible nodes))),
      MaxNodeGPU = Max (insert 0 (spec_gpu E pods ` set (filter eligible nodes)))\<rparr>"
proof -
  let ?wn = "worker_nodes nodes"
  let ?ks = "range_order E (map fst ?wn)"
  let ?u = "node_usages E ?wn pods"
  have ms: "mset ?ks = mset (map fst ?wn)" by (rule ord)
  have dom: "set ?ks \<subseteq> dom (map_of ?wn)"
    using ms by (metis dom_map_of_conv_image_fst list.set_map order_refl set_mset_mset)
  have look: "n \<in> set nodes \<Longrightarrow> eligible n \<Longrightarrow> the (map_of ?wn (node_Name n)) = n" for n
    using worker_lookup[OF d] by simp
  note over = sum_over_names[OF d ms]
  have z: "in64 0" by (simp add: in64_def)
  have "foldl (add_node_free E ?u ?wn) zero_free ?ks =
     \<lparr>ClusterCPU = ClusterCPU (foldl (add_node_free E ?u ?wn) zero_free ?ks),
      ClusterMem = ClusterMem (foldl (add_node_free E ?u ?wn) zero_free ?ks),
      ClusterGPU = ClusterGPU (foldl (add_node_free E ?u ?wn) zero_free ?ks),
      MaxNodeCPU = MaxNodeCPU (foldl (add_node_free E ?u ?wn) zero_free ?ks),
      MaxNodeMem = MaxNodeMem (foldl (add_node_free E ?u ?wn) zero_free ?ks),
      MaxNodeGPU = MaxNodeGPU (foldl (add_node_free E ?u ?wn) zero_free ?ks)\<rparr>"
    by simp
  moreover have "(\<Sum>k\<leftarrow>?ks. free_cpu E ?u k (the (map_of ?wn k))) =
      (\<Sum>n\<leftarrow>filter eligible nodes. spec_cpu E pods n)"
    "(\<lambda>k. free_cpu E ?u k (the (map_of ?wn k))) ` set ?ks = spec_cpu E pods ` set (filter eligible nodes)"
    by (rule over, simp add: look free_eq_spec[OF d] ne)+
  moreover have "(\<Sum>k\<leftarrow>?ks. free_mem E ?u k (the (map_of ?wn k))) =
      (\<Sum>n\<leftarrow>filter eligible nodes. spec_mem E pods n)"
    "(\<lambda>k. free_mem E ?u k (the (map_of ?wn k))) ` set ?ks = spec_mem E pods ` set (filter eligible nodes)"
    by (rule over, simp add: look free_eq_spec[OF d] ne)+
  moreover have "(\<Sum>k\<leftarrow>?ks. free_gpu E ?u k (the (map_of ?wn k))) =
      (\<Sum>n\<leftarrow>filter eligible nodes. spec_gpu E pods n)"
    "(\<lambda>k. free_gpu E ?u k (the (map_of ?wn k))) ` set ?ks = spec_gpu E pods ` set (filter eligible nodes)"
    by (rule over, simp add: look free_eq_spec[OF d] ne)+
  ultimately show ?thesis
    unfolding cluster_free_of_def Let_def add_node_free_folds[OF dom]
    by (simp add: zero_free_def foldl_add64[OF z] foldl_max)
qed

lemma computeClusterFree_wp [wp_intro]:
  assumes "\<And>r e. Q r (s\<lparr>env := e\<rparr>)"
  shows "wp (computeClusterFree E) s Q"
  unfolding computeClusterFree_def by (auto simp: wp_simps assms split: sum.split)

section \<open>A concrete cluster\<close>

definition node_w1 :: "int node" where
  "node_w1 = \<lparr>node_Name = ''w1'', Unschedulable = False, Taints = [],
     Allocatable = [''cpu'' \<mapsto> 4000000000, ''memory'' \<mapsto> 8000000000]\<rparr>"

definition node_w2 :: "int node" where
  "node_w2 = \<lparr>node_Name = ''w2'', Unschedulable = False, Taints = [],
     Allocatable = [''cpu'' \<mapsto> 1000000000, ''memory'' \<mapsto> 9000000000]\<rparr>"

definition node_cp :: "int node" where
  "node_cp = \<lparr>node_Name = ''cp'', Unschedulable = False,
     Taints = [\<lparr>taint_Key = ''node-role.kubernetes.io/control-plane'', Effect = ''NoSchedule''\<rparr>],
     Allocatable = [''cpu'' \<mapsto> 9000000000, ''memory'' \<mapsto> 9000000000]\<rparr>"

definition example_pods :: "(string \<times> int pod) list" where
  "example_pods =
    [(''ns'', \<lparr>InitContainers = [], Containers = [\<lparr>Requests = [''cpu'' \<mapsto> 1500000000]\<rparr>],
      NodeName = ''w1'', Phase = ''Running''\<rparr>),
     (''ns'', \<lparr>InitContainers = [], Containers = [\<lparr>Requests = [''cpu'' \<mapsto> 1500000000]\<rparr>],
      NodeName = ''w2'', Phase = ''Running''\<rparr>)]"

definition example_env :: sample_env where
  "example_env = \<lparr>se_now = 0, se_nsqs = [], se_rqs = [], se_nodes = [node_w1, node_w2, node_cp],
     se_pods = example_pods, se_deps = [], se_rss = [], se_events = [], se_status = 204\<rparr>"

lemmas node_defs = node_w1_def node_w2_def node_cp_def

lemma example_names [simp]:
  "node_Name node_w1 = ''w1''" "node_Name node_w2 = ''w2''" "node_Name node_cp = ''cp''"
  by (simp_all add: node_defs)

lemma example_eligible [simp]: "eligible node_w1" "eligible node_w2" "\<not> eligible node_cp"
  by (simp_all add: node_defs eligible_def skip_node_def isControlTaint_def)

lemma example_spec [simp]:
  "spec_cpu (sample_ext g) (map snd example_pods) node_w1 = 2500"
  "spec_cpu (sample_ext g) (map snd example_pods) node_w2 = 0"
  "spec_mem (sample_ext g) (map snd example_pods) node_w1 = 8"
  "spec_mem (sample_ext g) (map snd example_pods) node_w2 = 9"
  "spec_gpu (sample_ext g) (map snd example_pods) node_w1 = 0"
  "spec_gpu (sample_ext g) (map snd example_pods) node_w2 = 0"
  by (simp_all add: node_defs example_pods_def spec_cpu_def spec_mem_def spec_gpu_def
      gpu_request_def containers_on_def active_on_def all_containers_def wrap64_def ceil_div_def)

section \<open>Properties\<close>

text \<open>
  C8. computeClusterFree returns exactly the reference amounts: for every node that is
  schedulable and carries no control-plane taint, allocatable less the requests of the
  active pods bound to it, floored at 0; the cluster totals are the (int64) sums of these
  and the per-node maxima their largest, whatever order Go visits the map of nodes in.
\<close>

theorem computeClusterFree_exact:
  fixes s :: "('e, 'q, 'z) world_scheme"
  assumes "\<And>ks. mset (range_order E ks) = mset ks"
    and "distinct (map node_Name nodes)" and "\<And>n. n \<in> set nodes \<Longrightarrow> node_Name n \<noteq> []"
    and "fst (ListNodes E (env s)) = Inr nodes"
    and "fst (ListPods E None (snd (ListNodes E (env s)))) = Inr pods"
  shows "fst (run_state (computeClusterFree E) s) = Inr
     \<lparr>ClusterCPU = wrap64 (\<Sum>n\<leftarrow>filter eligible nodes. spec_cpu E pods n),
      ClusterMem = wrap64 (\<Sum>n\<leftarrow>filter eligible nodes. spec_mem E pods n),
      ClusterGPU = wrap64 (\<Sum>n\<leftarrow>filter eligible nodes. spec_gpu E pods n),
      MaxNodeCPU = Max (insert 0 (spec_cpu E pods ` set (filter eligible nodes))),
      MaxNodeMem = Max (insert 0 (spec_mem E pods ` set (filter eligible nodes))),
      MaxNodeGPU = Max (insert 0 (spec_gpu E pods ` set (filter eligible nodes)))\<rparr>"
proof -
  have "wp (computeClusterFree E) s (\<lambda>r _. r = Inr (cluster_free_of E nodes pods))"
    using assms(4,5) by (simp add: computeClusterFree_def wp_simps)
  then show ?thesis
    by (simp add: wp_run cluster_free_of_spec[OF assms(1-3)])
qed

theorem computeClusterFree_exact_witness:
  "fst (run_state (computeClusterFree (sample_ext (\<lambda>_. []))) \<lparr>env = example_env, trace = []\<rparr>) = Inr
     \<lparr>ClusterCPU = 2500, ClusterMem = 17, ClusterGPU = 0,
      MaxNodeCPU = 2500, MaxNodeMem = 9, MaxNodeGPU = 0\<rparr>"
proof -
  let ?E = "sample_ext (\<lambda>_. [])" and ?p = "map snd example_pods"
  and ?ns = "[node_w1, node_w2, node_cp]"
  let ?w = "filter eligible ?ns"
  have "fst (run_state (computeClusterFree ?E) \<lparr>env = example_env, trace = []\<rparr>) = Inr
     \<lparr>ClusterCPU = wrap64 (\<Sum>n\<leftarrow>?w. spec_cpu ?E ?p n), ClusterMem = wrap64 (\<Sum>n\<leftarrow>?w. spec_mem ?E ?p n),
      ClusterGPU = wrap64 (\<Sum>n\<leftarrow>?w. spec_gpu ?E ?p n),
      MaxNodeCPU = Max (insert 0 (spec_cpu ?E ?p ` set ?w)),
      MaxNodeMem = Max (insert 0 (spec_mem ?E ?p ` set ?w)),
      MaxNodeGPU = Max (insert 0 (spec_gpu ?E ?p ` set ?w))\<rparr>"
    by (rule computeClusterFree_exact) (auto simp: example_env_def)
  then show ?thesis by (simp add: in64_def)
qed

end
