(* ===== verification/Quota_State.thy ===== *)
theory Quota_State imports Cluster_Free begin

text \<open>
  The quota side of internal/controller/namespacequota_controller.go: reading used and
  hard amounts, parsing amounts, detecting that a quota or the cluster is exhausted
  (DetectQuotaExceeded, detectWorkloadShortage), sending an object to the management
  endpoint (postYAML) and raising a quota (patchQuota).
\<close>

section \<open>Parsing\<close>

definition parseQuantityMilli :: "('q, 'z) quantity_ops_scheme \<Rightarrow> string \<Rightarrow> int go" where
  "parseQuantityMilli Q s =
     (if s = [] then Ret 0
      else case ParseQuantity Q s of Inl e \<Rightarrow> Panic e | Inr q \<Rightarrow> Ret (MilliValue Q q))"

definition parseQuantityBytes :: "('q, 'z) quantity_ops_scheme \<Rightarrow> string \<Rightarrow> int go" where
  "parseQuantityBytes Q s =
     (if s = [] then Ret 0
      else case ParseQuantity Q s of Inl e \<Rightarrow> Panic e | Inr q \<Rightarrow> Ret (Value Q q))"

definition parseScaledQuantity ::
  "('q, 'z) quantity_ops_scheme \<Rightarrow> (string \<rightharpoonup> string) \<Rightarrow> string \<Rightarrow> err + int" where
  "parseScaledQuantity Q m key = (case m key of
     None \<Rightarrow> Inl (ErrScaleStepMissing key)
   | Some val \<Rightarrow>
      if val = [] then Inl (ErrScaleStepMissing key)
      else case ParseQuantity Q val of
        Inl e \<Rightarrow> Inl (ErrInvalidQuantity key e)
      | Inr q \<Rightarrow>
          if key = ''cpu'' then Inr (MilliValue Q q)
          else if key = ''memory'' then Inr (Value Q q)
          else Inr (Value Q q))"

section \<open>Used and hard amounts\<close>

definition GetUsedCPU :: "('q, 'z) quantity_ops_scheme \<Rightarrow> 'q resource_quota \<Rightarrow> int" where
  "GetUsedCPU Q rq = (case StatusUsed rq ''limits.cpu'' of
     Some qty \<Rightarrow> MilliValue Q qty
   | None \<Rightarrow> (case StatusUsed rq ''requests.cpu'' of
        Some qty \<Rightarrow> MilliValue Q qty | None \<Rightarrow> 0))"

definition GetHardCPU :: "('q, 'z) quantity_ops_scheme \<Rightarrow> 'q resource_quota \<Rightarrow> int" where
  "GetHardCPU Q rq = (case mget (SpecHard rq) ''limits.cpu'' of
     Some qty \<Rightarrow> MilliValue Q qty
   | None \<Rightarrow> (case mget (SpecHard rq) ''requests.cpu'' of
        Some qty \<Rightarrow> MilliValue Q qty | None \<Rightarrow> 0))"

definition GetUsedMemory :: "('q, 'z) quantity_ops_scheme \<Rightarrow> 'q resource_quota \<Rightarrow> int" where
  "GetUsedMemory Q rq = (case StatusUsed rq ''limits.memory'' of
     Some qty \<Rightarrow> Value Q qty
   | None \<Rightarrow> (case StatusUsed rq ''requests.memory'' of
        Some qty \<Rightarrow> Value Q qty | None \<Rightarrow> 0))"

definition GetHardMemory :: "('q, 'z) quantity_ops_scheme \<Rightarrow> 'q resource_quota \<Rightarrow> int" where
  "GetHardMemory Q rq = (case mget (SpecHard rq) ''limits.memory'' of
     Some qty \<Rightarrow> Value Q qty
   | None \<Rightarrow> (case mget (SpecHard rq) ''requests.memory'' of
        Some qty \<Rightarrow> Value Q qty | None \<Rightarrow> 0))"

text \<open>The percentage Reconcile computes of either resource, for its log.\<close>

definition utilization :: "int \<Rightarrow> int \<Rightarrow> int" where
  "utilization used hard = (if hard > 0 then div64 (mul64 used 100) hard else 0)"

section \<open>Listing pods\<close>

definition listPodsInNamespace ::
  "('e, 'q, 'y) ext_scheme \<Rightarrow> string \<Rightarrow> (('e, 'q, 'z) world_scheme, api_error + 'q pod list) state" where
  "listPodsInNamespace E ns = do {
     r \<leftarrow> ask (ListPods E (Some ns));
     (case r of
        Inl e \<Rightarrow> State_Monad.return (Inl e)
      | Inr pods \<Rightarrow> State_Monad.return (Inr pods))
   }"

section \<open>Sending an object to the management cluster\<close>

definition postYAML ::
  "('e, 'q, 'y) ext_scheme \<Rightarrow> 'q k8s_obj \<Rightarrow> string \<Rightarrow> (('e, 'q, 'z) world_scheme, err option) state" where
  "postYAML E obj url = (case Marshal E obj of
     Inl e \<Rightarrow> State_Monad.return (Some (ErrMarshal e))
   | Inr data \<Rightarrow> (case NewRequest E url of
        Some e \<Rightarrow> State_Monad.return (Some (ErrNewRequest e))
      | None \<Rightarrow> do {
          emit (Posted url obj);
          resp \<leftarrow> ask (HttpDo E url data);
          (case resp of
             Inl e \<Rightarrow> State_Monad.return (Some (ErrPost e))
           | Inr (StatusCode, Status) \<Rightarrow>
               if StatusCode < 200 \<or> StatusCode \<ge> 300
               then State_Monad.return (Some (ErrStatus Status))
               else State_Monad.return None)
        }))"

section \<open>Raising a quota\<close>

text \<open>
  patchQuota works on the caller's ResourceQuota through a pointer, so the model returns
  the changed object beside the result. The three parts are the code's in order: the
  writes to Spec.Hard, the checks against maxQuota, and the POST followed by Update.
\<close>

definition set_hard :: "'q resource_quota \<Rightarrow> string \<Rightarrow> 'q \<Rightarrow> 'q resource_quota go" where
  "set_hard rq k v = (case mput (SpecHard rq) k v of
     None \<Rightarrow> Panic ''assignment to entry in nil map''
   | Some m \<Rightarrow> Ret (rq\<lparr>SpecHard := m\<rparr>))"

definition hard_of :: "('q, 'z) quantity_ops_scheme \<Rightarrow> 'q resource_quota \<Rightarrow> string \<Rightarrow> 'q" where
  "hard_of Q rq k = rl_index Q (mget (SpecHard rq) k)"

definition apply_steps ::
  "('q, 'z) quantity_ops_scheme \<Rightarrow> 'q resource_quota \<Rightarrow> int \<Rightarrow> int \<Rightarrow> int \<Rightarrow> 'q resource_quota go" where
  "apply_steps Q rq stepCPU stepMem stepGPU =
     (let newCPU = Add Q (hard_of Q rq ''limits.cpu'') (NewMilliQuantity Q stepCPU);
          newMem = Add Q (hard_of Q rq ''limits.memory'') (NewQuantity Q stepMem);
          newGPU = Add Q (hard_of Q rq ''nvidia.com/gpu'') (NewQuantity Q stepGPU)
      in case (if stepGPU > 0 then set_hard rq ''nvidia.com/gpu'' newGPU else Ret rq) of
           Panic e \<Rightarrow> Panic e
         | Ret rq1 \<Rightarrow> (case set_hard rq1 ''limits.cpu'' newCPU of
              Panic e \<Rightarrow> Panic e
            | Ret rq2 \<Rightarrow> set_hard rq2 ''limits.memory'' newMem))"

text \<open>One check: absent or empty limits are skipped, an unreadable limit panics.\<close>

definition exceeds ::
  "(string \<rightharpoonup> string) \<Rightarrow> string \<Rightarrow> (string \<Rightarrow> int go) \<Rightarrow> int \<Rightarrow> (int \<Rightarrow> int \<Rightarrow> err) \<Rightarrow> err option go" where
  "exceeds maxQuota key parse new mkerr = (case maxQuota key of
     None \<Rightarrow> Ret None
   | Some qty \<Rightarrow>
      if qty = [] then Ret None
      else case parse qty of
        Panic e \<Rightarrow> Panic e
      | Ret limit \<Rightarrow> Ret (if new > limit then Some (mkerr new limit) else None))"

definition check_max ::
  "('q, 'z) quantity_ops_scheme \<Rightarrow> (string \<rightharpoonup> string) \<Rightarrow> 'q resource_quota \<Rightarrow> int \<Rightarrow> err option go" where
  "check_max Q maxQuota rq stepGPU =
     (case exceeds maxQuota ''limits.cpu'' (parseQuantityMilli Q)
             (MilliValue Q (hard_of Q rq ''limits.cpu'')) ErrCpuAboveMax of
        Panic e \<Rightarrow> Panic e
      | Ret (Some e) \<Rightarrow> Ret (Some e)
      | Ret None \<Rightarrow>
     (case exceeds maxQuota ''limits.memory'' (parseQuantityBytes Q)
             (Value Q (hard_of Q rq ''limits.memory'')) ErrMemoryAboveMax of
        Panic e \<Rightarrow> Panic e
      | Ret (Some e) \<Rightarrow> Ret (Some e)
      | Ret None \<Rightarrow>
          if stepGPU > 0
          then exceeds maxQuota ''nvidia.com/gpu'' (parseQuantityMilli Q)
                 (MilliValue Q (hard_of Q rq ''nvidia.com/gpu'')) ErrGpuAboveMax
          else Ret None))"

text \<open>The minimal object that is sent: name, namespace and the hard amounts only.\<close>

definition minimal_rq :: "('q, 'z) quantity_ops_scheme \<Rightarrow> 'q resource_quota \<Rightarrow> 'q resource_quota" where
  "minimal_rq Q rq = \<lparr>
     rq_Meta = \<lparr>Name = Name (rq_Meta rq), Namespace = Namespace (rq_Meta rq),
       Labels = Map.empty, Annotations = Map.empty, Generation = 0\<rparr>,
     SpecHard = Some
       (let base = [''limits.cpu'' \<mapsto> hard_of Q rq ''limits.cpu'',
                    ''limits.memory'' \<mapsto> hard_of Q rq ''limits.memory'']
        in case mget (SpecHard rq) ''nvidia.com/gpu'' of
             Some curGPU \<Rightarrow> base(''nvidia.com/gpu'' \<mapsto> curGPU)
           | None \<Rightarrow> base),
     StatusHard = Map.empty,
     StatusUsed = Map.empty\<rparr>"

definition patchQuota ::
  "('e, 'q, 'y) ext_scheme \<Rightarrow> 'q resource_quota \<Rightarrow> int \<Rightarrow> int \<Rightarrow> int \<Rightarrow> namespace_quota \<Rightarrow>
   (('e, 'q, 'z) world_scheme, (err option \<times> 'q resource_quota) go) state" where
  "patchQuota E rq stepCPU stepMem stepGPU nsq =
     (case apply_steps E rq stepCPU stepMem stepGPU of
        Panic e \<Rightarrow> State_Monad.return (Panic e)
      | Ret rq' \<Rightarrow>
     (case check_max E (MaxQuota (QuotaScaling (Behavior (nsq_Spec nsq)))) rq' stepGPU of
        Panic e \<Rightarrow> State_Monad.return (Panic e)
      | Ret (Some e) \<Rightarrow> State_Monad.return (Ret (Some e, rq'))
      | Ret None \<Rightarrow>
          let endpointURL = EndpointServer (ClusterRef (nsq_Spec nsq))
          in if endpointURL = [] then State_Monad.return (Ret (Some ErrNoEndpointServer, rq'))
             else do {
               p \<leftarrow> postYAML E (ObjRQ (minimal_rq E rq')) endpointURL;
               (case p of
                  Some e \<Rightarrow> State_Monad.return (Ret (Some e, rq'))
                | None \<Rightarrow> do {
                    emit (RQUpdated rq');
                    u \<leftarrow> ask (UpdateRQ E rq');
                    State_Monad.return (Ret (map_option ErrApi u, rq'))
                  })
             }))"

section \<open>Detecting an exhausted quota\<close>

definition status_exhausted :: "('q, 'z) quantity_ops_scheme \<Rightarrow> 'q resource_quota \<Rightarrow> bool" where
  "status_exhausted Q rq \<longleftrightarrow>
     (let hardCPU = MilliValue Q (rl_Cpu Q (StatusHard rq));
          usedCPU = MilliValue Q (rl_Cpu Q (StatusUsed rq));
          hardMem = Value Q (rl_Memory Q (StatusHard rq));
          usedMem = Value Q (rl_Memory Q (StatusUsed rq))
      in (hardCPU > 0 \<and> usedCPU \<ge> hardCPU) \<or> (hardMem > 0 \<and> usedMem \<ge> hardMem))"

definition quota_failure :: "condition \<Rightarrow> bool" where
  "quota_failure cond \<longleftrightarrow>
     cond_Type cond = ''ReplicaFailure'' \<and> Contains (ToLower (cond_Message cond)) ''quota''"

definition recent_denial :: "int \<Rightarrow> event \<Rightarrow> bool" where
  "recent_denial now ev \<longleftrightarrow>
     \<not> (ev_Type ev \<noteq> ''Warning'') \<and>
     \<not> (ev_Reason ev \<noteq> ''FailedCreate'' \<and>
        \<not> Contains (ToLower (ev_Message ev)) ''exceeded quota'') \<and>
     time_sub now (LastTimestamp ev) \<le> 2 * minute"

definition DetectQuotaExceeded ::
  "('e, 'q, 'y) ext_scheme \<Rightarrow> 'q resource_quota \<Rightarrow>
   (('e, 'q, 'z) world_scheme, bool \<times> err option) state" where
  "DetectQuotaExceeded E rq =
     (if status_exhausted E rq then State_Monad.return (True, None)
      else do {
        depList \<leftarrow> ask (ListDeployments E (Namespace (rq_Meta rq)));
        (if (case depList of Inl _ \<Rightarrow> False
             | Inr deps \<Rightarrow> list_ex (\<lambda>dep. list_ex quota_failure (dep_Conditions dep)) deps)
         then State_Monad.return (True, None)
         else do {
           rsList \<leftarrow> ask (ListReplicaSets E (Namespace (rq_Meta rq)));
           (if (case rsList of Inl _ \<Rightarrow> False
                | Inr rss \<Rightarrow> list_ex (\<lambda>rs. list_ex quota_failure (rs_Conditions rs)) rss)
            then State_Monad.return (True, None)
            else do {
              evList \<leftarrow> ask (ListEvents E (Namespace (rq_Meta rq)));
              (case evList of
                 Inl _ \<Rightarrow> State_Monad.return (False, None)
               | Inr evs \<Rightarrow> do {
                   now \<leftarrow> ask (Now E);
                   State_Monad.return (list_ex (recent_denial now) evs, None)
                 })
            })
         })
      })"

section \<open>Detecting a shortage of the cluster\<close>

definition shortage_event :: "replica_set \<Rightarrow> event \<Rightarrow> bool" where
  "shortage_event rs e \<longleftrightarrow>
     InvolvedKind e = ''ReplicaSet'' \<and> InvolvedName e = Name (rs_Meta rs) \<and>
     ev_Type e = ''Warning'' \<and>
     (Contains (ev_Message e) ''exceeded quota'' \<or> Contains (ev_Message e) ''Insufficient'' \<or>
      Contains (ev_Message e) ''nodes are available'')"

definition replica_failure :: "condition \<Rightarrow> bool" where
  "replica_failure cond \<longleftrightarrow> cond_Type cond = ''ReplicaFailure'' \<and> cond_Status cond = ''True''"

primrec scan_conditions ::
  "('e, 'q, 'y) ext_scheme \<Rightarrow> string \<Rightarrow> replica_set \<Rightarrow> condition list \<Rightarrow>
   (('e, 'q, 'z) world_scheme, string option) state" where
  "scan_conditions E ns rs [] = State_Monad.return None"
| "scan_conditions E ns rs (cond # conds) =
     (if replica_failure cond then do {
        r \<leftarrow> ask (ListEvents E ns);
        (case find (shortage_event rs) (case r of Inl _ \<Rightarrow> [] | Inr evs \<Rightarrow> evs) of
           Some e \<Rightarrow> State_Monad.return (Some (ev_Message e))
         | None \<Rightarrow> scan_conditions E ns rs conds)
      } else scan_conditions E ns rs conds)"

primrec scan_replica_sets ::
  "('e, 'q, 'y) ext_scheme \<Rightarrow> string \<Rightarrow> replica_set list \<Rightarrow>
   (('e, 'q, 'z) world_scheme, string option go) state" where
  "scan_replica_sets E ns [] = State_Monad.return (Ret None)"
| "scan_replica_sets E ns (rs # rss) = (case Replicas rs of
     None \<Rightarrow> State_Monad.return (Panic ''nil pointer dereference'')
   | Some desired \<Rightarrow>
      if ReadyReplicas rs < desired then do {
        r \<leftarrow> scan_conditions E ns rs (rs_Conditions rs);
        (case r of
           Some msg \<Rightarrow> State_Monad.return (Ret (Some msg))
         | None \<Rightarrow> scan_replica_sets E ns rss)
      } else scan_replica_sets E ns rss)"

definition detectWorkloadShortage ::
  "('e, 'q, 'y) ext_scheme \<Rightarrow> string \<Rightarrow>
   (('e, 'q, 'z) world_scheme, (bool \<times> string \<times> err option) go) state" where
  "detectWorkloadShortage E ns = do {
     r \<leftarrow> ask (ListReplicaSets E ns);
     (case r of
        Inl e \<Rightarrow> State_Monad.return (Ret (False, [], Some (ErrApi e)))
      | Inr rss \<Rightarrow> go_bind (scan_replica_sets E ns rss) (\<lambda>m. State_Monad.return (Ret (case m of
            Some msg \<Rightarrow> (True, msg, None)
          | None \<Rightarrow> (False, [], None)))))
   }"

section \<open>Lemmas\<close>

text \<open>Reading operations change the environment only; a POST adds at most itself.\<close>

lemma listPodsInNamespace_wp [wp_intro]:
  "(\<And>r e. Q r (s\<lparr>env := e\<rparr>)) \<Longrightarrow> wp (listPodsInNamespace E ns) s Q"
  by (auto simp: listPodsInNamespace_def wp_simps split: sum.split)

lemma postYAML_wp [wp_intro]:
  assumes "\<And>e. Q (Some e) s"
    and "\<And>r e. Q r (s\<lparr>trace := trace s @ [Posted url obj], env := e\<rparr>)"
  shows "wp (postYAML E obj url) s Q"
  using assms
  by (auto simp: postYAML_def wp_simps split: sum.split option.split prod.split if_split)

lemma DetectQuotaExceeded_wp [wp_intro]:
  "(\<And>b. Q (b, None) s) \<Longrightarrow> (\<And>b e. Q (b, None) (s\<lparr>env := e\<rparr>)) \<Longrightarrow>
     wp (DetectQuotaExceeded E rq) s Q"
  by (auto simp: DetectQuotaExceeded_def wp_simps split: sum.split if_split)

lemma scan_conditions_wp:
  "(\<And>r e. Q r (s\<lparr>env := e\<rparr>)) \<Longrightarrow> wp (scan_conditions E ns rs conds) s Q"
proof (induction conds arbitrary: s)
  case Nil
  from Nil[of _ "env s"] show ?case by (simp add: wp_simps)
next
  case (Cons c conds)
  have IH: "wp (scan_conditions E ns rs conds) (s\<lparr>env := e\<rparr>) Q" for e
    by (rule Cons.IH) (simp add: Cons.prems)
  have "wp (scan_conditions E ns rs conds) s Q"
    by (rule Cons.IH) (rule Cons.prems)
  with IH show ?case
    by (auto simp: wp_simps Cons.prems split: sum.split option.split)
qed

lemma scan_replica_sets_wp:
  fixes s :: "('e, 'q, 'z) world_scheme" and E :: "('e, 'q, 'y) ext_scheme"
  shows "(\<And>r e. Q r (s\<lparr>env := e\<rparr>)) \<Longrightarrow> wp (scan_replica_sets E ns rss) s Q"
proof (induction rss arbitrary: s)
  case Nil
  from Nil[of _ "env s"] show ?case by (simp add: wp_simps)
next
  case (Cons rs rss)
  have IH: "wp (scan_replica_sets E ns rss) (s\<lparr>env := e\<rparr>) Q" for e
    by (rule Cons.IH) (simp add: Cons.prems)
  have IH0: "wp (scan_replica_sets E ns rss) s Q"
    by (rule Cons.IH) (rule Cons.prems)
  have P: "Q (Panic m) s" for m
    using Cons.prems[of _ "env s"] by simp
  show ?case
    by (auto simp: wp_simps P IH IH0 Cons.prems intro!: scan_conditions_wp split: option.split)
qed

lemma detectWorkloadShortage_wp [wp_intro]:
  "(\<And>r e. Q r (s\<lparr>env := e\<rparr>)) \<Longrightarrow> wp (detectWorkloadShortage E ns) s Q"
  by (auto simp: detectWorkloadShortage_def wp_simps intro!: scan_replica_sets_wp
      split: sum.split go.split)

text \<open>What the writes to Spec.Hard leave.\<close>

lemma apply_steps_hard:
  assumes "apply_steps Q rq sc sm sg = Ret rq'"
  shows "hard_of Q rq' ''limits.cpu'' = Add Q (hard_of Q rq ''limits.cpu'') (NewMilliQuantity Q sc)"
    and "hard_of Q rq' ''limits.memory'' = Add Q (hard_of Q rq ''limits.memory'') (NewQuantity Q sm)"
    and "hard_of Q rq' ''nvidia.com/gpu'' =
      (if sg > 0 then Add Q (hard_of Q rq ''nvidia.com/gpu'') (NewQuantity Q sg)
       else hard_of Q rq ''nvidia.com/gpu'')"
    and "k \<notin> {''limits.cpu'', ''limits.memory'', ''nvidia.com/gpu''} \<Longrightarrow> hard_of Q rq' k = hard_of Q rq k"
    and "rq_Meta rq' = rq_Meta rq"
  using assms
  by (cases "SpecHard rq"; auto simp: apply_steps_def set_hard_def hard_of_def Let_def split: if_splits)+

lemma apply_steps_panic_iff:
  "(\<exists>e. apply_steps Q rq sc sm sg = Panic e) \<longleftrightarrow> SpecHard rq = None"
  by (cases "SpecHard rq") (auto simp: apply_steps_def set_hard_def Let_def split: if_splits)

text \<open>A passed check is a bound on the checked amount.\<close>

definition below_max ::
  "(string \<rightharpoonup> string) \<Rightarrow> string \<Rightarrow> ('q \<Rightarrow> int) \<Rightarrow> (string \<Rightarrow> string + 'q) \<Rightarrow> 'q \<Rightarrow> bool" where
  "below_max maxQuota key val parse q \<longleftrightarrow> (case maxQuota key of
     None \<Rightarrow> True
   | Some qty \<Rightarrow> qty = [] \<or> (case parse qty of Inl _ \<Rightarrow> False | Inr limit \<Rightarrow> val q \<le> val limit))"

definition within_max ::
  "('q, 'z) quantity_ops_scheme \<Rightarrow> (string \<rightharpoonup> string) \<Rightarrow> 'q resource_quota \<Rightarrow> bool" where
  "within_max Q maxQuota rq \<longleftrightarrow>
     below_max maxQuota ''limits.cpu'' (MilliValue Q) (ParseQuantity Q) (hard_of Q rq ''limits.cpu'') \<and>
     below_max maxQuota ''limits.memory'' (Value Q) (ParseQuantity Q) (hard_of Q rq ''limits.memory'')"

lemma exceeds_None:
  "exceeds maxQuota key (parseQuantityMilli Q) (MilliValue Q q) mk = Ret None \<longleftrightarrow>
     below_max maxQuota key (MilliValue Q) (ParseQuantity Q) q"
  "exceeds maxQuota key (parseQuantityBytes Q) (Value Q q) mk = Ret None \<longleftrightarrow>
     below_max maxQuota key (Value Q) (ParseQuantity Q) q"
  by (auto simp: exceeds_def below_max_def parseQuantityMilli_def parseQuantityBytes_def
      split: option.split sum.split)

lemma check_max_within: "check_max Q maxQuota rq sg = Ret None \<Longrightarrow> within_max Q maxQuota rq"
  by (auto simp: check_max_def within_max_def exceeds_None split: go.splits option.splits)

text \<open>The answers of the three listings of DetectQuotaExceeded, an error read as an empty list.\<close>

definition answer :: "api_error + 'a list \<Rightarrow> 'a list" where
  "answer r = (case r of Inl _ \<Rightarrow> [] | Inr xs \<Rightarrow> xs)"

lemma answer_simps [simp]: "answer (Inl e) = []" "answer (Inr xs) = xs"
  by (simp_all add: answer_def)

text \<open>The shortage a replica set shows against a fixed list of events.\<close>

definition short_of :: "event list \<Rightarrow> replica_set \<Rightarrow> bool" where
  "short_of evs rs \<longleftrightarrow> (\<exists>d. Replicas rs = Some d \<and> ReadyReplicas rs < d) \<and>
     list_ex replica_failure (rs_Conditions rs) \<and> list_ex (shortage_event rs) evs"

lemma find_None_list_ex: "find P xs = None \<longleftrightarrow> \<not> list_ex P xs"
  by (auto simp: find_None_iff list_ex_iff)

lemma scan_conditions_stable:
  assumes "\<And>e. ListEvents E ns e = (Inr evs, e)"
  shows "wp (scan_conditions E ns rs conds) s (\<lambda>r _. r \<noteq> None \<longleftrightarrow>
     list_ex replica_failure conds \<and> list_ex (shortage_event rs) evs)"
proof (induction conds arbitrary: s)
  case (Cons c conds)
  show ?case
  proof (cases "replica_failure c \<and> list_ex (shortage_event rs) evs")
    case True
    then have "find (shortage_event rs) evs \<noteq> None" by (simp add: find_None_list_ex)
    with True show ?thesis by (auto simp: wp_simps assms split: option.split)
  next
    case False
    then have "replica_failure c \<Longrightarrow> find (shortage_event rs) evs = None"
      by (simp add: find_None_list_ex)
    with False show ?thesis
      by (auto simp: wp_simps assms split: option.split intro: wp_conseq[OF Cons])
  qed
qed (simp add: wp_simps)

lemma scan_replica_sets_stable:
  fixes s :: "('e, 'q, 'z) world_scheme" and E :: "('e, 'q, 'y) ext_scheme"
  assumes ev: "\<And>e. ListEvents E ns e = (Inr evs, e)"
    and "\<And>rs. rs \<in> set rss \<Longrightarrow> Replicas rs \<noteq> None"
  shows "wp (scan_replica_sets E ns rss) s (\<lambda>r _. \<exists>m. r = Ret m \<and>
     (m \<noteq> None \<longleftrightarrow> list_ex (short_of evs) rss))"
  using assms(2)
proof (induction rss arbitrary: s)
  case (Cons rs rss)
  from Cons.prems obtain d where d: "Replicas rs = Some d" by (metis list.set_intros(1) not_None_eq)
  have IH: "wp (scan_replica_sets E ns rss) s' (\<lambda>r _. \<exists>m. r = Ret m \<and>
     (m \<noteq> None \<longleftrightarrow> list_ex (short_of evs) rss))" for s' :: "('e, 'q, 'z) world_scheme"
    by (rule Cons.IH) (auto simp: Cons.prems)
  show ?case
  proof (cases "ReadyReplicas rs < d")
    case True
    have "wp (scan_conditions E ns rs (rs_Conditions rs)) s (\<lambda>r s'. case r of
        Some msg \<Rightarrow> list_ex (short_of evs) (rs # rss)
      | None \<Rightarrow> wp (scan_replica_sets E ns rss) s' (\<lambda>r _. \<exists>m. r = Ret m \<and>
          (m \<noteq> None \<longleftrightarrow> list_ex (short_of evs) (rs # rss))))"
      by (rule wp_conseq[OF scan_conditions_stable[OF ev]])
         (auto simp: short_of_def d True split: option.split intro: wp_conseq[OF IH])
    then show ?thesis
      by (auto simp: wp_simps d True split: option.split elim!: wp_conseq)
  next
    case False
    then have "\<not> short_of evs rs" by (simp add: short_of_def d)
    with False show ?thesis by (auto simp: d intro: wp_conseq[OF IH])
  qed
qed (simp add: wp_simps)

section \<open>Properties\<close>


text \<open>
  The steps of patchQuota are exact: with the documented laws of quantities the new
  CPU and memory limits are the old ones plus the steps (in thousandths of a core and in
  bytes), the GPU limit grows by its step if that is positive, and no other limit
  changes.
\<close>

theorem patchQuota_adds_steps:
  assumes "quantity_laws Q amt" and "in64 stepCPU" "in64 stepMem" "in64 stepGPU"
    and "apply_steps Q rq stepCPU stepMem stepGPU = Ret rq'"
  shows "amt (hard_of Q rq' ''limits.cpu'') = amt (hard_of Q rq ''limits.cpu'') + stepCPU * 1000000 \<and>
    amt (hard_of Q rq' ''limits.memory'') = amt (hard_of Q rq ''limits.memory'') + stepMem * 1000000000 \<and>
    amt (hard_of Q rq' ''nvidia.com/gpu'') =
      amt (hard_of Q rq ''nvidia.com/gpu'') + max 0 stepGPU * 1000000000 \<and>
    (\<forall>k. k \<notin> {''limits.cpu'', ''limits.memory'', ''nvidia.com/gpu''} \<longrightarrow>
       hard_of Q rq' k = hard_of Q rq k)"
  using apply_steps_hard[OF assms(5)] quantity_lawsD[OF assms(1)] assms(2-4) by auto

definition example_quota :: "int resource_quota" where
  "example_quota = \<lparr>
     rq_Meta = \<lparr>Name = ''rq'', Namespace = ''ns'', Labels = Map.empty, Annotations = Map.empty,
       Generation = 1\<rparr>,
     SpecHard = Some [''limits.cpu'' \<mapsto> 1000000000, ''limits.memory'' \<mapsto> 4000000000],
     StatusHard = [''limits.cpu'' \<mapsto> 1000000000, ''limits.memory'' \<mapsto> 4000000000],
     StatusUsed = [''limits.cpu'' \<mapsto> 1000000000, ''limits.memory'' \<mapsto> 4000000000]\<rparr>"

theorem patchQuota_adds_steps_witness:
  "\<exists>rq'. apply_steps (sample_ext (\<lambda>_. [])) example_quota 500 2 0 = Ret rq' \<and>
     hard_of (sample_ext (\<lambda>_. [])) rq' ''limits.cpu'' = 1500000000 \<and>
     hard_of (sample_ext (\<lambda>_. [])) rq' ''limits.memory'' = 6000000000"
proof -
  let ?Q = "sample_ext (\<lambda>_. [])"
  obtain rq' where r: "apply_steps ?Q example_quota 500 2 0 = Ret rq'"
    using apply_steps_panic_iff[of ?Q example_quota 500 2 0]
    by (cases "apply_steps ?Q example_quota 500 2 0") (auto simp: example_quota_def)
  have h: "in64 500" "in64 2" "in64 0" by (simp_all add: in64_def)
  from patchQuota_adds_steps[OF sample_laws h r] r show ?thesis
    by (auto simp: hard_of_def example_quota_def)
qed


text \<open>
  The usage check of DetectQuotaExceeded does not see the quotas the documentation
  configures: ResourceList.Cpu and Memory read the keys cpu and memory, so for a quota
  whose status has only limits.cpu, limits.memory, requests.cpu or requests.memory it
  never reports exhaustion, whatever is used.
\<close>

theorem limits_quota_status_blind:
  assumes "quantity_laws E amt"
    and "StatusHard rq ''cpu'' = None" and "StatusHard rq ''memory'' = None"
  shows "\<not> status_exhausted E rq"
proof -
  have "ceil_div (amt (q_zero E)) 1000000 = 0" "ceil_div (amt (q_zero E)) 1000000000 = 0"
    using quantity_lawsD(1)[OF assms(1)] by (simp_all add: ceil_div_def)
  then have "MilliValue E (q_zero E) = 0" "Value E (q_zero E) = 0"
    using quantity_lawsD(5,6)[OF assms(1), of "q_zero E"] by (simp_all add: in64_def)
  then show ?thesis
    using quantity_lawsD(7,8)[OF assms(1), of "StatusHard rq"] assms(2,3)
    by (simp add: status_exhausted_def Let_def)
qed

theorem limits_quota_status_blind_witness:
  "\<not> status_exhausted (sample_ext (\<lambda>_. [])) example_quota \<and>
   GetUsedCPU (sample_ext (\<lambda>_. [])) example_quota = GetHardCPU (sample_ext (\<lambda>_. [])) example_quota"
  using limits_quota_status_blind[OF sample_laws, of example_quota]
  by (simp add: example_quota_def GetUsedCPU_def GetHardCPU_def)

text \<open>
  C23. detectWorkloadShortage reports a shortage exactly when some ReplicaSet of the
  namespace has fewer ready replicas than desired, carries a true ReplicaFailure
  condition, and a warning event about it speaks of an exceeded quota, of insufficient
  resources or of available nodes.
\<close>

theorem detectWorkloadShortage_iff:
  assumes "fst (ListReplicaSets E ns (env s)) = Inr rss"
    and "\<And>e. ListEvents E ns e = (Inr evs, e)"
    and "\<And>rs. rs \<in> set rss \<Longrightarrow> Replicas rs \<noteq> None"
  shows "wp (detectWorkloadShortage E ns) s (\<lambda>r _. \<exists>short msg. r = Ret (short, msg, None) \<and>
     (short \<longleftrightarrow> (\<exists>rs \<in> set rss. short_of evs rs)))"
  by (auto simp: detectWorkloadShortage_def wp_simps assms(1) list_ex_iff
      intro!: wp_conseq[OF scan_replica_sets_stable[OF assms(2,3)]] split: option.split)

definition example_rs :: replica_set where
  "example_rs = \<lparr>rs_Meta = \<lparr>Name = ''web'', Namespace = ''ns'', Labels = Map.empty,
       Annotations = Map.empty, Generation = 1\<rparr>,
     Replicas = Some 3, ReadyReplicas = 1,
     rs_Conditions = [\<lparr>cond_Type = ''ReplicaFailure'', cond_Status = ''True'', cond_Reason = [],
       cond_Message = [], cond_ObservedGeneration = 1, cond_LastTransitionTime = 0\<rparr>]\<rparr>"

definition example_ev :: event where
  "example_ev = \<lparr>ev_Type = ''Warning'', ev_Reason = ''FailedCreate'',
     ev_Message = ''Insufficient cpu'', LastTimestamp = 0, InvolvedKind = ''ReplicaSet'',
     InvolvedName = ''web'', InvolvedNamespace = ''ns''\<rparr>"

lemma example_short: "short_of [example_ev] example_rs"
  by (simp add: short_of_def example_ev_def example_rs_def replica_failure_def shortage_event_def)

theorem detectWorkloadShortage_iff_witness:
  "wp (detectWorkloadShortage (sample_ext (\<lambda>_. [])\<lparr>ListEvents := \<lambda>_ e. (Inr [example_ev], e)\<rparr>) ''ns'')
     \<lparr>env = example_env\<lparr>se_rss := [example_rs]\<rparr>, trace = []\<rparr>
     (\<lambda>r _. \<exists>msg. r = Ret (True, msg, None))"
proof -
  let ?E = "sample_ext (\<lambda>_. [])\<lparr>ListEvents := \<lambda>_ e. (Inr [example_ev], e)\<rparr>"
  let ?s = "\<lparr>env = example_env\<lparr>se_rss := [example_rs]\<rparr>, trace = []\<rparr> :: (sample_env, int) world"
  have "fst (ListReplicaSets ?E ''ns'' (env ?s)) = Inr [example_rs]"
    by (simp add: in_ns_def example_rs_def)
  moreover have "ListEvents ?E ''ns'' e = (Inr [example_ev], e)" for e by simp
  moreover have "rs \<in> set [example_rs] \<Longrightarrow> Replicas rs \<noteq> None" for rs
    by (simp add: example_rs_def)
  ultimately have "wp (detectWorkloadShortage ?E ''ns'') ?s (\<lambda>r _. \<exists>short msg.
      r = Ret (short, msg, None) \<and> (short \<longleftrightarrow> (\<exists>rs \<in> set [example_rs]. short_of [example_ev] rs)))"
    by (rule detectWorkloadShortage_iff)
  then show ?thesis by (auto elim!: wp_conseq simp: example_short)
qed

end
