(* ===== verification/Rate_Limit.thy ===== *)
theory Rate_Limit imports Quota_State begin

text \<open>
  The per-namespace rate limiter of the reconciler: the map lastScale, allowScale and the
  part of SetupWithManager that makes the map. The interface \<open>rate_limiter\<close> says what a
  limiter promises; what follows from it for any sequence of requests is proved once, and
  allowScale is an instance.
\<close>

section \<open>The interface\<close>

text \<open>
  A request comes at a time for a key; the limiter grants or refuses it. It remembers the
  time of the last grant of each key, grants when there is none or it is at least an
  interval ago, and a refusal changes nothing.
\<close>

locale rate_limiter =
  fixes allow :: "int \<Rightarrow> 'k \<Rightarrow> 'm \<Rightarrow> bool \<times> 'm"
    and last_grant :: "'m \<Rightarrow> 'k \<Rightarrow> int option"
    and ok :: "'m \<Rightarrow> bool"
    and interval :: int
  assumes interval_pos: "0 < interval"
    and granted: "ok m \<Longrightarrow> fst (allow t k m) \<longleftrightarrow>
      (case last_grant m k of None \<Rightarrow> True | Some u \<Rightarrow> interval \<le> t - u)"
    and remembers: "ok m \<Longrightarrow> last_grant (snd (allow t k m)) =
      (if fst (allow t k m) then (last_grant m)(k \<mapsto> t) else last_grant m)"
    and ok_kept: "ok m \<Longrightarrow> ok (snd (allow t k m))"

text \<open>The times at which a run of requests was granted for a key.\<close>

fun grant_times ::
  "(int \<Rightarrow> 'k \<Rightarrow> 'm \<Rightarrow> bool \<times> 'm) \<Rightarrow> 'k \<Rightarrow> (int \<times> 'k) list \<Rightarrow> 'm \<Rightarrow> int list" where
  "grant_times allow k [] m = []"
| "grant_times allow k ((t, k') # rs) m =
     (case allow t k' m of (g, m') \<Rightarrow>
        if g \<and> k' = k then t # grant_times allow k rs m' else grant_times allow k rs m')"

context rate_limiter begin

text \<open>Grants of one key follow each other, and the last earlier one, by at least an interval.\<close>

lemma grants_after_last:
  "ok m \<Longrightarrow> last_grant m k = Some u \<Longrightarrow> t \<in> set (grant_times allow k rs m) \<Longrightarrow> interval \<le> t - u"
proof (induction rs arbitrary: m u)
  case (Cons r rs)
  obtain t' k' where r: "r = (t', k')" by (cases r)
  obtain g m' where a: "allow t' k' m = (g, m')" by (cases "allow t' k' m")
  have ok': "ok m'" using ok_kept[OF Cons.prems(1), of t' k'] a by simp
  have step: "grant_times allow k (r # rs) m =
      (if g \<and> k' = k then t' # grant_times allow k rs m' else grant_times allow k rs m')"
    by (simp add: r a)
  show ?case
  proof (cases "g \<and> k' = k")
    case True
    then have le: "interval \<le> t' - u" and new: "last_grant m' k = Some t'"
      using granted[OF Cons.prems(1), of t' k'] remembers[OF Cons.prems(1), of t' k'] a Cons.prems(2)
      by auto
    have "t = t' \<or> t \<in> set (grant_times allow k rs m')"
      using Cons.prems(3) True by (simp add: step)
    then show ?thesis using le interval_pos Cons.IH[OF ok' new] by auto
  next
    case False
    then have "last_grant m' k = Some u"
      using remembers[OF Cons.prems(1), of t' k'] a Cons.prems(2) by auto
    with False show ?thesis using Cons.prems(3) Cons.IH[OF ok'] by (auto simp: step)
  qed
qed simp

lemma grants_spaced: "ok m \<Longrightarrow> sorted_wrt (\<lambda>u t. interval \<le> t - u) (grant_times allow k rs m)"
proof (induction rs arbitrary: m)
  case (Cons r rs)
  obtain t' k' where r: "r = (t', k')" by (cases r)
  obtain g m' where a: "allow t' k' m = (g, m')" by (cases "allow t' k' m")
  have ok': "ok m'" using ok_kept[OF Cons.prems, of t' k'] a by simp
  have step: "grant_times allow k (r # rs) m =
      (if g \<and> k' = k then t' # grant_times allow k rs m' else grant_times allow k rs m')"
    by (simp add: r a)
  show ?case
  proof (cases "g \<and> k' = k")
    case True
    then have "last_grant m' k = Some t'" using remembers[OF Cons.prems, of t' k'] a by simp
    with True show ?thesis
      using grants_after_last[OF ok'] Cons.IH[OF ok'] by (simp add: step)
  next
    case False
    then show ?thesis using Cons.IH[OF ok'] by (auto simp: step)
  qed
qed simp

text \<open>So n grants of a key take at least n - 1 intervals.\<close>

lemma spaced_span:
  "sorted_wrt (\<lambda>u t. interval \<le> t - u) (t # ts) \<Longrightarrow>
     int (length ts) * interval \<le> last (t # ts) - t"
proof (induction ts arbitrary: t)
  case (Cons u ts)
  then have "int (length ts) * interval \<le> last (u # ts) - u" and "interval \<le> u - t" by auto
  then show ?case by (simp add: algebra_simps)
qed simp

lemma grants_bounded:
  assumes "ok m" and "\<And>t. t \<in> set (grant_times allow k rs m) \<Longrightarrow> a \<le> t \<and> t \<le> b" and "a \<le> b"
  shows "(int (length (grant_times allow k rs m)) - 1) * interval \<le> b - a"
proof (cases "grant_times allow k rs m")
  case Nil
  then show ?thesis using assms(3) interval_pos by simp
next
  case (Cons t ts)
  then have "int (length ts) * interval \<le> last (t # ts) - t"
    using spaced_span grants_spaced[OF assms(1), of k rs] by simp
  moreover have "last (t # ts) \<in> set (t # ts)" by (rule last_in_set) simp
  then have "last (t # ts) \<le> b" "a \<le> t" using assms(2) Cons by auto
  ultimately show ?thesis using Cons by simp
qed

text \<open>Nothing is starved: an interval after the last grant, a request is granted.\<close>

lemma granted_again:
  "ok m \<Longrightarrow> (\<And>u. last_grant m k = Some u \<Longrightarrow> interval \<le> t - u) \<Longrightarrow> fst (allow t k m)"
  by (auto simp: granted split: option.split)

end

section \<open>The limiter of the reconciler\<close>

record ('e, 'q) rec_world = "('e, 'q) world" +
  lastScale :: "(string, int) gomap"

text \<open>The decision of allowScale once the time is read, on the map alone.\<close>

definition limiter :: "int \<Rightarrow> int \<Rightarrow> string \<Rightarrow> (string, int) gomap \<Rightarrow> bool go \<times> (string, int) gomap" where
  "limiter minInterval now ns m =
     (let last = mget m ns
      in if last \<noteq> None \<and> time_sub now (the last) < minInterval then (Ret False, m)
         else case mput m ns now of
           None \<Rightarrow> (Panic ''assignment to entry in nil map'', m)
         | Some m' \<Rightarrow> (Ret True, m'))"

definition allowScale ::
  "('e, 'q, 'y) ext_scheme \<Rightarrow> string \<Rightarrow> int \<Rightarrow> (('e, 'q) rec_world, bool go) state" where
  "allowScale E ns minInterval = do {
     now \<leftarrow> ask (Now E);
     s \<leftarrow> State_Monad.get;
     (let (r, m) = limiter minInterval now ns (lastScale s)
      in do {
        State_Monad.set (s\<lparr>lastScale := m\<rparr>);
        State_Monad.return r
      })
   }"

text \<open>SetupWithManager makes the map if it is nil; the rest of it registers the watches.\<close>

definition setup_lastScale :: "(string, int) gomap \<Rightarrow> (string, int) gomap" where
  "setup_lastScale m = (if m = None then Some Map.empty else m)"

lemma limiter_Some:
  "limiter d now ns (Some f) =
     (if (\<exists>u. f ns = Some u \<and> time_sub now u < d) then (Ret False, Some f)
      else (Ret True, Some (f(ns \<mapsto> now))))"
  by (auto simp: limiter_def Let_def)

lemma limiter_None:
  "limiter d now ns None = (Panic ''assignment to entry in nil map'', None)"
  by (simp add: limiter_def)

text \<open>The limiter with the interval the code uses, as an instance of the interface.\<close>

definition allow_minute :: "int \<Rightarrow> string \<Rightarrow> (string, int) gomap \<Rightarrow> bool \<times> (string, int) gomap" where
  "allow_minute now ns m = (case limiter minute now ns m of
     (Ret b, m') \<Rightarrow> (b, m') | (Panic _, m') \<Rightarrow> (False, m'))"

lemma minute_small: "minute < 2 ^ 63"
  by (simp add: minute_def second_def)

lemma allow_minute_Some:
  "allow_minute now ns (Some f) =
     (if (\<exists>u. f ns = Some u \<and> now - u < minute) then (False, Some f) else (True, Some (f(ns \<mapsto> now))))"
  by (simp add: allow_minute_def limiter_Some time_sub_less_iff[OF minute_pos minute_small])

interpretation minute_limiter: rate_limiter allow_minute mget "\<lambda>m. m \<noteq> None" minute
proof unfold_locales
  show "0 < minute" by (rule minute_pos)
next
  fix m :: "(string, int) gomap" and t k
  assume "m \<noteq> None"
  then obtain f where m: "m = Some f" by auto
  show "fst (allow_minute t k m) \<longleftrightarrow>
      (case mget m k of None \<Rightarrow> True | Some u \<Rightarrow> minute \<le> t - u)"
    by (auto simp: m allow_minute_Some split: option.split)
  show "mget (snd (allow_minute t k m)) =
      (if fst (allow_minute t k m) then (mget m)(k \<mapsto> t) else mget m)"
    by (auto simp: m allow_minute_Some fun_eq_iff)
  show "snd (allow_minute t k m) \<noteq> None"
    by (auto simp: m allow_minute_Some)
qed

text \<open>One call of allowScale in any state.\<close>

lemma allowScale_wp:
  assumes "\<And>now s' m r. limiter d now ns (lastScale s) = (r, m) \<Longrightarrow> trace s' = trace s \<Longrightarrow>
      lastScale s' = m \<Longrightarrow> now = fst (Now E (env s)) \<Longrightarrow> env s' = snd (Now E (env s)) \<Longrightarrow> Q r s'"
  shows "wp (allowScale E ns d) s Q"
  unfolding allowScale_def by (auto simp: wp_simps intro!: assms split: prod.split)

text \<open>
  The times at which a sequence of calls of allowScale, with whatever the clock says at
  each, granted a scale-up of one namespace; it is a run of the limiter.
\<close>

primrec scale_grants ::
  "('e, 'q, 'y) ext_scheme \<Rightarrow> string \<Rightarrow> string list \<Rightarrow> ('e, 'q) rec_world \<Rightarrow> int list" where
  "scale_grants E ns [] s = []"
| "scale_grants E ns (n # nss) s =
     (case run_state (allowScale E n minute) s of (r, s') \<Rightarrow>
        (if r = Ret True \<and> n = ns then fst (Now E (env s)) # scale_grants E ns nss s'
         else scale_grants E ns nss s'))"

lemma run_allowScale:
  "run_state (allowScale E n d) s =
     (case limiter d (fst (Now E (env s))) n (lastScale s) of
        (r, m) \<Rightarrow> (r, s\<lparr>env := snd (Now E (env s)), lastScale := m\<rparr>))"
  by (simp add: allowScale_def ask_def split: prod.split)

lemma limiter_allow_minute:
  "m \<noteq> None \<Longrightarrow> limiter minute t n m = (Ret (fst (allow_minute t n m)), snd (allow_minute t n m))"
  by (auto simp: allow_minute_def limiter_Some)

lemma scale_grants_run:
  "lastScale s \<noteq> None \<Longrightarrow> \<exists>rs. scale_grants E ns nss s = grant_times allow_minute ns rs (lastScale s)"
proof (induction nss arbitrary: s)
  case Nil
  have "scale_grants E ns [] s = grant_times allow_minute ns [] (lastScale s)" by simp
  then show ?case by blast
next
  case (Cons n nss)
  let ?t = "fst (Now E (env s))"
  let ?s' = "snd (run_state (allowScale E n minute) s)"
  have m': "lastScale ?s' = snd (allow_minute ?t n (lastScale s))"
    and r: "fst (run_state (allowScale E n minute) s) = Ret (fst (allow_minute ?t n (lastScale s)))"
    by (simp_all add: run_allowScale limiter_allow_minute[OF Cons.prems])
  then obtain rs where "scale_grants E ns nss ?s' = grant_times allow_minute ns rs (lastScale ?s')"
    using Cons.IH[of ?s'] minute_limiter.ok_kept[OF Cons.prems, of ?t n] by auto
  then have "scale_grants E ns (n # nss) s =
      grant_times allow_minute ns ((?t, n) # rs) (lastScale s)"
    using m' r by (auto split: prod.split simp: prod_eq_iff)
  then show ?case by blast
qed

section \<open>Properties\<close>

text \<open>
  The throttle holds over any history: whatever calls of allowScale for whatever
  namespaces come, and whatever the clock says, two granted scale-ups of one namespace
  are at least a minute apart, so n of them between the times a and b need
  (n - 1) minutes.
\<close>

theorem allowScale_throttles:
  assumes "lastScale s \<noteq> None" and "a \<le> b"
    and "\<And>t. t \<in> set (scale_grants E ns nss s) \<Longrightarrow> a \<le> t \<and> t \<le> b"
  shows "sorted_wrt (\<lambda>u t. minute \<le> t - u) (scale_grants E ns nss s) \<and>
    (int (length (scale_grants E ns nss s)) - 1) * minute \<le> b - a"
proof -
  obtain rs where rs: "scale_grants E ns nss s = grant_times allow_minute ns rs (lastScale s)"
    using scale_grants_run[OF assms(1)] by blast
  show ?thesis
    using minute_limiter.grants_spaced[OF assms(1), of ns rs]
      minute_limiter.grants_bounded[OF assms(1), of ns rs a b] assms(2,3)
    by (simp add: rs)
qed

theorem allowScale_throttles_witness:
  "scale_grants (sample_ext (\<lambda>_. [])) ''ns'' [''ns'', ''other'', ''ns'']
     \<lparr>env = example_env, trace = [], lastScale = Some Map.empty\<rparr> = [0] \<and>
   sorted_wrt (\<lambda>u t. minute \<le> t - u) (scale_grants (sample_ext (\<lambda>_. [])) ''ns'' [''ns'', ''other'', ''ns'']
     \<lparr>env = example_env, trace = [], lastScale = Some Map.empty\<rparr>)"
proof -
  let ?s = "\<lparr>env = example_env, trace = [], lastScale = Some Map.empty\<rparr>
    :: (sample_env, int) rec_world"
  have g: "scale_grants (sample_ext (\<lambda>_. [])) ''ns'' [''ns'', ''other'', ''ns''] ?s = [0]"
    by (simp add: run_allowScale limiter_def example_env_def time_sub_def minute_def second_def)
  show ?thesis
    using allowScale_throttles[of ?s 0 1 "sample_ext (\<lambda>_. [])" "''ns''" "[''ns'', ''other'', ''ns'']"]
    unfolding g by simp
qed

text \<open>
  allowScale panics exactly when the map is nil, which is what a reconciler has
  until SetupWithManager made the map: writing the timestamp panics. Once made, the map
  stays, so no later call panics.
\<close>

theorem allowScale_panic_iff:
  "setup_lastScale m \<noteq> None \<and>
   wp (allowScale E ns d) s (\<lambda>r s'. ((\<exists>e. r = Panic e) \<longleftrightarrow> lastScale s = None) \<and>
     (lastScale s' = None \<longleftrightarrow> lastScale s = None))"
  by (cases "lastScale s")
     (auto simp: setup_lastScale_def wp_run run_allowScale limiter_Some limiter_None)

end
