(* ===== verification/Scale_Triggers.thy ===== *)
theory Scale_Triggers imports Rate_Limit begin

text \<open>
  The two operations by which the workload cluster asks the management cluster for more:
  TriggerScaleUpForCluster (a node, by sending the NamespaceQuota) and
  TriggerScaleUpResourceQuota (a larger quota, by sending the ResourceQuota). Both send
  at most one POST to the same endpoint and write nothing else; that contract is the
  interface \<open>scale_trigger\<close>.
\<close>

section \<open>The interface\<close>

locale scale_trigger =
  fixes run :: "string \<Rightarrow> ('s, err option go) state"
    and tr :: "'s \<Rightarrow> 'q action list"
    and target :: string
  assumes at_most_one: "wp (run ns) s (\<lambda>r s'. tr s' = tr s \<or> (\<exists>obj. tr s' = tr s @ [Posted target obj]))"
    and success: "wp (run ns) s (\<lambda>r s'. tr s' \<noteq> tr s \<longrightarrow> (\<forall>e. r \<noteq> Panic e))"

text \<open>Triggering for a sequence of namespaces, errors ignored as the callers do.\<close>

primrec run_triggers :: "(string \<Rightarrow> ('s, err option go) state) \<Rightarrow> string list \<Rightarrow> ('s, unit go) state" where
  "run_triggers run [] = State_Monad.return (Ret ())"
| "run_triggers run (ns # nss) = go_bind (run ns) (\<lambda>_. run_triggers run nss)"

context scale_trigger begin

definition only_posts :: "'q action list \<Rightarrow> bool" where
  "only_posts as \<longleftrightarrow> set as \<subseteq> range (Posted target)"

lemma run_triggers_posts:
  "wp (run_triggers run nss) s (\<lambda>r s'. \<exists>posts. tr s' = tr s @ posts \<and>
     length posts \<le> length nss \<and> only_posts posts)"
proof (induction nss arbitrary: s)
  case Nil
  show ?case by (simp add: wp_simps only_posts_def)
next
  case (Cons ns nss)
  have "wp (run ns) s (\<lambda>r s'. \<exists>p. tr s' = tr s @ p \<and> length p \<le> 1 \<and> only_posts p)"
    by (rule wp_conseq[OF at_most_one[of ns s]]) (fastforce simp: only_posts_def)
  then show ?case
    unfolding run_triggers.simps wp_go_bind
  proof (rule wp_conseq)
    fix r s'
    assume "\<exists>p. tr s' = tr s @ p \<and> length p \<le> 1 \<and> only_posts p"
    then obtain p where p: "tr s' = tr s @ p" "length p \<le> 1" "only_posts p" by blast
    have "wp (run_triggers run nss) s' (\<lambda>r s''. \<exists>posts. tr s'' = tr s @ posts \<and>
        length posts \<le> length (ns # nss) \<and> only_posts posts)"
      by (rule wp_conseq[OF Cons[of s']]) (use p in \<open>fastforce simp: only_posts_def\<close>)
    then show "case r of Ret v \<Rightarrow> wp (run_triggers run nss) s' (\<lambda>r s''. \<exists>posts.
          tr s'' = tr s @ posts \<and> length posts \<le> length (ns # nss) \<and> only_posts posts)
      | Panic msg \<Rightarrow> \<exists>posts. tr s' = tr s @ posts \<and> length posts \<le> length (ns # nss) \<and> only_posts posts"
      using p by (fastforce split: go.split)
  qed
qed

end

section \<open>Throttled triggers\<close>

text \<open>
  A trigger behind a rate limiter: a call passes the limiter once, at the time the clock
  shows when it starts, and sends a POST only if the limiter granted it.
\<close>

locale throttled_trigger = scale_trigger run tr target + rate_limiter allow last_grant ok interval
  for run :: "string \<Rightarrow> ('s, err option go) state"
    and tr :: "'s \<Rightarrow> 'q action list"
    and target :: string
    and allow :: "int \<Rightarrow> string \<Rightarrow> 'm \<Rightarrow> bool \<times> 'm"
    and last_grant :: "'m \<Rightarrow> string \<Rightarrow> int option"
    and ok :: "'m \<Rightarrow> bool"
    and interval :: int +
  fixes clock :: "'s \<Rightarrow> int"
    and lim :: "'s \<Rightarrow> 'm"
  assumes passes: "ok (lim s) \<Longrightarrow> wp (run ns) s (\<lambda>r s'. lim s' = snd (allow (clock s) ns (lim s)) \<and>
      (tr s' \<noteq> tr s \<longrightarrow> fst (allow (clock s) ns (lim s))))"

text \<open>The times of the calls that sent a POST for one namespace.\<close>

primrec post_times ::
  "(string \<Rightarrow> ('s, err option go) state) \<Rightarrow> ('s \<Rightarrow> 'q action list) \<Rightarrow> ('s \<Rightarrow> int) \<Rightarrow>
   string \<Rightarrow> string list \<Rightarrow> 's \<Rightarrow> int list" where
  "post_times run tr clock ns [] s = []"
| "post_times run tr clock ns (n # nss) s =
     (let s' = snd (run_state (run n) s)
      in if tr s' \<noteq> tr s \<and> n = ns then clock s # post_times run tr clock ns nss s'
         else post_times run tr clock ns nss s')"

context throttled_trigger begin

lemma post_times_granted:
  "ok (lim s) \<Longrightarrow> \<exists>rs. subseq (post_times run tr clock ns nss s) (grant_times allow ns rs (lim s))"
proof (induction nss arbitrary: s)
  case Nil
  then show ?case by (auto intro: exI[of _ "[]"])
next
  case (Cons n nss)
  let ?s' = "snd (run_state (run n) s)"
  have lim': "lim ?s' = snd (allow (clock s) n (lim s))"
    and posted: "tr ?s' \<noteq> tr s \<Longrightarrow> fst (allow (clock s) n (lim s))"
    using passes[OF Cons.prems, of n] by (auto simp: wp_run)
  have "ok (lim ?s')" using ok_kept[OF Cons.prems] lim' by simp
  then obtain rs where "subseq (post_times run tr clock ns nss ?s') (grant_times allow ns rs (lim ?s'))"
    using Cons.IH by blast
  then have "subseq (post_times run tr clock ns (n # nss) s)
      (grant_times allow ns ((clock s, n) # rs) (lim s))"
    using posted lim' by (auto simp: Let_def split: prod.split)
  then show ?case by blast
qed

lemma posts_spaced:
  assumes "ok (lim s)"
  shows "sorted_wrt (\<lambda>u t. interval \<le> t - u) (post_times run tr clock ns nss s)"
proof -
  obtain rs where "subseq (post_times run tr clock ns nss s) (grant_times allow ns rs (lim s))"
    using post_times_granted[OF assms] by blast
  then show ?thesis using grants_spaced[OF assms, of ns rs] by (rule sorted_wrt_subseq)
qed

end

section \<open>Common steps\<close>

definition endpoint :: "('e, 'q, 'y) ext_scheme \<Rightarrow> string" where
  "endpoint E = Getenv E ''API_ENDPOINT'' @ ''/quotabased-scaling''"

text \<open>The list must hold exactly one object.\<close>

definition only_item :: "'a list \<Rightarrow> err \<Rightarrow> err \<Rightarrow> err + 'a" where
  "only_item items none many =
     (if length items = 0 then Inl none else if length items > 1 then Inl many else Inr (items ! 0))"

definition post_to_endpoint ::
  "('e, 'q, 'y) ext_scheme \<Rightarrow> string \<Rightarrow> 'q k8s_obj \<Rightarrow> (('e, 'q, 'z) world_scheme, err option) state" where
  "post_to_endpoint E ns obj =
     (if Getenv E ''API_ENDPOINT'' = [] then State_Monad.return (Some (ErrNoApiEndpoint ns))
      else do {
        p \<leftarrow> postYAML E obj (endpoint E);
        State_Monad.return (map_option ErrScaleUpAPI p)
      })"

definition fetch_only_nsq ::
  "('e, 'q, 'y) ext_scheme \<Rightarrow> string \<Rightarrow> (('e, 'q, 'z) world_scheme, err + namespace_quota) state" where
  "fetch_only_nsq E ns = do {
     l \<leftarrow> ask (ListNSQ E ns);
     (case l of
        Inl e \<Rightarrow> State_Monad.return (Inl (ErrListing e))
      | Inr items \<Rightarrow> (case only_item items (ErrNoNSQ ns) (ErrMultipleNSQ ns) of
           Inl e \<Rightarrow> State_Monad.return (Inl e)
         | Inr n \<Rightarrow> do {
             g \<leftarrow> ask (GetNSQ E (Namespace (nsq_Meta n)) (Name (nsq_Meta n)));
             State_Monad.return (case g of Inl e \<Rightarrow> Inl (ErrApi e) | Inr nsq \<Rightarrow> Inr nsq)
           }))
   }"

definition fetch_only_rq ::
  "('e, 'q, 'y) ext_scheme \<Rightarrow> string \<Rightarrow> (('e, 'q, 'z) world_scheme, err + 'q resource_quota) state" where
  "fetch_only_rq E ns = do {
     l \<leftarrow> ask (ListRQ E ns);
     (case l of
        Inl e \<Rightarrow> State_Monad.return (Inl (ErrListing e))
      | Inr items \<Rightarrow> (case only_item items (ErrNoRQ ns) (ErrMultipleRQ ns) of
           Inl e \<Rightarrow> State_Monad.return (Inl e)
         | Inr n \<Rightarrow> do {
             g \<leftarrow> ask (GetRQ E (Namespace (rq_Meta n)) (Name (rq_Meta n)));
             State_Monad.return (case g of Inl e \<Rightarrow> Inl (ErrApi e) | Inr rq \<Rightarrow> Inr rq)
           }))
   }"

section \<open>Asking for a node\<close>

definition cooling_down :: "int \<Rightarrow> namespace_quota \<Rightarrow> bool" where
  "cooling_down now nsq \<longleftrightarrow> (case LastUpdated (nsq_Status nsq) of
     None \<Rightarrow> False | Some t \<Rightarrow> time_sub now t < 5 * minute)"

definition stamp :: "int \<Rightarrow> namespace_quota \<Rightarrow> namespace_quota" where
  "stamp now nsq = nsq\<lparr>nsq_Status := \<lparr>
     Conditions = Conditions (nsq_Status nsq) @
       [\<lparr>cond_Type = ''ScaleUpTriggered'', cond_Status = ''True'',
         cond_Reason = ''QuotaResourceShortageDetected'',
         cond_Message = ''Scale-up triggered due to quota resource shortage detected from events'',
         cond_ObservedGeneration = Generation (nsq_Meta nsq), cond_LastTransitionTime = now\<rparr>],
     LastUpdated = Some now\<rparr>\<rparr>"

definition TriggerScaleUpForCluster ::
  "('e, 'q, 'y) ext_scheme \<Rightarrow> string \<Rightarrow> (('e, 'q, 'z) world_scheme, err option go) state" where
  "TriggerScaleUpForCluster E ns = do {
     f \<leftarrow> fetch_only_nsq E ns;
     (case f of
        Inl e \<Rightarrow> State_Monad.return (Ret (Some e))
      | Inr nsq \<Rightarrow> do {
          now \<leftarrow> ask (Now E);
          (if cooling_down now nsq then State_Monad.return (Ret None)
           else do {
             p \<leftarrow> post_to_endpoint E ns (ObjNSQ (stamp now nsq));
             State_Monad.return (Ret p)
           })
        })
   }"

section \<open>Asking for a larger quota\<close>

definition map_index :: "(string \<rightharpoonup> string) \<Rightarrow> string \<Rightarrow> string" where
  "map_index m k = (case m k of Some v \<Rightarrow> v | None \<Rightarrow> [])"

definition raise_hard ::
  "('q, 'z) quantity_ops_scheme \<Rightarrow> (string \<rightharpoonup> string) \<Rightarrow> 'q resource_quota \<Rightarrow>
   (err + 'q resource_quota) go" where
  "raise_hard Q scaleStep rq =
     (let stepCPU = map_index scaleStep ''cpu''; stepMem = map_index scaleStep ''memory''
      in case ParseQuantity Q stepCPU of
           Inl e \<Rightarrow> Ret (Inl (ErrInvalidCpuStep stepCPU e))
         | Inr cpuStepQty \<Rightarrow> (case ParseQuantity Q stepMem of
              Inl e \<Rightarrow> Ret (Inl (ErrInvalidMemoryStep stepMem e))
            | Inr memStepQty \<Rightarrow>
                let newCPU = Add Q (hard_of Q rq ''limits.cpu'') cpuStepQty;
                    newMem = Add Q (hard_of Q rq ''limits.memory'') memStepQty
                in case set_hard rq ''limits.cpu'' newCPU of
                     Panic e \<Rightarrow> Panic e
                   | Ret rq1 \<Rightarrow> (case set_hard rq1 ''limits.memory'' newMem of
                        Panic e \<Rightarrow> Panic e
                      | Ret rq2 \<Rightarrow> Ret (Inr rq2))))"

definition TriggerScaleUpResourceQuota ::
  "('e, 'q, 'y) ext_scheme \<Rightarrow> string \<Rightarrow> (('e, 'q) rec_world, err option go) state" where
  "TriggerScaleUpResourceQuota E ns = go_bind (allowScale E ns minute) (\<lambda>ok.
     if \<not> ok then State_Monad.return (Ret None)
     else do {
       f \<leftarrow> fetch_only_rq E ns;
       (case f of
          Inl e \<Rightarrow> State_Monad.return (Ret (Some e))
        | Inr rq \<Rightarrow> do {
            g \<leftarrow> fetch_only_nsq E ns;
            (case g of
               Inl e \<Rightarrow> State_Monad.return (Ret (Some e))
             | Inr nsq \<Rightarrow>
                (case raise_hard E (ScaleStep (QuotaScaling (Behavior (nsq_Spec nsq)))) rq of
                   Panic e \<Rightarrow> State_Monad.return (Panic e)
                 | Ret (Inl e) \<Rightarrow> State_Monad.return (Ret (Some e))
                 | Ret (Inr rq') \<Rightarrow> do {
                     p \<leftarrow> post_to_endpoint E ns (ObjRQ rq');
                     State_Monad.return (Ret p)
                   }))
          })
     })"

section \<open>Lemmas\<close>

lemma only_item_Inr: "only_item items a b = Inr n \<Longrightarrow> items = [n]"
  by (cases items) (auto simp: only_item_def split: if_splits)

lemma fetch_only_nsq_wp:
  assumes "\<And>err e. Q (Inl err) (s\<lparr>env := e\<rparr>)"
    and "\<And>nsq n e1 e2 e. fst (ListNSQ E ns e1) = Inr [n] \<Longrightarrow>
      fst (GetNSQ E (Namespace (nsq_Meta n)) (Name (nsq_Meta n)) e2) = Inr nsq \<Longrightarrow>
      Q (Inr nsq) (s\<lparr>env := e\<rparr>)"
  shows "wp (fetch_only_nsq E ns) s Q"
  by (auto simp: fetch_only_nsq_def wp_simps assms(1) dest!: only_item_Inr intro: assms(2)
      split: sum.split)

lemma fetch_only_rq_wp:
  assumes "\<And>err e. Q (Inl err) (s\<lparr>env := e\<rparr>)"
    and "\<And>rq n e1 e2 e. fst (ListRQ E ns e1) = Inr [n] \<Longrightarrow>
      fst (GetRQ E (Namespace (rq_Meta n)) (Name (rq_Meta n)) e2) = Inr rq \<Longrightarrow>
      Q (Inr rq) (s\<lparr>env := e\<rparr>)"
  shows "wp (fetch_only_rq E ns) s Q"
  by (auto simp: fetch_only_rq_def wp_simps assms(1) dest!: only_item_Inr intro: assms(2)
      split: sum.split)

lemma post_to_endpoint_wp:
  assumes "\<And>e. Q (Some e) s"
    and "\<And>r e. Q r (s\<lparr>trace := trace s @ [Posted (endpoint E) obj], env := e\<rparr>)"
  shows "wp (post_to_endpoint E ns obj) s Q"
  by (auto simp: post_to_endpoint_def wp_simps assms intro!: postYAML_wp)

text \<open>What raise_hard leaves, when it leaves anything.\<close>

lemma raise_hard_Inr:
  assumes "raise_hard Q scaleStep rq = Ret (Inr rq')"
  obtains cpuStep memStep
  where "ParseQuantity Q (map_index scaleStep ''cpu'') = Inr cpuStep"
    and "ParseQuantity Q (map_index scaleStep ''memory'') = Inr memStep"
    and "hard_of Q rq' ''limits.cpu'' = Add Q (hard_of Q rq ''limits.cpu'') cpuStep"
    and "hard_of Q rq' ''limits.memory'' = Add Q (hard_of Q rq ''limits.memory'') memStep"
    and "\<And>k. k \<noteq> ''limits.cpu'' \<Longrightarrow> k \<noteq> ''limits.memory'' \<Longrightarrow>
      mget (SpecHard rq') k = mget (SpecHard rq) k"
    and "rq_Meta rq' = rq_Meta rq"
  using assms
  by (cases "SpecHard rq") (auto simp: raise_hard_def set_hard_def hard_of_def Let_def split: sum.splits)

text \<open>
  The operations as a whole: no effect, or one POST of what they computed from the
  objects they fetched, with the conditions under which they send it.
\<close>

lemma TriggerScaleUpForCluster_wp:
  assumes "\<And>r e. Q (Ret r) (s\<lparr>env := e\<rparr>)"
    and "\<And>r n nsq now e1 e2 e. fst (ListNSQ E ns e1) = Inr [n] \<Longrightarrow>
      fst (GetNSQ E (Namespace (nsq_Meta n)) (Name (nsq_Meta n)) e2) = Inr nsq \<Longrightarrow>
      \<not> cooling_down now nsq \<Longrightarrow>
      Q (Ret r) (s\<lparr>trace := trace s @ [Posted (endpoint E) (ObjNSQ (stamp now nsq))], env := e\<rparr>)"
  shows "wp (TriggerScaleUpForCluster E ns) s Q"
  unfolding TriggerScaleUpForCluster_def
  by (auto simp: wp_simps assms(1) intro!: fetch_only_nsq_wp post_to_endpoint_wp)
     (rule assms(2); assumption)

lemma TriggerScaleUpResourceQuota_wp:
  assumes "\<And>r s'. trace s' = trace s \<Longrightarrow> Q r s'"
    and "\<And>r n1 rq n2 nsq rq' e1 e2 e3 e4 s'.
      limiter minute (fst (Now E (env s))) ns (lastScale s) = (Ret True, lastScale s') \<Longrightarrow>
      fst (ListRQ E ns e1) = Inr [n1] \<Longrightarrow>
      fst (GetRQ E (Namespace (rq_Meta n1)) (Name (rq_Meta n1)) e2) = Inr rq \<Longrightarrow>
      fst (ListNSQ E ns e3) = Inr [n2] \<Longrightarrow>
      fst (GetNSQ E (Namespace (nsq_Meta n2)) (Name (nsq_Meta n2)) e4) = Inr nsq \<Longrightarrow>
      raise_hard E (ScaleStep (QuotaScaling (Behavior (nsq_Spec nsq)))) rq = Ret (Inr rq') \<Longrightarrow>
      trace s' = trace s @ [Posted (endpoint E) (ObjRQ rq')] \<Longrightarrow> Q (Ret r) s'"
  shows "wp (TriggerScaleUpResourceQuota E ns) s Q"
  unfolding TriggerScaleUpResourceQuota_def wp_go_bind
  by (rule allowScale_wp)
     (auto simp: wp_simps assms(1) intro!: fetch_only_rq_wp fetch_only_nsq_wp post_to_endpoint_wp
      split: go.split sum.split, rule assms(2), (assumption | simp)+)

section \<open>Both triggers keep the contract\<close>

interpretation node_trigger: scale_trigger "TriggerScaleUpForCluster E" trace "endpoint E" for E
  by unfold_locales (auto intro!: TriggerScaleUpForCluster_wp)

interpretation quota_trigger: scale_trigger "TriggerScaleUpResourceQuota E" trace "endpoint E" for E
  by unfold_locales (auto intro!: TriggerScaleUpResourceQuota_wp)

interpretation quota_throttle: throttled_trigger "TriggerScaleUpResourceQuota E" trace "endpoint E"
  allow_minute mget "\<lambda>m. m \<noteq> None" minute "\<lambda>s. fst (Now E (env s))" lastScale
  for E :: "('e, 'q, 'y) ext_scheme"
proof unfold_locales
  fix s :: "('e, 'q) rec_world" and ns
  assume m: "lastScale s \<noteq> None"
  let ?t = "fst (Now E (env s))"
  show "wp (TriggerScaleUpResourceQuota E ns) s (\<lambda>r s'.
      lastScale s' = snd (allow_minute ?t ns (lastScale s)) \<and>
      (trace s' \<noteq> trace s \<longrightarrow> fst (allow_minute ?t ns (lastScale s))))"
    unfolding TriggerScaleUpResourceQuota_def wp_go_bind
    by (rule allowScale_wp)
       (auto simp: wp_simps limiter_allow_minute[OF m] intro!: fetch_only_rq_wp fetch_only_nsq_wp
         post_to_endpoint_wp split: go.split sum.split)
qed

section \<open>Properties\<close>

text \<open>
  Throttling of quota requests: in any sequence of TriggerScaleUpResourceQuota calls,
  for whatever namespaces and however the cluster answers, the calls that sent a POST for
  one namespace started at least a minute apart.
\<close>

theorem quota_posts_spaced:
  fixes E :: "('e, 'q, 'y) ext_scheme" and s :: "('e, 'q) rec_world"
  assumes "lastScale s \<noteq> None"
  shows "sorted_wrt (\<lambda>u t. minute \<le> t - u)
    (post_times (TriggerScaleUpResourceQuota E) trace (\<lambda>s. fst (Now E (env s))) ns nss s)"
  using assms by (rule quota_throttle.posts_spaced)

text \<open>
  A storm of requests stays bounded and one-directional: n calls of either trigger send
  at most n POSTs, all of them to API_ENDPOINT/quotabased-scaling, and change nothing in
  the cluster's own API server.
\<close>

theorem triggers_only_post:
  fixes s :: "('e, 'q, 'z) world_scheme" and s2 :: "('e, 'q) rec_world"
  shows "wp (run_triggers (TriggerScaleUpForCluster E) nss) s (\<lambda>r s'. \<exists>posts.
      trace s' = trace s @ posts \<and> length posts \<le> length nss \<and>
      set posts \<subseteq> range (Posted (endpoint E))) \<and>
    wp (run_triggers (TriggerScaleUpResourceQuota E) nss) s2 (\<lambda>r s'. \<exists>posts.
      trace s' = trace s2 @ posts \<and> length posts \<le> length nss \<and>
      set posts \<subseteq> range (Posted (endpoint E)))"
  using node_trigger.run_triggers_posts[of E nss s] quota_trigger.run_triggers_posts[of E nss s2]
  unfolding node_trigger.only_posts_def quota_trigger.only_posts_def by simp


definition set_max :: "(string \<rightharpoonup> string) \<Rightarrow> namespace_quota \<Rightarrow> namespace_quota" where
  "set_max m nsq = nsq\<lparr>nsq_Spec := (nsq_Spec nsq)\<lparr>Behavior := (Behavior (nsq_Spec nsq))\<lparr>
     QuotaScaling := (QuotaScaling (Behavior (nsq_Spec nsq)))\<lparr>MaxQuota := m\<rparr>\<rparr>\<rparr>\<rparr>"

definition with_max :: "(string \<rightharpoonup> string) \<Rightarrow> ('e, 'q, 'y) ext_scheme \<Rightarrow> ('e, 'q, 'y) ext_scheme" where
  "with_max m E = E\<lparr>GetNSQ := \<lambda>ns nm e. (case GetNSQ E ns nm e of
     (Inl err, e') \<Rightarrow> (Inl err, e') | (Inr nsq, e') \<Rightarrow> (Inr (set_max m nsq), e'))\<rparr>"

lemma with_max_sel [simp]:
  "ParseQuantity (with_max m E) = ParseQuantity E" "Add (with_max m E) = Add E"
  "q_zero (with_max m E) = q_zero E" "Now (with_max m E) = Now E"
  "Getenv (with_max m E) = Getenv E" "Marshal (with_max m E) = Marshal E"
  "NewRequest (with_max m E) = NewRequest E" "HttpDo (with_max m E) = HttpDo E"
  "ListNSQ (with_max m E) = ListNSQ E" "ListRQ (with_max m E) = ListRQ E"
  "GetRQ (with_max m E) = GetRQ E"
  by (simp_all add: with_max_def)

lemma with_max_post [simp]: "post_to_endpoint (with_max m E) ns obj = post_to_endpoint E ns obj"
  unfolding post_to_endpoint_def postYAML_def endpoint_def with_max_sel ..

lemma with_max_raise [simp]: "raise_hard (with_max m E) st rq = raise_hard E st rq"
  unfolding raise_hard_def hard_of_def rl_index_def with_max_sel ..

lemma with_max_fetch:
  "fetch_only_nsq (with_max m E) ns =
     State_Monad.bind (fetch_only_nsq E ns) (\<lambda>f. State_Monad.return
       (case f of Inl e \<Rightarrow> Inl e | Inr nsq \<Rightarrow> Inr (set_max m nsq)))"
  by (rule state_ext)
     (auto simp: fetch_only_nsq_def with_max_def ask_def split: sum.split prod.split)

text \<open>
  maxQuota plays no part in it: replacing the maxQuota of every NamespaceQuota the API
  server hands out, by any limits at all, changes neither what
  TriggerScaleUpResourceQuota does nor what it returns. So a raised quota is sent whether
  or not it is above the documented upper bound.
\<close>

theorem quota_request_ignores_max:
  "TriggerScaleUpResourceQuota (with_max m E) ns = TriggerScaleUpResourceQuota E ns"
proof -
  have fetch: "fetch_only_rq (with_max m E) ns = fetch_only_rq E ns"
    unfolding fetch_only_rq_def with_max_sel ..
  have steps: "ScaleStep (QuotaScaling (Behavior (nsq_Spec (set_max m nsq)))) =
      ScaleStep (QuotaScaling (Behavior (nsq_Spec nsq)))" for nsq
    by (simp add: set_max_def)
  have allow: "allowScale (with_max m E) ns minute = allowScale E ns minute"
    by (simp add: allowScale_def)
  show ?thesis
    unfolding TriggerScaleUpResourceQuota_def fetch allow with_max_fetch with_max_raise with_max_post
    by (rule arg_cong[of _ _ "go_bind _"] ext)+
       (auto simp: steps intro!: state_ext split: sum.split prod.split)
qed


lemma node_trigger_posts:
  assumes "\<And>e. ListNSQ E ns e = (Inr [n], e)"
    and "\<And>e. GetNSQ E (Namespace (nsq_Meta n)) (Name (nsq_Meta n)) e = (Inr nsq, e)"
    and "LastUpdated (nsq_Status nsq) = None"
    and "Getenv E ''API_ENDPOINT'' \<noteq> []"
    and "\<And>obj. \<exists>d. Marshal E obj = Inr d" and "\<And>u. NewRequest E u = None"
  shows "wp (TriggerScaleUpForCluster E ns) s
    (\<lambda>r s'. (\<exists>v. r = Ret v) \<and> (\<exists>now. trace s' = trace s @ [Posted (endpoint E) (ObjNSQ (stamp now nsq))]))"
proof -
  obtain d where d: "Marshal E (ObjNSQ (stamp (fst (Now E (env s))) nsq)) = Inr d"
    using assms(5) by blast
  show ?thesis
    by (auto simp: TriggerScaleUpForCluster_def fetch_only_nsq_def only_item_def cooling_down_def
        post_to_endpoint_def postYAML_def wp_simps assms(1-4,6) d split: sum.split prod.split)
qed

text \<open>
  The cooldown never takes hold: the stamped time is only sent away, not stored. As
  long as nobody else writes LastUpdated into the NamespaceQuota, k calls send k POSTs,
  however close together they come.
\<close>

theorem node_cooldown_never_holds:
  fixes s :: "('e, 'q, 'z) world_scheme"
  assumes "\<And>e. ListNSQ E ns e = (Inr [n], e)"
    and "\<And>e. GetNSQ E (Namespace (nsq_Meta n)) (Name (nsq_Meta n)) e = (Inr nsq, e)"
    and "LastUpdated (nsq_Status nsq) = None"
    and "Getenv E ''API_ENDPOINT'' \<noteq> []"
    and "\<And>obj. \<exists>d. Marshal E obj = Inr d" and "\<And>u. NewRequest E u = None"
  shows "wp (run_triggers (TriggerScaleUpForCluster E) (replicate k ns)) s
    (\<lambda>r s'. \<exists>posts. trace s' = trace s @ posts \<and> length posts = k)"
proof (induction k arbitrary: s)
  case 0
  show ?case by (simp add: wp_simps)
next
  case (Suc k)
  show ?case
    unfolding replicate_Suc run_triggers.simps wp_go_bind
  proof (rule wp_conseq[OF node_trigger_posts[OF assms]])
    fix r and s' :: "('e, 'q, 'z) world_scheme"
    assume "(\<exists>v. r = Ret v) \<and> (\<exists>now. trace s' = trace s @ [Posted (endpoint E) (ObjNSQ (stamp now nsq))])"
    then obtain v a where r: "r = Ret v" and t: "trace s' = trace s @ [a]" by blast
    show "case r of Ret v \<Rightarrow> wp (run_triggers (TriggerScaleUpForCluster E) (replicate k ns)) s'
        (\<lambda>r s''. \<exists>posts. trace s'' = trace s @ posts \<and> length posts = Suc k)
      | Panic msg \<Rightarrow> \<exists>posts. trace s' = trace s @ posts \<and> length posts = Suc k"
      unfolding r by (auto simp: t intro!: wp_conseq[OF Suc[of s']])
  qed
qed

definition example_nsq :: namespace_quota where
  "example_nsq = \<lparr>
     nsq_Meta = \<lparr>Name = ''nsq'', Namespace = ''ns'', Labels = Map.empty, Annotations = Map.empty,
       Generation = 1\<rparr>,
     nsq_Spec = \<lparr>
       ClusterRef = \<lparr>cr_Name = ''myaws'', cr_RepositoryURL = ''http://git/myaws'', cr_Path = ''samples'',
         EndpointServer = ''http://mgmt:8000'',
         ManagementCluster = \<lparr>mc_Name = ''mgmt'', mc_RepositoryURL = ''http://git/mgmt''\<rparr>\<rparr>,
       AppliedQuotaRef = \<lparr>aqr_Namespace = ''ns'', aqr_Name = ''rq''\<rparr>,
       Behavior = \<lparr>
         QuotaScaling = \<lparr>qs_Enabled = True, MinQuota = [''cpu'' \<mapsto> ''500m''],
           MaxQuota = [''cpu'' \<mapsto> ''4000m'', ''memory'' \<mapsto> ''4Gi''],
           ScaleStep = [''cpu'' \<mapsto> ''500m'', ''memory'' \<mapsto> ''512Mi''],
           TargetQuotaUtilization = 70, Mode = []\<rparr>,
         NodeScaling = \<lparr>ns_Enabled = True, MinNodes = 1, MaxNodes = 2, NodeFlavor = ''m'',
           ScaleUpCooldownSeconds = 85, ScaleUpThreshold = 50\<rparr>\<rparr>\<rparr>,
     nsq_Status = \<lparr>Conditions = [], LastUpdated = None\<rparr>\<rparr>"

lemma example_nsq_sel [simp]:
  "nsq_Meta example_nsq = \<lparr>Name = ''nsq'', Namespace = ''ns'', Labels = Map.empty,
     Annotations = Map.empty, Generation = 1\<rparr>"
  "LastUpdated (nsq_Status example_nsq) = None"
  by (simp_all add: example_nsq_def)

definition api_set :: "string \<Rightarrow> string" where
  "api_set k = (if k = ''API_ENDPOINT'' then ''http://mgmt:8000'' else [])"

theorem node_cooldown_never_holds_witness:
  "wp (run_triggers (TriggerScaleUpForCluster (sample_ext api_set
       \<lparr>ListNSQ := \<lambda>_ e. (Inr [example_nsq], e), GetNSQ := \<lambda>_ _ e. (Inr example_nsq, e)\<rparr>))
     (replicate 2 ''ns'')) \<lparr>env = example_env, trace = []\<rparr>
     (\<lambda>r s'. \<exists>posts. trace s' = posts \<and> length posts = 2)"
proof -
  let ?E = "sample_ext api_set\<lparr>ListNSQ := \<lambda>_ e. (Inr [example_nsq], e), GetNSQ := \<lambda>_ _ e. (Inr example_nsq, e)\<rparr>"
  have "wp (run_triggers (TriggerScaleUpForCluster ?E) (replicate 2 ''ns'')) \<lparr>env = example_env, trace = []\<rparr>
     (\<lambda>r s'. \<exists>posts. trace s' = trace \<lparr>env = example_env, trace = []\<rparr> @ posts \<and> length posts = 2)"
    by (rule node_cooldown_never_holds[where n = example_nsq and nsq = example_nsq])
       (simp_all add: api_set_def)
  then show ?thesis by simp
qed

definition quota_world :: "(sample_env, int) rec_world" where
  "quota_world = \<lparr>env = example_env\<lparr>se_nsqs := [example_nsq], se_rqs := [example_quota]\<rparr>,
     trace = [], lastScale = Some Map.empty\<rparr>"

lemma quota_world_post_times:
  "post_times (TriggerScaleUpResourceQuota (sample_ext api_set)) trace
     (\<lambda>s. fst (Now (sample_ext api_set) (env s))) ''ns'' [''ns'', ''ns''] quota_world = [0]"
  by (simp add: quota_world_def example_env_def TriggerScaleUpResourceQuota_def go_bind_def
      run_allowScale limiter_Some fetch_only_rq_def fetch_only_nsq_def ask_def emit_def only_item_def
      in_ns_def named_def found_def example_quota_def raise_hard_def map_index_def set_hard_def
      post_to_endpoint_def postYAML_def api_set_def sample_parse_def time_sub_def minute_def
      second_def example_nsq_def)

theorem quota_posts_spaced_witness:
  "post_times (TriggerScaleUpResourceQuota (sample_ext api_set)) trace
     (\<lambda>s. fst (Now (sample_ext api_set) (env s))) ''ns'' [''ns'', ''ns''] quota_world = [0] \<and>
   sorted_wrt (\<lambda>u t. minute \<le> t - u)
    (post_times (TriggerScaleUpResourceQuota (sample_ext api_set)) trace
       (\<lambda>s. fst (Now (sample_ext api_set) (env s))) ''ns'' [''ns'', ''ns''] quota_world)"
  by (intro conjI quota_world_post_times quota_posts_spaced) (simp add: quota_world_def)

end
