(* ===== verification/Reconciler.thy ===== *)
theory Reconciler imports Scale_Triggers begin

text \<open>
  The reconciler of internal/controller/namespacequota_controller.go: Reconcile, the
  functions that map watched objects to reconcile requests, and the event watch that
  triggers scaling on its own.
\<close>

section \<open>Reconcile\<close>

record ctrl_result =
  RequeueAfter :: int

definition no_requeue :: ctrl_result where
  "no_requeue = \<lparr>RequeueAfter = 0\<rparr>"

record requests =
  podCPU :: int
  podMem :: int
  podGPU :: int

definition add_request :: "('q, 'z) quantity_ops_scheme \<Rightarrow> requests \<Rightarrow> 'q container \<Rightarrow> requests" where
  "add_request Q t ctr = \<lparr>
     podCPU = add64 (podCPU t) (MilliValue Q (rl_Cpu Q (Requests ctr))),
     podMem = add64 (podMem t) (Value Q (rl_Memory Q (Requests ctr))),
     podGPU = (case Requests ctr ''nvidia.com/gpu'' of
                 Some gpu \<Rightarrow> add64 (podGPU t) (Value Q gpu)
               | None \<Rightarrow> podGPU t)\<rparr>"

definition sum_requests :: "('q, 'z) quantity_ops_scheme \<Rightarrow> 'q pod list \<Rightarrow> requests" where
  "sum_requests Q pods = foldl (\<lambda>t p. foldl (add_request Q) t (InitContainers p @ Containers p))
     \<lparr>podCPU = 0, podMem = 0, podGPU = 0\<rparr> pods"

definition fits :: "requests \<Rightarrow> cluster_free \<Rightarrow> bool" where
  "fits t free \<longleftrightarrow> podCPU t \<le> MaxNodeCPU free \<and> podMem t \<le> MaxNodeMem free \<and>
     podGPU t \<le> MaxNodeGPU free"

definition handle_denied ::
  "('e, 'q, 'y) ext_scheme \<Rightarrow> 'q resource_quota \<Rightarrow>
   (('e, 'q) rec_world, (ctrl_result \<times> err option) go) state" where
  "handle_denied E rq = do {
     f \<leftarrow> computeClusterFree E;
     (case f of
        Inl _ \<Rightarrow> State_Monad.return (Panic ''nil pointer dereference'')
      | Inr free \<Rightarrow> do {
          pl \<leftarrow> listPodsInNamespace E (Namespace (rq_Meta rq));
          (case pl of
             Inl _ \<Rightarrow> State_Monad.return (Ret (\<lparr>RequeueAfter = 20 * second\<rparr>, None))
           | Inr pods \<Rightarrow>
               if fits (sum_requests E pods) free
               then State_Monad.return (Ret (no_requeue, None))
               else go_bind (TriggerScaleUpResourceQuota E (Namespace (rq_Meta rq)))
                      (\<lambda>_. State_Monad.return (Ret (no_requeue, None))))
        })
   }"

definition handle_not_denied ::
  "('e, 'q, 'y) ext_scheme \<Rightarrow> string \<Rightarrow>
   (('e, 'q) rec_world, (ctrl_result \<times> err option) go) state" where
  "handle_not_denied E reqNamespace = go_bind (detectWorkloadShortage E reqNamespace)
     (\<lambda>(shortage, msg, _).
        if shortage
        then go_bind (TriggerScaleUpForCluster E reqNamespace)
               (\<lambda>_. State_Monad.return (Ret (no_requeue, None)))
        else State_Monad.return (Ret (no_requeue, None)))"

definition Reconcile ::
  "('e, 'q, 'y) ext_scheme \<Rightarrow> string \<Rightarrow> string \<Rightarrow>
   (('e, 'q) rec_world, (ctrl_result \<times> err option) go) state" where
  "Reconcile E reqNamespace reqName =
     (if Getenv E ''SERVER_TYPE'' \<noteq> [] \<and> Getenv E ''SERVER_TYPE'' = ''MGMT''
      then State_Monad.return (Ret (no_requeue, None))
      else do {
        g \<leftarrow> ask (GetNSQ E reqNamespace reqName);
        (case g of
           Inl NotFound \<Rightarrow> State_Monad.return (Ret (no_requeue, None))
         | Inl err \<Rightarrow> State_Monad.return (Ret (no_requeue, Some (ErrApi err)))
         | Inr nsq \<Rightarrow> do {
             r \<leftarrow> ask (GetRQ E (aqr_Namespace (AppliedQuotaRef (nsq_Spec nsq)))
                            (aqr_Name (AppliedQuotaRef (nsq_Spec nsq))));
             (case r of
                Inl _ \<Rightarrow> State_Monad.return (Ret (\<lparr>RequeueAfter = 15 * second\<rparr>, None))
              | Inr rq \<Rightarrow> do {
                  d \<leftarrow> DetectQuotaExceeded E rq;
                  (if fst d then handle_denied E rq else handle_not_denied E reqNamespace)
                })
           })
      })"

section \<open>Mapping watched objects to requests\<close>

text \<open>A request is the namespace and the name of a NamespaceQuota.\<close>

definition requests_for ::
  "('e, 'q, 'y) ext_scheme \<Rightarrow> string \<Rightarrow> (namespace_quota \<Rightarrow> bool) \<Rightarrow>
   (('e, 'q, 'z) world_scheme, (string \<times> string) list) state" where
  "requests_for E ns sel = do {
     l \<leftarrow> ask (ListNSQ E ns);
     State_Monad.return (case l of
        Inl _ \<Rightarrow> []
      | Inr items \<Rightarrow> map (\<lambda>nsq. (Namespace (nsq_Meta nsq), Name (nsq_Meta nsq))) (filter sel items))
   }"

definition watchDeploymentToNamespaceQuotas ::
  "('e, 'q, 'y) ext_scheme \<Rightarrow> deployment \<Rightarrow>
   (('e, 'q, 'z) world_scheme, (string \<times> string) list) state" where
  "watchDeploymentToNamespaceQuotas E dep = requests_for E (Namespace (dep_Meta dep))
     (\<lambda>nsq. aqr_Namespace (AppliedQuotaRef (nsq_Spec nsq)) = Namespace (dep_Meta dep))"

definition watchReplicaSetToNamespaceQuotas ::
  "('e, 'q, 'y) ext_scheme \<Rightarrow> replica_set \<Rightarrow>
   (('e, 'q, 'z) world_scheme, (string \<times> string) list) state" where
  "watchReplicaSetToNamespaceQuotas E rs = requests_for E (Namespace (rs_Meta rs))
     (\<lambda>nsq. aqr_Namespace (AppliedQuotaRef (nsq_Spec nsq)) = Namespace (rs_Meta rs))"

definition watchResourceQuotaToNamespaceQuotas ::
  "('e, 'q, 'y) ext_scheme \<Rightarrow> 'q resource_quota \<Rightarrow>
   (('e, 'q, 'z) world_scheme, (string \<times> string) list) state" where
  "watchResourceQuotaToNamespaceQuotas E rq = requests_for E (Namespace (rq_Meta rq))
     (\<lambda>nsq. aqr_Name (AppliedQuotaRef (nsq_Spec nsq)) = Name (rq_Meta rq) \<and>
            aqr_Namespace (AppliedQuotaRef (nsq_Spec nsq)) = Namespace (rq_Meta rq))"

definition watchNodesCluster :: "'q node \<Rightarrow> (('e, 'q, 'z) world_scheme, (string \<times> string) list) state" where
  "watchNodesCluster n = State_Monad.return []"

text \<open>The events that matter, and what they trigger.\<close>

definition relevant_event :: "event \<Rightarrow> bool" where
  "relevant_event ev \<longleftrightarrow> \<not> (ev_Type ev \<noteq> ''Warning'') \<and>
     \<not> (ev_Reason ev \<noteq> ''FailedCreate'' \<and>
        \<not> Contains (ToLower (ev_Message ev)) ''exceeded quota'' \<and>
        \<not> Contains (ToLower (ev_Message ev)) ''insufficient'' \<and>
        \<not> Contains (ToLower (ev_Message ev)) ''nodes are available'')"

definition watchEventsCluster ::
  "('e, 'q, 'y) ext_scheme \<Rightarrow> event \<Rightarrow> (('e, 'q) rec_world, (string \<times> string) list go) state" where
  "watchEventsCluster E ev =
     (if \<not> relevant_event ev then State_Monad.return (Ret [])
      else do {
        l \<leftarrow> ask (ListNSQ E (InvolvedNamespace ev));
        (case l of
           Inl _ \<Rightarrow> State_Monad.return (Ret [])
         | Inr items \<Rightarrow>
             let out = map (\<lambda>nsq. (Namespace (nsq_Meta nsq), Name (nsq_Meta nsq)))
                   (filter (\<lambda>nsq. Contains (ev_Message ev) (aqr_Name (AppliedQuotaRef (nsq_Spec nsq))) \<or>
                      aqr_Namespace (AppliedQuotaRef (nsq_Spec nsq)) = InvolvedNamespace ev) items)
             in if Contains (ToLower (ev_Message ev)) ''exceeded quota''
                then go_bind (TriggerScaleUpResourceQuota E (InvolvedNamespace ev))
                       (\<lambda>_. State_Monad.return (Ret out))
                else go_bind (TriggerScaleUpForCluster E (InvolvedNamespace ev))
                       (\<lambda>_. State_Monad.return (Ret out)))
      })"


section \<open>Lemmas\<close>

text \<open>A trigger whose error is dropped: at most one POST, and the given result.\<close>

lemma after_quota_trigger:
  assumes "\<And>r s'. r = Ret x \<or> (\<exists>msg. r = Panic msg) \<Longrightarrow>
      trace s' = trace s \<or> (\<exists>rq'. trace s' = trace s @ [Posted (endpoint E) (ObjRQ rq')]) \<Longrightarrow> Q r s'"
  shows "wp (TriggerScaleUpResourceQuota E ns) s
    (\<lambda>r s'. case r of Ret v \<Rightarrow> wp (State_Monad.return (Ret x)) s' Q | Panic msg \<Rightarrow> Q (Panic msg) s')"
  unfolding wp_return by (rule TriggerScaleUpResourceQuota_wp) (auto intro: assms split: go.split)

lemma after_node_trigger:
  assumes "\<And>r s'. r = Ret x \<or> (\<exists>msg. r = Panic msg) \<Longrightarrow> trace s' = trace s \<or>
      (\<exists>nsq now. trace s' = trace s @ [Posted (endpoint E) (ObjNSQ (stamp now nsq))]) \<Longrightarrow> Q r s'"
  shows "wp (TriggerScaleUpForCluster E ns) s
    (\<lambda>r s'. case r of Ret v \<Rightarrow> wp (State_Monad.return (Ret x)) s' Q | Panic msg \<Rightarrow> Q (Panic msg) s')"
  unfolding wp_return by (rule TriggerScaleUpForCluster_wp) (auto intro!: assms, blast)

lemma sum_containers:
  "foldl (add_request Q) t cs = \<lparr>
     podCPU = foldl (\<lambda>s c. add64 s (MilliValue Q (rl_Cpu Q (Requests c)))) (podCPU t) cs,
     podMem = foldl (\<lambda>s c. add64 s (Value Q (rl_Memory Q (Requests c)))) (podMem t) cs,
     podGPU = foldl (\<lambda>s c. case Requests c ''nvidia.com/gpu'' of
        Some gpu \<Rightarrow> add64 s (Value Q gpu) | None \<Rightarrow> s) (podGPU t) cs\<rparr>"
  by (induction cs arbitrary: t) (simp_all add: add_request_def)

lemma sum_requests_concat:
  "sum_requests Q pods = foldl (add_request Q) \<lparr>podCPU = 0, podMem = 0, podGPU = 0\<rparr>
     (concat (map all_containers pods))"
proof -
  have "foldl (\<lambda>t p. foldl (add_request Q) t (InitContainers p @ Containers p)) t pods =
      foldl (add_request Q) t (concat (map all_containers pods))" for t
    by (induction pods arbitrary: t) (simp_all add: all_containers_def)
  then show ?thesis by (simp add: sum_requests_def)
qed

lemma gpu_fold:
  "in64 a \<Longrightarrow> foldl (\<lambda>s c. case Requests c ''nvidia.com/gpu'' of
      Some gpu \<Rightarrow> add64 s (Value Q gpu) | None \<Rightarrow> s) a cs =
    foldl (\<lambda>s c. add64 s (gpu_request Q c)) a cs"
proof (induction cs arbitrary: a)
  case (Cons c cs)
  have "(case Requests c ''nvidia.com/gpu'' of Some gpu \<Rightarrow> add64 a (Value Q gpu) | None \<Rightarrow> a) =
      add64 a (gpu_request Q c)"
    using Cons.prems by (simp add: gpu_request_def add64_def split: option.split)
  then show ?case using Cons.IH[of "add64 a (gpu_request Q c)"] by simp
qed simp


text \<open>
  The two branches behind a readable quota: what they may add to the trace and when, and
  the results they give.
\<close>

definition quota_too_small :: "('e, 'q, 'y) ext_scheme \<Rightarrow> string \<Rightarrow> bool" where
  "quota_too_small E ns \<longleftrightarrow> (\<exists>nodes allpods pods e1 e2 e3.
     fst (ListNodes E e1) = Inr nodes \<and> fst (ListPods E None e2) = Inr allpods \<and>
     fst (ListPods E (Some ns) e3) = Inr pods \<and>
     \<not> fits (sum_requests E pods) (cluster_free_of E nodes allpods))"

definition settled :: "(ctrl_result \<times> err option) go \<Rightarrow> bool" where
  "settled r \<longleftrightarrow> r = Ret (no_requeue, None) \<or> r = Ret (\<lparr>RequeueAfter = 20 * second\<rparr>, None) \<or>
     (\<exists>msg. r = Panic msg)"

lemma handle_denied_wp:
  assumes "\<And>r s'. settled r \<Longrightarrow> trace s' = trace s \<or>
      (quota_too_small E (Namespace (rq_Meta rq)) \<and>
       (\<exists>rq'. trace s' = trace s @ [Posted (endpoint E) (ObjRQ rq')])) \<Longrightarrow> Q r s'"
  shows "wp (handle_denied E rq) s Q"
  unfolding handle_denied_def computeClusterFree_def listPodsInNamespace_def
  by (auto simp: wp_simps split: sum.split intro!: assms after_quota_trigger)
     (auto simp: quota_too_small_def settled_def)

lemma handle_not_denied_wp:
  assumes "\<And>r s'. settled r \<Longrightarrow> trace s' = trace s \<or>
      (\<exists>nsq now. trace s' = trace s @ [Posted (endpoint E) (ObjNSQ (stamp now nsq))]) \<Longrightarrow> Q r s'"
  shows "wp (handle_not_denied E ns) s Q"
  unfolding handle_not_denied_def wp_go_bind
proof (rule detectWorkloadShortage_wp, goal_cases)
  case (1 r e)
  show ?case
    by (cases r) (auto simp: wp_simps settled_def intro!: assms after_node_trigger, blast+)
qed

section \<open>Properties\<close>



text \<open>
  A denied quota and a failing node list crash the reconciler: when the quota's status
  is exhausted and the nodes cannot be listed, Reconcile dereferences the nil result whose
  error it dropped.
\<close>

theorem denied_without_nodes_panics:
  assumes "Getenv E ''SERVER_TYPE'' \<noteq> ''MGMT''"
    and "GetNSQ E reqNs reqName (env s) = (Inr nsq, e1)"
    and "GetRQ E (aqr_Namespace (AppliedQuotaRef (nsq_Spec nsq)))
      (aqr_Name (AppliedQuotaRef (nsq_Spec nsq))) e1 = (Inr rq, e2)"
    and "status_exhausted E rq" and "fst (ListNodes E e2) = Inl err"
  shows "\<exists>msg. fst (run_state (Reconcile E reqNs reqName) s) = Panic msg"
proof -
  have "wp (Reconcile E reqNs reqName) s (\<lambda>r _. \<exists>msg. r = Panic msg)"
    using assms
    by (simp add: Reconcile_def DetectQuotaExceeded_def handle_denied_def computeClusterFree_def wp_simps)
  then show ?thesis by (simp add: wp_run)
qed

definition full_quota :: "int resource_quota" where
  "full_quota = example_quota\<lparr>StatusHard := [''cpu'' \<mapsto> 1000000000],
     StatusUsed := [''cpu'' \<mapsto> 1000000000]\<rparr>"

theorem denied_without_nodes_panics_witness:
  "\<exists>msg. fst (run_state (Reconcile (sample_ext (\<lambda>_. [])
       \<lparr>GetNSQ := \<lambda>_ _ e. (Inr example_nsq, e), GetRQ := \<lambda>_ _ e. (Inr full_quota, e),
        ListNodes := \<lambda>e. (Inl (ApiError ''timeout''), e)\<rparr>) ''ns'' ''nsq'')
     \<lparr>env = example_env, trace = [], lastScale = Some Map.empty\<rparr>) = Panic msg"
  by (rule denied_without_nodes_panics[where nsq = example_nsq and rq = full_quota])
     (auto simp: full_quota_def status_exhausted_def ceil_div_def)

text \<open>
  What Reconcile compares with the nodes: the wrapped int64 sums, over all containers
  and init containers of all pods in the list, whatever their phase, of the requested
  CPU, memory and GPU. The pods fit only if the whole namespace fits the largest free
  amounts of single nodes.
\<close>

theorem fits_means_all_pods:
  "fits (sum_requests Q pods) free \<longleftrightarrow>
     (let cs = concat (map all_containers pods)
      in wrap64 (\<Sum>c\<leftarrow>cs. MilliValue Q (rl_Cpu Q (Requests c))) \<le> MaxNodeCPU free \<and>
         wrap64 (\<Sum>c\<leftarrow>cs. Value Q (rl_Memory Q (Requests c))) \<le> MaxNodeMem free \<and>
         wrap64 (\<Sum>c\<leftarrow>cs. gpu_request Q c) \<le> MaxNodeGPU free)"
proof -
  have z: "in64 0" by (simp add: in64_def)
  show ?thesis
    by (simp add: fits_def sum_requests_concat sum_containers gpu_fold[OF z] foldl_add64[OF z] Let_def)
qed

definition node_amounts :: cluster_free where
  "node_amounts = \<lparr>ClusterCPU = 2500, ClusterMem = 17, ClusterGPU = 0,
     MaxNodeCPU = 2500, MaxNodeMem = 9, MaxNodeGPU = 0\<rparr>"

lemma example_sum [simp]:
  "sum_requests (sample_ext g) (map snd example_pods) = \<lparr>podCPU = 3000, podMem = 0, podGPU = 0\<rparr>"
  "list_all (\<lambda>p. sum_requests (sample_ext g) [p] = \<lparr>podCPU = 1500, podMem = 0, podGPU = 0\<rparr>)
     (map snd example_pods)"
  by (simp_all add: sum_requests_def example_pods_def add_request_def add64_def wrap64_def ceil_div_def)

lemma example_free:
  "cluster_free_of (sample_ext g) [node_w1, node_w2, node_cp] (map snd example_pods) = node_amounts"
proof -
  let ?ns = "[node_w1, node_w2, node_cp]"
  have "mset (range_order (sample_ext g) ks) = mset ks" for ks by simp
  moreover have "distinct (map node_Name ?ns)" by simp
  moreover have "n \<in> set ?ns \<Longrightarrow> node_Name n \<noteq> []" for n by auto
  ultimately have "cluster_free_of (sample_ext g) ?ns (map snd example_pods) =
     \<lparr>ClusterCPU = wrap64 (\<Sum>n\<leftarrow>filter eligible ?ns. spec_cpu (sample_ext g) (map snd example_pods) n),
      ClusterMem = wrap64 (\<Sum>n\<leftarrow>filter eligible ?ns. spec_mem (sample_ext g) (map snd example_pods) n),
      ClusterGPU = wrap64 (\<Sum>n\<leftarrow>filter eligible ?ns. spec_gpu (sample_ext g) (map snd example_pods) n),
      MaxNodeCPU = Max (insert 0 (spec_cpu (sample_ext g) (map snd example_pods) ` set (filter eligible ?ns))),
      MaxNodeMem = Max (insert 0 (spec_mem (sample_ext g) (map snd example_pods) ` set (filter eligible ?ns))),
      MaxNodeGPU = Max (insert 0 (spec_gpu (sample_ext g) (map snd example_pods) ` set (filter eligible ?ns)))\<rparr>"
    by (rule cluster_free_of_spec)
  then show ?thesis by (simp add: node_amounts_def in64_def)
qed

definition full_world :: "(sample_env, int) rec_world" where
  "full_world = \<lparr>env = example_env\<lparr>se_nsqs := [example_nsq], se_rqs := [full_quota]\<rparr>,
     trace = [], lastScale = Some Map.empty\<rparr>"

lemma full_trigger:
  "\<exists>rq'. wp (TriggerScaleUpResourceQuota (sample_ext api_set) ''ns'') full_world
     (\<lambda>r s'. r = Ret None \<and> trace s' = [Posted (endpoint (sample_ext api_set)) (ObjRQ rq')])"
  by (simp add: wp_run full_world_def full_quota_def example_env_def TriggerScaleUpResourceQuota_def
      go_bind_def run_allowScale limiter_Some fetch_only_rq_def fetch_only_nsq_def ask_def emit_def
      only_item_def in_ns_def named_def found_def example_quota_def raise_hard_def map_index_def
      set_hard_def post_to_endpoint_def postYAML_def api_set_def sample_parse_def example_nsq_def)

lemma full_reads:
  "GetNSQ (sample_ext api_set) ''ns'' ''nsq'' (env full_world) = (Inr example_nsq, env full_world)"
  "GetRQ (sample_ext api_set) ''ns'' ''rq'' (env full_world) = (Inr full_quota, env full_world)"
  "ListNodes (sample_ext api_set) (env full_world) = (Inr [node_w1, node_w2, node_cp], env full_world)"
  "ListPods (sample_ext api_set) None (env full_world) = (Inr (map snd example_pods), env full_world)"
  "ListPods (sample_ext api_set) (Some ''ns'') (env full_world) = (Inr (map snd example_pods), env full_world)"
  "AppliedQuotaRef (nsq_Spec example_nsq) = \<lparr>aqr_Namespace = ''ns'', aqr_Name = ''rq''\<rparr>"
  "Namespace (rq_Meta full_quota) = ''ns''"
  "full_world\<lparr>env := env full_world\<rparr> = full_world"
  by (simp_all add: full_world_def full_quota_def example_env_def example_nsq_def example_quota_def
      example_pods_def found_def named_def)

lemma full_denied: "DetectQuotaExceeded (sample_ext api_set) full_quota = State_Monad.return (True, None)"
  by (simp add: DetectQuotaExceeded_def status_exhausted_def full_quota_def ceil_div_def)

lemma full_unfit: "\<not> fits (sum_requests (sample_ext api_set) (map snd example_pods)) node_amounts"
  by (simp add: fits_def node_amounts_def)

text \<open>
  So a namespace whose every pod would fit a node by itself can be found not to fit:
  with two pods of 1.5 cores in the namespace and 2.5 cores free on a worker, each pod
  fits alone, and Reconcile goes on to ask for a larger quota.
\<close>

theorem sum_hides_schedulable_pods:
  "cluster_free_of (sample_ext api_set) (se_nodes (env full_world)) (map snd example_pods) = node_amounts \<and>
   list_all (\<lambda>p. fits (sum_requests (sample_ext api_set) [p]) node_amounts) (map snd example_pods) \<and>
   (\<exists>rq'. wp (Reconcile (sample_ext api_set) ''ns'' ''nsq'') full_world
      (\<lambda>r s'. r = Ret (no_requeue, None) \<and>
         trace s' = [Posted (endpoint (sample_ext api_set)) (ObjRQ rq')]))"
  (is "?free \<and> ?single \<and> ?posts")
proof (intro conjI)
  have nodes: "se_nodes (env full_world) = [node_w1, node_w2, node_cp]"
    by (simp add: full_world_def example_env_def)
  show ?free unfolding nodes by (rule example_free)
  show ?single
    using example_sum(2)[of api_set] by (auto simp: list_all_iff fits_def node_amounts_def)
  obtain rq' where rq': "wp (TriggerScaleUpResourceQuota (sample_ext api_set) ''ns'') full_world
     (\<lambda>r s'. r = Ret None \<and> trace s' = [Posted (endpoint (sample_ext api_set)) (ObjRQ rq')])"
    using full_trigger by blast
  have "Getenv (sample_ext api_set) ''SERVER_TYPE'' = []" by (simp add: api_set_def)
  then have "wp (Reconcile (sample_ext api_set) ''ns'' ''nsq'') full_world
      (\<lambda>r s'. r = Ret (no_requeue, None) \<and> trace s' = [Posted (endpoint (sample_ext api_set)) (ObjRQ rq')])"
    using rq' full_unfit
    by (simp add: Reconcile_def handle_denied_def computeClusterFree_def listPodsInNamespace_def
        full_reads full_denied example_free wp_simps del: sample_ext_calls sample_ext_sel)
       (auto elim!: wp_conseq simp: wp_simps)
  then show ?posts by blast
qed

definition woken :: "('e, 'q, 'y) ext_scheme \<Rightarrow> string \<Rightarrow> (applied_quota_ref \<Rightarrow> bool) \<Rightarrow> 'e \<Rightarrow> (string \<times> string) set" where
  "woken E ns P e = (\<lambda>nsq. (Namespace (nsq_Meta nsq), Name (nsq_Meta nsq))) `
     {nsq \<in> set (answer (fst (ListNSQ E ns e))). P (AppliedQuotaRef (nsq_Spec nsq))}"

lemma requests_for_woken:
  "wp (requests_for E ns (\<lambda>nsq. P (AppliedQuotaRef (nsq_Spec nsq)))) s
     (\<lambda>r s'. trace s' = trace s \<and> set r = woken E ns P (env s))"
  by (cases "fst (ListNSQ E ns (env s))") (auto simp: requests_for_def wp_simps woken_def)

text \<open>
  Watched objects wake the right NamespaceQuotas: of those in the object's namespace,
  a Deployment and a ReplicaSet wake the ones whose quota reference names that namespace,
  a ResourceQuota the ones whose reference names exactly that quota; a node wakes none. A
  failed listing wakes none. The mapping itself changes nothing.
\<close>

theorem watches_wake_exactly:
  fixes s :: "('e, 'q, 'z) world_scheme"
  shows "wp (watchDeploymentToNamespaceQuotas E dep) s (\<lambda>r s'. trace s' = trace s \<and>
      set r = woken E (Namespace (dep_Meta dep)) (\<lambda>q. aqr_Namespace q = Namespace (dep_Meta dep)) (env s)) \<and>
    wp (watchReplicaSetToNamespaceQuotas E rs) s (\<lambda>r s'. trace s' = trace s \<and>
      set r = woken E (Namespace (rs_Meta rs)) (\<lambda>q. aqr_Namespace q = Namespace (rs_Meta rs)) (env s)) \<and>
    wp (watchResourceQuotaToNamespaceQuotas E rq) s (\<lambda>r s'. trace s' = trace s \<and>
      set r = woken E (Namespace (rq_Meta rq))
        (\<lambda>q. q = \<lparr>aqr_Namespace = Namespace (rq_Meta rq), aqr_Name = Name (rq_Meta rq)\<rparr>) (env s)) \<and>
    wp (watchNodesCluster n) s (\<lambda>r s'. r = [] \<and> s' = s)"
proof -
  have same: "(aqr_Name q = nm \<and> aqr_Namespace q = ns) \<longleftrightarrow>
      q = \<lparr>aqr_Namespace = ns, aqr_Name = nm\<rparr>" for q nm ns
    by (cases q) auto
  show ?thesis
    unfolding watchDeploymentToNamespaceQuotas_def watchReplicaSetToNamespaceQuotas_def
      watchResourceQuotaToNamespaceQuotas_def watchNodesCluster_def same
    by (intro conjI requests_for_woken) (simp_all add: wp_simps)
qed

text \<open>
  C32. The event watch: an event that is not a warning, or is one about something else,
  has no effect and wakes nothing. Any other event sends at most one POST to the
  endpoint: a raised quota if its message says "exceeded quota" in any case of letters, a
  NamespaceQuota otherwise, on the management server too.
\<close>

theorem watchEvents_sends:
  "wp (watchEventsCluster E ev) s (\<lambda>r s'.
     if relevant_event ev
     then trace s' = trace s \<or>
       (if Contains (ToLower (ev_Message ev)) ''exceeded quota''
        then \<exists>rq. trace s' = trace s @ [Posted (endpoint E) (ObjRQ rq)]
        else \<exists>nsq now. trace s' = trace s @ [Posted (endpoint E) (ObjNSQ (stamp now nsq))])
     else r = Ret [] \<and> s' = s)"
  unfolding watchEventsCluster_def
  by (auto simp: wp_simps Let_def split: sum.split intro!: after_quota_trigger after_node_trigger, blast+)

end
