(* ===== verification/Controller.thy ===== *)
theory Controller imports Reconciler begin

text \<open>
  The controller as a whole: what SetupWithManager registers, and the running controller
  that calls the watches and Reconcile again and again, in any order and for any objects.
\<close>

section \<open>The set-up\<close>

text \<open>
  An object of a watched kind. The mapping functions take any object and assert its kind,
  which panics for another one; watchNodesCluster does not look at it.
\<close>

datatype kind = KNamespaceQuota | KResourceQuota | KEvent | KNode

datatype 'q watched =
    ANamespaceQuota namespace_quota
  | AResourceQuota "'q resource_quota"
  | AnEvent event
  | ANode "'q node"

fun kind_of :: "'q watched \<Rightarrow> kind" where
  "kind_of (ANamespaceQuota nsq) = KNamespaceQuota"
| "kind_of (AResourceQuota rq) = KResourceQuota"
| "kind_of (AnEvent ev) = KEvent"
| "kind_of (ANode n) = KNode"

type_synonym ('e, 'q) mapping = "'q watched \<Rightarrow> (('e, 'q) rec_world, (string \<times> string) list go) state"

definition returning :: "('s, 'a) state \<Rightarrow> ('s, 'a go) state" where
  "returning m = State_Monad.bind m (\<lambda>x. State_Monad.return (Ret x))"

definition resource_quota_mapping :: "('e, 'q, 'y) ext_scheme \<Rightarrow> ('e, 'q) mapping" where
  "resource_quota_mapping E obj = (case obj of
     AResourceQuota rq \<Rightarrow> returning (watchResourceQuotaToNamespaceQuotas E rq)
   | _ \<Rightarrow> State_Monad.return (Panic ''interface conversion''))"

definition event_mapping :: "('e, 'q, 'y) ext_scheme \<Rightarrow> ('e, 'q) mapping" where
  "event_mapping E obj = (case obj of
     AnEvent ev \<Rightarrow> watchEventsCluster E ev
   | _ \<Rightarrow> State_Monad.return (Panic ''interface conversion''))"

definition node_mapping :: "('e, 'q) mapping" where
  "node_mapping obj = (case obj of
     ANode n \<Rightarrow> returning (watchNodesCluster n)
   | _ \<Rightarrow> State_Monad.return (Ret []))"

text \<open>
  What the manager is given: the kinds with their mappings, and Reconcile. The mapping of
  the kind that For names is the library's; \<open>own\<close> stands for it.
\<close>

record ('e, 'q) registration =
  Named :: string
  Watched :: "(kind \<times> ('e, 'q) mapping) list"
  Reconciles :: "string \<Rightarrow> string \<Rightarrow> (('e, 'q) rec_world, (ctrl_result \<times> err option) go) state"

definition reconciler_setup ::
  "('e, 'q, 'y) ext_scheme \<Rightarrow> ('q watched \<Rightarrow> (string \<times> string) list) \<Rightarrow> ('e, 'q) registration" where
  "reconciler_setup E own = \<lparr>Named = ''namespacequota'',
     Watched = [(KNamespaceQuota, \<lambda>obj. State_Monad.return (Ret (own obj))),
       (KResourceQuota, resource_quota_mapping E), (KEvent, event_mapping E), (KNode, node_mapping)],
     Reconciles = Reconcile E\<rparr>"

definition SetupWithManager ::
  "('e, 'q, 'y) ext_scheme \<Rightarrow> ('q watched \<Rightarrow> (string \<times> string) list) \<Rightarrow>
   (('e, 'q) rec_world, ('e, 'q) registration) state" where
  "SetupWithManager E own = do {
     s \<leftarrow> State_Monad.get;
     State_Monad.set (s\<lparr>lastScale := setup_lastScale (lastScale s)\<rparr>);
     State_Monad.return (reconciler_setup E own)
   }"

section \<open>The running controller\<close>

text \<open>
  The manager calls the mapping of a kind with any object of it, and Reconcile with any
  request; which and when is the library's business. The world changes in between. A
  panic in a mapping ends the process; one in Reconcile is recovered by the library. A
  call is one step here: calls that overlap in time share nothing but the map, which
  allowScale reads and writes under its lock, and the world, which may answer each
  question differently anyway.
\<close>

record ('e, 'q) controller =
  process :: "('e, 'q) rec_world"
  up :: bool

inductive controller_step :: "('e, 'q) registration \<Rightarrow> ('e, 'q) controller \<Rightarrow> ('e, 'q) controller \<Rightarrow> bool" for S where
  delivers: "up c \<Longrightarrow> (kind_of obj, m) \<in> set (Watched S) \<Longrightarrow> run_state (m obj) (process c) = (r, s) \<Longrightarrow>
    controller_step S c \<lparr>process = s, up = (case r of Ret _ \<Rightarrow> True | Panic _ \<Rightarrow> False)\<rparr>"
| reconciles: "up c \<Longrightarrow> run_state (Reconciles S ns nm) (process c) = (r, s) \<Longrightarrow>
    controller_step S c (c\<lparr>process := s\<rparr>)"
| world_changes: "controller_step S c (c\<lparr>process := (process c)\<lparr>env := e\<rparr>\<rparr>)"

inductive_cases controller_stepE: "controller_step S c c'"

text \<open>A new reconciler, set up.\<close>

definition controller_init ::
  "('e, 'q, 'y) ext_scheme \<Rightarrow> ('q watched \<Rightarrow> (string \<times> string) list) \<Rightarrow> 'e \<Rightarrow> ('e, 'q) controller" where
  "controller_init E own e = \<lparr>process = snd (run_state (SetupWithManager E own)
     \<lparr>env = e, trace = [], lastScale = None\<rparr>), up = True\<rparr>"

section \<open>Spending against a potential\<close>

text \<open>
  Steps that spend no more than a potential grows: over any run, what was spent is
  bounded by the growth.
\<close>

locale paying_steps =
  fixes step :: "'c \<Rightarrow> 'c \<Rightarrow> bool"
    and inv :: "'c \<Rightarrow> bool"
    and spent :: "'c \<Rightarrow> int"
    and potential :: "'c \<Rightarrow> int"
  assumes inv_kept: "inv c \<Longrightarrow> step c c' \<Longrightarrow> inv c'"
    and paid: "inv c \<Longrightarrow> step c c' \<Longrightarrow> spent c' - spent c \<le> potential c' - potential c"
begin

lemma run_inv: "step\<^sup>*\<^sup>* c c' \<Longrightarrow> inv c \<Longrightarrow> inv c'"
  by (induction rule: rtranclp_induct) (auto intro: inv_kept)

lemma run_paid: "step\<^sup>*\<^sup>* c c' \<Longrightarrow> inv c \<Longrightarrow> spent c' - spent c \<le> potential c' - potential c"
proof (induction rule: rtranclp_induct)
  case (step d e)
  then show ?case using paid[OF run_inv[OF step(1) step(4)] step(2)] by linarith
qed simp

end

section \<open>What one call does\<close>

text \<open>The clock shows times from a to b, and the API server answers from the namespace it is asked for.\<close>

definition clock_within :: "('e, 'q, 'y) ext_scheme \<Rightarrow> int \<Rightarrow> int \<Rightarrow> bool" where
  "clock_within E a b \<longleftrightarrow> (\<forall>e. a \<le> fst (Now E e) \<and> fst (Now E e) \<le> b)"

definition quotas_in_namespace :: "('e, 'q, 'y) ext_scheme \<Rightarrow> bool" where
  "quotas_in_namespace E \<longleftrightarrow>
     (\<forall>ns e items rq. fst (ListRQ E ns e) = Inr items \<longrightarrow> rq \<in> set items \<longrightarrow> Namespace (rq_Meta rq) = ns) \<and>
     (\<forall>ns nm e rq. fst (GetRQ E ns nm e) = Inr rq \<longrightarrow> Namespace (rq_Meta rq) = ns)"

text \<open>
  A call leaves the map as it is and sends no quota, or it sets one entry to the time,
  which is a minute after the last one if there was one, and may send a quota of that
  namespace.
\<close>

definition sends_at_most :: "('e, 'q, 'y) ext_scheme \<Rightarrow> ('q k8s_obj \<Rightarrow> bool) \<Rightarrow>
  ('e, 'q) rec_world \<Rightarrow> ('e, 'q) rec_world \<Rightarrow> bool" where
  "sends_at_most E P s s' \<longleftrightarrow> trace s' = trace s \<or>
     (\<exists>obj. P obj \<and> trace s' = trace s @ [Posted (endpoint E) obj])"

definition paced :: "('e, 'q, 'y) ext_scheme \<Rightarrow>
  ('e, 'q) rec_world \<Rightarrow> ('e, 'q) rec_world \<Rightarrow> bool" where
  "paced E s s' \<longleftrightarrow>
     (lastScale s' = lastScale s \<and> sends_at_most E (\<lambda>obj. \<exists>nsq. obj = ObjNSQ nsq) s s') \<or>
     (\<exists>f k t. lastScale s = Some f \<and> lastScale s' = Some (f(k \<mapsto> t)) \<and> (\<exists>e. t = fst (Now E e)) \<and>
        (\<forall>u. f k = Some u \<longrightarrow> minute \<le> t - u) \<and>
        sends_at_most E (\<lambda>obj. \<exists>rq. obj = ObjRQ rq \<and> (quotas_in_namespace E \<longrightarrow> Namespace (rq_Meta rq) = k)) s s')"

lemma sends_env [simp]: "sends_at_most E P (s\<lparr>env := e\<rparr>) s' = sends_at_most E P s s'"
  "sends_at_most E P s (s'\<lparr>env := e\<rparr>) = sends_at_most E P s s'"
  by (simp_all add: sends_at_most_def)

lemma paced_env [simp]: "paced E (s\<lparr>env := e\<rparr>) s' = paced E s s'"
  "paced E s (s'\<lparr>env := e\<rparr>) = paced E s s'"
  by (simp_all add: paced_def)

lemma paced_refl [simp, intro]: "paced E s s"
  by (simp add: paced_def sends_at_most_def)

lemma quota_trigger_paced:
  fixes s :: "('e, 'q) rec_world"
  assumes m: "lastScale s \<noteq> None"
  shows "wp (TriggerScaleUpResourceQuota E ns) s (\<lambda>r s'. paced E s s')"
proof -
  obtain f where f: "lastScale s = Some f" using m by blast
  let ?t = "fst (Now E (env s))"
  have sent: "wp (TriggerScaleUpResourceQuota E ns) s (\<lambda>r s'.
      sends_at_most E (\<lambda>obj. \<exists>rq. obj = ObjRQ rq \<and> (quotas_in_namespace E \<longrightarrow> Namespace (rq_Meta rq) = ns)) s s')"
  proof (rule TriggerScaleUpResourceQuota_wp, goal_cases)
    case 1
    then show ?case by (simp add: sends_at_most_def)
  next
    case (2 r n1 rq n2 nsq rq' e1 e2 e3 e4 s')
    from 2(6) have "rq_Meta rq' = rq_Meta rq" by (rule raise_hard_Inr)
    moreover have "Namespace (rq_Meta rq) = ns" if "quotas_in_namespace E"
      using that 2(2,3) unfolding quotas_in_namespace_def by (metis list.set_intros(1))
    ultimately show ?case using 2(7) by (auto simp: sends_at_most_def)
  qed
  show ?thesis
  proof (rule wp_conseq[OF wp_conj[THEN iffD2, OF conjI[OF sent quota_throttle.passes[OF m, of E ns]]]])
    fix r and s' :: "('e, 'q) rec_world"
    assume h: "sends_at_most E (\<lambda>obj. \<exists>rq. obj = ObjRQ rq \<and> (quotas_in_namespace E \<longrightarrow> Namespace (rq_Meta rq) = ns)) s s' \<and>
      lastScale s' = snd (allow_minute ?t ns (lastScale s)) \<and>
      (trace s' \<noteq> trace s \<longrightarrow> fst (allow_minute ?t ns (lastScale s)))"
    show "paced E s s'"
    proof (cases "\<exists>u. f ns = Some u \<and> ?t - u < minute")
      case True
      with h f have "lastScale s' = lastScale s \<and> trace s' = trace s"
        by (auto simp: allow_minute_Some)
      then show ?thesis by (simp add: paced_def sends_at_most_def)
    next
      case False
      with h f have "lastScale s' = Some (f(ns \<mapsto> ?t))" by (simp add: allow_minute_Some)
      moreover have "\<forall>u. f ns = Some u \<longrightarrow> minute \<le> ?t - u" using False by force
      ultimately show ?thesis using h f unfolding paced_def by blast
    qed
  qed
qed

lemma node_trigger_paced:
  fixes s :: "('e, 'q) rec_world"
  shows "wp (TriggerScaleUpForCluster E ns) s (\<lambda>r s'. paced E s s')"
  by (rule TriggerScaleUpForCluster_wp) (auto simp: paced_def sends_at_most_def)

lemma dropped_error:
  "wp m s (\<lambda>r s'. P s') \<Longrightarrow> wp (go_bind m (\<lambda>_. State_Monad.return x)) s (\<lambda>r s'. P s')"
  unfolding wp_go_bind by (erule wp_conseq) (simp add: wp_simps split: go.split)

lemma handle_denied_paced:
  fixes s :: "('e, 'q) rec_world"
  assumes "lastScale s \<noteq> None"
  shows "wp (handle_denied E rq) s (\<lambda>r s'. paced E s s')"
proof -
  have "wp (go_bind (TriggerScaleUpResourceQuota E ns) (\<lambda>_. State_Monad.return x)) (s\<lparr>env := e\<rparr>)
      (\<lambda>r s'. paced E s s')" for ns e and x :: "(ctrl_result \<times> err option) go"
    using dropped_error[OF quota_trigger_paced[of "s\<lparr>env := e\<rparr>" E ns]] assms by simp
  then show ?thesis
    unfolding handle_denied_def computeClusterFree_def listPodsInNamespace_def
    by (auto simp: wp_bind wp_return wp_ask split: sum.split)
qed

lemma handle_not_denied_paced:
  fixes s :: "('e, 'q) rec_world"
  shows "wp (handle_not_denied E ns) s (\<lambda>r s'. paced E s s')"
proof -
  have "wp (go_bind (TriggerScaleUpForCluster E ns) (\<lambda>_. State_Monad.return x)) (s\<lparr>env := e\<rparr>)
      (\<lambda>r s'. paced E s s')" for e and x :: "(ctrl_result \<times> err option) go"
    using dropped_error[OF node_trigger_paced[of E ns "s\<lparr>env := e\<rparr>"]] by simp
  then show ?thesis
    unfolding handle_not_denied_def
    by (subst wp_go_bind, intro detectWorkloadShortage_wp) (auto simp: wp_return split: go.split)
qed

lemma Reconcile_paced:
  fixes s :: "('e, 'q) rec_world"
  assumes "lastScale s \<noteq> None"
  shows "wp (Reconcile E ns nm) s (\<lambda>r s'. paced E s s')"
proof -
  have "wp (handle_denied E rq) (s\<lparr>env := e\<rparr>) (\<lambda>r s'. paced E s s')"
    "wp (handle_not_denied E ns) (s\<lparr>env := e\<rparr>) (\<lambda>r s'. paced E s s')" for rq e
    using handle_denied_paced[of "s\<lparr>env := e\<rparr>" E rq] handle_not_denied_paced[of E ns "s\<lparr>env := e\<rparr>"]
      assms by simp_all
  then show ?thesis
    unfolding Reconcile_def
    by (auto simp: wp_simps split: sum.split api_error.split intro!: DetectQuotaExceeded_wp)
qed

lemma events_paced:
  fixes s :: "('e, 'q) rec_world"
  assumes "lastScale s \<noteq> None"
  shows "wp (watchEventsCluster E ev) s (\<lambda>r s'. paced E s s')"
proof -
  have "wp (go_bind (TriggerScaleUpResourceQuota E ns) (\<lambda>_. State_Monad.return x)) (s\<lparr>env := e\<rparr>)
      (\<lambda>r s'. paced E s s')"
    "wp (go_bind (TriggerScaleUpForCluster E ns) (\<lambda>_. State_Monad.return x)) (s\<lparr>env := e\<rparr>)
      (\<lambda>r s'. paced E s s')" for ns e and x :: "(string \<times> string) list go"
    using dropped_error[OF quota_trigger_paced[of "s\<lparr>env := e\<rparr>" E ns]]
      dropped_error[OF node_trigger_paced[of E ns "s\<lparr>env := e\<rparr>"]] assms by simp_all
  then show ?thesis
    unfolding watchEventsCluster_def Let_def
    by (auto simp: wp_bind wp_return wp_ask split: sum.split)
qed

text \<open>The registered mappings: each of its own kind.\<close>

lemma mapping_paced:
  fixes s :: "('e, 'q) rec_world"
  assumes "(k, m) \<in> set (Watched (reconciler_setup E own))"
    and "lastScale s \<noteq> None"
  shows "wp (m obj) s (\<lambda>r s'. paced E s s')"
  using assms(1) events_paced[OF assms(2)]
  by (auto simp: reconciler_setup_def resource_quota_mapping_def event_mapping_def node_mapping_def
      returning_def watchResourceQuotaToNamespaceQuotas_def watchNodesCluster_def requests_for_def
      wp_bind wp_return wp_ask split: watched.split)

section \<open>The potential\<close>

definition quota_posts :: "string \<Rightarrow> 'q action list \<Rightarrow> nat" where
  "quota_posts ns as = length (filter (\<lambda>a. case a of
     Posted _ (ObjRQ rq) \<Rightarrow> Namespace (rq_Meta rq) = ns | _ \<Rightarrow> False) as)"

definition credit :: "int \<Rightarrow> (string, int) gomap \<Rightarrow> string \<Rightarrow> int" where
  "credit a m ns = (case mget m ns of None \<Rightarrow> 0 | Some t \<Rightarrow> minute + t - a)"

definition controller_inv :: "('e, 'q, 'y) ext_scheme \<Rightarrow> ('e, 'q) controller \<Rightarrow> bool" where
  "controller_inv E c \<longleftrightarrow> set (trace (process c)) \<subseteq> range (Posted (endpoint E)) \<and>
     (\<exists>f. lastScale (process c) = Some f \<and> (\<forall>ns t. f ns = Some t \<longrightarrow> (\<exists>e. t = fst (Now E e))))"

lemma step_paced:
  assumes "controller_inv E c" and "controller_step (reconciler_setup E own) c c'"
  shows "paced E (process c) (process c')"
proof -
  have ok: "lastScale (process c) \<noteq> None"
    using assms(1) by (auto simp: controller_inv_def)
  from assms(2) show ?thesis
  proof (rule controller_stepE, goal_cases)
    case (1 obj m r s)
    then show ?case using mapping_paced[OF 1(3) ok, of obj] by (simp add: wp_run)
  next
    case (2 ns nm r s)
    then show ?case using Reconcile_paced[OF ok, of E ns nm] by (simp add: wp_run reconciler_setup_def)
  next
    case (3 e)
    then show ?case by simp
  qed
qed

lemma paced_inv:
  assumes "controller_inv E c" and "paced E (process c) (process c')"
  shows "controller_inv E c'"
  using assms by (auto simp: controller_inv_def paced_def sends_at_most_def)

lemma controller_inv_init: "controller_inv E (controller_init E own e)"
  by (simp add: controller_inv_def controller_init_def SetupWithManager_def setup_lastScale_def)

lemma controller_inv_reachable:
  "(controller_step (reconciler_setup E own))\<^sup>*\<^sup>* (controller_init E own e) c \<Longrightarrow> controller_inv E c"
  by (induction rule: rtranclp_induct) (auto intro: controller_inv_init paced_inv step_paced)

lemma posts_sent:
  assumes "sends_at_most E P s s'"
  shows "int (quota_posts ns (trace s')) - int (quota_posts ns (trace s)) \<le>
    (if \<exists>rq. P (ObjRQ rq) \<and> Namespace (rq_Meta rq) = ns then 1 else 0)"
  using assms by (auto simp: sends_at_most_def quota_posts_def split: k8s_obj.split)

lemma paced_pays:
  assumes "paced E s s'" and "quotas_in_namespace E" and "clock_within E a b"
  shows "(int (quota_posts ns (trace s')) - int (quota_posts ns (trace s))) * minute
       \<le> credit a (lastScale s') ns - credit a (lastScale s) ns"
  using assms(1) unfolding paced_def
proof (elim disjE exE conjE)
  assume "lastScale s' = lastScale s" and "sends_at_most E (\<lambda>obj. \<exists>nsq. obj = ObjNSQ nsq) s s'"
  then show ?thesis using posts_sent[of E _ s s' ns] minute_pos by (fastforce simp: mult_le_0_iff)
next
  fix f k t e
  assume f: "lastScale s = Some f" "lastScale s' = Some (f(k \<mapsto> t))" and t: "t = fst (Now E e)" "\<forall>u. f k = Some u \<longrightarrow> minute \<le> t - u"
    and sent: "sends_at_most E (\<lambda>obj. \<exists>rq. obj = ObjRQ rq \<and> (quotas_in_namespace E \<longrightarrow> Namespace (rq_Meta rq) = k)) s s'"
  have a: "a \<le> t" using assms(3) t(1) by (simp add: clock_within_def)
  let ?n = "int (quota_posts ns (trace s')) - int (quota_posts ns (trace s))"
  show ?thesis
  proof (cases "k = ns")
    case True
    have "?n \<le> 1" using posts_sent[OF sent, of ns] by (simp split: if_splits)
    then have "?n * minute \<le> 1 * minute" using minute_pos by (intro mult_right_mono) simp_all
    moreover have "minute \<le> credit a (lastScale s') ns - credit a (lastScale s) ns"
      using f t(2) a True by (auto simp: credit_def split: option.split)
    ultimately show ?thesis by simp
  next
    case False
    have "?n \<le> 0" using posts_sent[OF sent, of ns] False assms(2) by (simp split: if_splits)
    then have "?n * minute \<le> 0" using minute_pos by (simp add: mult_le_0_iff)
    then show ?thesis using f False by (simp add: credit_def)
  qed
qed

interpretation controller_pays: paying_steps "controller_step (reconciler_setup E own)"
  "\<lambda>c. controller_inv E c \<and> quotas_in_namespace E \<and> clock_within E a b"
  "\<lambda>c. int (quota_posts ns (trace (process c))) * minute" "\<lambda>c. credit a (lastScale (process c)) ns"
  for E :: "('e, 'q, 'y) ext_scheme" and own a b ns
proof unfold_locales
  fix c c' :: "('e, 'q) controller"
  assume inv: "controller_inv E c \<and> quotas_in_namespace E \<and> clock_within E a b"
    and step: "controller_step (reconciler_setup E own) c c'"
  note p = step_paced[OF conjunct1[OF inv] step]
  show "controller_inv E c' \<and> quotas_in_namespace E \<and> clock_within E a b"
    using paced_inv[OF _ p] inv by simp
  show "int (quota_posts ns (trace (process c'))) * minute - int (quota_posts ns (trace (process c))) * minute
      \<le> credit a (lastScale (process c')) ns - credit a (lastScale (process c)) ns"
    using paced_pays[OF p, of a b ns] inv by (simp add: algebra_simps)
qed

section \<open>Panics\<close>

text \<open>The one way in which a mapping of its own kind of object panics: a quota without hard limits.\<close>

definition limits_present :: "('e, 'q, 'y) ext_scheme \<Rightarrow> bool" where
  "limits_present E \<longleftrightarrow> (\<forall>ns nm e rq. fst (GetRQ E ns nm e) = Inr rq \<longrightarrow> SpecHard rq \<noteq> None)"

lemma raise_hard_returns: "SpecHard rq \<noteq> None \<Longrightarrow> \<exists>v. raise_hard Q st rq = Ret v"
  by (auto simp: raise_hard_def set_hard_def Let_def split: sum.split)

lemma quota_trigger_returns:
  assumes "lastScale s \<noteq> None" and "limits_present E"
  shows "wp (TriggerScaleUpResourceQuota E ns) s (\<lambda>r s'. \<exists>v. r = Ret v)"
  unfolding TriggerScaleUpResourceQuota_def wp_go_bind
proof (rule allowScale_wp, goal_cases)
  case (1 now s' m r)
  have "\<exists>v. raise_hard E st rq = Ret v" if "fst (GetRQ E ns nm e) = Inr rq" for st rq ns nm e
    using that assms(2) by (intro raise_hard_returns) (auto simp: limits_present_def)
  with 1(1) assms(1) show ?case
    by (auto simp: limiter_allow_minute wp_simps intro!: fetch_only_rq_wp fetch_only_nsq_wp post_to_endpoint_wp
        split: go.split sum.split) (metis go.distinct(1))
qed

lemma node_trigger_returns: "wp (TriggerScaleUpForCluster E ns) s (\<lambda>r s'. \<exists>v. r = Ret v)"
  by (rule TriggerScaleUpForCluster_wp) auto

lemma then_returns:
  "wp m s (\<lambda>r s'. \<exists>v. r = Ret v) \<Longrightarrow> wp (go_bind m (\<lambda>_. State_Monad.return (Ret x))) s (\<lambda>r s'. \<exists>v. r = Ret v)"
  unfolding wp_go_bind by (erule wp_conseq) (auto simp: wp_simps)

lemma events_return:
  assumes "lastScale s \<noteq> None" and "limits_present E"
  shows "wp (watchEventsCluster E ev) s (\<lambda>r s'. \<exists>v. r = Ret v)"
proof -
  have "wp (go_bind (TriggerScaleUpResourceQuota E ns) (\<lambda>_. State_Monad.return (Ret x))) (s\<lparr>env := e\<rparr>)
      (\<lambda>r s'. \<exists>v. r = Ret v)"
    "wp (go_bind (TriggerScaleUpForCluster E ns) (\<lambda>_. State_Monad.return (Ret x))) (s\<lparr>env := e\<rparr>)
      (\<lambda>r s'. \<exists>v. r = Ret v)" for ns e and x :: "(string \<times> string) list"
    using assms by (intro then_returns quota_trigger_returns node_trigger_returns; simp)+
  then show ?thesis
    unfolding watchEventsCluster_def Let_def
    by (auto simp: wp_bind wp_return wp_ask split: sum.split)
qed

lemma mapping_returns:
  assumes "(kind_of obj, m) \<in> set (Watched (reconciler_setup E own))"
    and "lastScale s \<noteq> None" and "limits_present E"
  shows "wp (m obj) s (\<lambda>r s'. \<exists>v. r = Ret v)"
  using assms(1) events_return[OF assms(2,3)]
  by (cases obj) (auto simp: reconciler_setup_def resource_quota_mapping_def event_mapping_def node_mapping_def
      returning_def watchResourceQuotaToNamespaceQuotas_def watchNodesCluster_def requests_for_def
      wp_bind wp_return wp_ask)

lemma step_stays_up:
  assumes "controller_inv E c" and "up c" and "limits_present E"
    and "controller_step (reconciler_setup E own) c c'"
  shows "up c'"
  using assms(4)
proof (rule controller_stepE, goal_cases)
  case (1 obj m r s)
  have "lastScale (process c) \<noteq> None" using assms(1) by (auto simp: controller_inv_def)
  with 1 show ?case using mapping_returns[OF 1(3) _ assms(3)] by (fastforce simp: wp_run)
qed (use assms(2) in simp_all)

section \<open>Properties\<close>

text \<open>
  C13. The throttle of the whole controller: whatever objects and requests a reconciler that
  was set up is given, in any order and however the cluster answers, the quotas it has
  POSTed for one namespace are at most one more than the minutes it has been running; and
  POSTs to the endpoint are all it ever sends out.
\<close>

theorem controller_throttled:
  assumes "(controller_step (reconciler_setup E own))\<^sup>*\<^sup>* (controller_init E own e) c"
    and "quotas_in_namespace E" and "clock_within E a b"
  shows "(int (quota_posts ns (trace (process c))) - 1) * minute \<le> b - a \<and>
    set (trace (process c)) \<subseteq> range (Posted (endpoint E))"
proof -
  note inv = controller_inv_reachable[OF assms(1)]
  have ab: "a \<le> b" using assms(3) by (auto simp: clock_within_def intro: order_trans)
  have init: "int (quota_posts ns (trace (process (controller_init E own e)))) * minute = 0"
    "credit a (lastScale (process (controller_init E own e))) ns = 0"
    by (simp_all add: controller_init_def SetupWithManager_def setup_lastScale_def quota_posts_def credit_def)
  have "int (quota_posts ns (trace (process c))) * minute \<le> credit a (lastScale (process c)) ns"
    using controller_pays.run_paid[OF assms(1), of a b ns] controller_inv_init[of E own e] assms(2,3) init by simp
  also have "\<dots> \<le> minute + (b - a)"
    using inv assms(3) ab minute_pos
    by (fastforce simp: controller_inv_def credit_def clock_within_def split: option.split)
  finally show ?thesis using inv by (simp add: controller_inv_def algebra_simps)
qed

text \<open>A clock that stands, a ResourceQuota that is always there, and an event about it.\<close>

definition still_ext :: "int resource_quota \<Rightarrow> (sample_env, int) ext" where
  "still_ext rq = sample_ext api_set\<lparr>Now := \<lambda>e. (0, e),
     ListRQ := \<lambda>ns e. (Inr (filter (\<lambda>x. in_ns ns (rq_Meta x)) [rq]), e),
     GetRQ := \<lambda>ns nm e. (found (find (\<lambda>x. named ns nm (rq_Meta x)) [rq]), e)\<rparr>"

definition denial :: "int watched" where
  "denial = AnEvent \<lparr>ev_Type = ''Warning'', ev_Reason = ''FailedCreate'', ev_Message = ''exceeded quota'',
     LastTimestamp = 0, InvolvedKind = ''ReplicaSet'', InvolvedName = ''rs'', InvolvedNamespace = ''ns''\<rparr>"

abbreviation still_world :: "sample_env" where
  "still_world \<equiv> example_env\<lparr>se_nsqs := [example_nsq]\<rparr>"

definition after_denial :: "int resource_quota \<Rightarrow> (sample_env, int) controller" where
  "after_denial rq = (let (r, s) = run_state (event_mapping (still_ext rq) denial)
       (process (controller_init (still_ext rq) (\<lambda>_. []) still_world))
     in \<lparr>process = s, up = (case r of Ret _ \<Rightarrow> True | Panic _ \<Rightarrow> False)\<rparr>)"

lemma after_denial_reachable:
  "(controller_step (reconciler_setup (still_ext rq) (\<lambda>_. [])))\<^sup>*\<^sup>*
     (controller_init (still_ext rq) (\<lambda>_. []) still_world) (after_denial rq)"
proof -
  let ?c = "controller_init (still_ext rq) (\<lambda>_. []) still_world"
  obtain r s where r: "run_state (event_mapping (still_ext rq) denial) (process ?c) = (r, s)" by fastforce
  have "up ?c" by (simp add: controller_init_def)
  moreover have "(kind_of denial, event_mapping (still_ext rq)) \<in>
      set (Watched (reconciler_setup (still_ext rq) (\<lambda>_. [])))"
    by (simp add: reconciler_setup_def denial_def)
  ultimately have "controller_step (reconciler_setup (still_ext rq) (\<lambda>_. [])) ?c (after_denial rq)"
    using controller_step.delivers[of ?c denial "event_mapping (still_ext rq)"] r by (simp add: after_denial_def)
  then show ?thesis by blast
qed

lemma still_laws:
  "clock_within (still_ext rq) 0 0" "quotas_in_namespace (still_ext rq)"
  "SpecHard rq \<noteq> None \<Longrightarrow> limits_present (still_ext rq)"
  by (auto simp: still_ext_def clock_within_def quotas_in_namespace_def limits_present_def found_def
      in_ns_def named_def split: option.splits if_splits)

lemma denial_relevant:
  "relevant_event \<lparr>ev_Type = ''Warning'', ev_Reason = ''FailedCreate'', ev_Message = ''exceeded quota'',
     LastTimestamp = 0, InvolvedKind = ''ReplicaSet'', InvolvedName = ''rs'', InvolvedNamespace = ''ns''\<rparr>"
  "Contains (ToLower ''exceeded quota'') ''exceeded quota''"
  by (simp add: relevant_event_def) code_simp

lemmas still_run = after_denial_def event_mapping_def denial_def watchEventsCluster_def denial_relevant
  controller_init_def SetupWithManager_def setup_lastScale_def TriggerScaleUpResourceQuota_def go_bind_def
  run_allowScale limiter_Some fetch_only_rq_def fetch_only_nsq_def ask_def emit_def only_item_def in_ns_def
  named_def found_def raise_hard_def map_index_def set_hard_def post_to_endpoint_def postYAML_def api_set_def
  sample_parse_def example_nsq_def example_quota_def example_env_def still_ext_def

lemma denial_posts: "quota_posts ''ns'' (trace (process (after_denial example_quota))) = 1"
  by (simp add: still_run quota_posts_def)

theorem controller_throttled_witness:
  "quota_posts ''ns'' (trace (process (after_denial example_quota))) = 1 \<and>
   (int (quota_posts ''ns'' (trace (process (after_denial example_quota)))) - 1) * minute \<le> 0"
  using controller_throttled[OF after_denial_reachable[of example_quota] still_laws(2,1), where ns = "''ns''"] denial_posts by simp

text \<open>
  C16. No watch crashes the operator: while every ResourceQuota the API server hands out has
  hard limits, a reconciler that was set up is never ended by a panic in a mapping, not by
  the nil map it started with, nor by an object of the wrong kind.
\<close>

theorem controller_stays_up:
  assumes "(controller_step (reconciler_setup E own))\<^sup>*\<^sup>* (controller_init E own e) c"
    and "limits_present E"
  shows "up c"
  using assms(1)
proof (induction rule: rtranclp_induct)
  case base
  show ?case by (simp add: controller_init_def)
next
  case (step c c')
  then show ?case using step_stays_up[OF controller_inv_reachable[OF step(1)] step(3) assms(2) step(2)] by simp
qed

theorem controller_stays_up_witness: "up (after_denial example_quota)"
  by (rule controller_stays_up[OF after_denial_reachable still_laws(3)]) (simp add: example_quota_def)

text \<open>
  Without the hypothesis one does: a denial in a namespace whose ResourceQuota has no hard
  limits ends the operator, because the raised limits are written to a nil map.
\<close>

theorem quota_without_limits_crashes:
  "\<not> up (after_denial (example_quota\<lparr>SpecHard := None\<rparr>))"
  by (simp add: still_run)

end
