(* ===== verification/Concurrent_Limiter.thy ===== *)
theory Concurrent_Limiter imports Rate_Limit begin

text \<open>
  allowScale called by several goroutines at once, as the watches and the workers of the
  reconciler do: the mutex, the read of the map, the clock and the write as steps of their
  own. What comes out is what the calls give one after another, in the order in which they
  had the lock.
\<close>

section \<open>Callers\<close>

text \<open>
  A caller waits for the lock, has it, has read the map, has read the clock, is about to
  unlock (the unlock is deferred, so a panic unlocks too), and has returned or panicked.
\<close>

datatype call =
    Waiting
  | Locked
  | Read "int option"
  | Clocked "int option" int
  | Leaving "bool go" int
  | Left "bool go" int

text \<open>
  The callers with their namespaces, the map, the lock and the clock; as a ghost, the
  decisions in their order.
\<close>

record calls =
  cl_lastScale :: "(string, int) gomap"
  cl_locked :: bool
  cl_clock :: int
  cl_callers :: "(string \<times> call) list"
  cl_log :: "(int \<times> string \<times> bool go) list"

definition calls_init :: "(string, int) gomap \<Rightarrow> int \<Rightarrow> string list \<Rightarrow> calls" where
  "calls_init m t nss = \<lparr>cl_lastScale = m, cl_locked = False, cl_clock = t,
     cl_callers = map (\<lambda>n. (n, Waiting)) nss, cl_log = []\<rparr>"

definition move_to :: "nat \<Rightarrow> call \<Rightarrow> calls \<Rightarrow> calls" where
  "move_to i c s = s\<lparr>cl_callers := (cl_callers s)[i := (fst (cl_callers s ! i), c)]\<rparr>"

text \<open>The decision on what was read: a refusal, or the write of the time, which a nil map refuses.\<close>

definition decide :: "int \<Rightarrow> string \<Rightarrow> int option \<Rightarrow> int \<Rightarrow> (string, int) gomap \<Rightarrow> bool go \<times> (string, int) gomap" where
  "decide minInterval ns seen now m =
     (if seen \<noteq> None \<and> time_sub now (the seen) < minInterval then (Ret False, m)
      else case mput m ns now of
        None \<Rightarrow> (Panic ''assignment to entry in nil map'', m)
      | Some m' \<Rightarrow> (Ret True, m'))"

definition call_next :: "int \<Rightarrow> nat \<Rightarrow> calls \<Rightarrow> calls option" where
  "call_next minInterval i s =
     (if length (cl_callers s) \<le> i then None
      else case cl_callers s ! i of (ns, c) \<Rightarrow> (case c of
        Waiting \<Rightarrow> if cl_locked s then None else Some (move_to i Locked (s\<lparr>cl_locked := True\<rparr>))
      | Locked \<Rightarrow> Some (move_to i (Read (mget (cl_lastScale s) ns)) s)
      | Read seen \<Rightarrow> Some (move_to i (Clocked seen (cl_clock s)) s)
      | Clocked seen now \<Rightarrow> (case decide minInterval ns seen now (cl_lastScale s) of
          (r, m) \<Rightarrow> Some (move_to i (Leaving r now) (s\<lparr>cl_lastScale := m, cl_log := cl_log s @ [(now, ns, r)]\<rparr>)))
      | Leaving r now \<Rightarrow> Some (move_to i (Left r now) (s\<lparr>cl_locked := False\<rparr>))
      | Left r now \<Rightarrow> None))"

inductive call_step :: "int \<Rightarrow> calls \<Rightarrow> calls \<Rightarrow> bool" for minInterval where
  caller: "call_next minInterval i s = Some s' \<Longrightarrow> call_step minInterval s s'"
| time_passes: "0 \<le> k \<Longrightarrow> call_step minInterval s (s\<lparr>cl_clock := cl_clock s + k\<rparr>)"

inductive_cases call_stepE: "call_step minInterval s s'"

text \<open>A schedule: which caller moves next, while the clock stands.\<close>

primrec calls_run :: "int \<Rightarrow> nat list \<Rightarrow> calls \<Rightarrow> calls option" where
  "calls_run d [] s = Some s"
| "calls_run d (i # is) s = (case call_next d i s of None \<Rightarrow> None | Some s' \<Rightarrow> calls_run d is s')"

lemma calls_run_reachable: "calls_run d is s = Some s' \<Longrightarrow> (call_step d)\<^sup>*\<^sup>* s s'"
  by (induction "is" arbitrary: s)
     (auto split: option.splits intro: converse_rtranclp_into_rtranclp call_step.caller)

section \<open>One after another\<close>

text \<open>The atomic limiter over requests in a given order: its answers and the map it leaves.\<close>

primrec in_turn :: "int \<Rightarrow> (int \<times> string) list \<Rightarrow> (string, int) gomap \<Rightarrow> bool go list \<times> (string, int) gomap" where
  "in_turn d [] m = ([], m)"
| "in_turn d (q # qs) m = (case limiter d (fst q) (snd q) m of (r, m') \<Rightarrow>
     (case in_turn d qs m' of (rs, m'') \<Rightarrow> (r # rs, m'')))"

lemma in_turn_append:
  "in_turn d (qs @ [q]) m = (case in_turn d qs m of (rs, m') \<Rightarrow>
     (case limiter d (fst q) (snd q) m' of (r, m'') \<Rightarrow> (rs @ [r], m'')))"
  by (induction qs arbitrary: m) (auto split: prod.split)

lemma decide_limiter: "decide d ns (mget m ns) now m = limiter d now ns m"
  by (simp add: decide_def limiter_def Let_def)

section \<open>The invariant\<close>

fun critical_call :: "string \<times> call \<Rightarrow> bool" where
  "critical_call (n, Waiting) = False"
| "critical_call (n, Left r t) = False"
| "critical_call (n, c) = True"

text \<open>What a caller knows: what it read is still so, and its clock is between the start and now, no decision later.\<close>

fun knows :: "int \<Rightarrow> calls \<Rightarrow> string \<times> call \<Rightarrow> bool" where
  "knows t0 s (n, Read l) = (l = mget (cl_lastScale s) n)"
| "knows t0 s (n, Clocked l t) =
     (l = mget (cl_lastScale s) n \<and> t0 \<le> t \<and> t \<le> cl_clock s \<and> list_all (\<lambda>e. fst e \<le> t) (cl_log s))"
| "knows t0 s (n, c) = True"

text \<open>The decision a caller has got, if any.\<close>

fun outcome :: "string \<times> call \<Rightarrow> (int \<times> string \<times> bool go) list" where
  "outcome (n, Leaving r t) = [(t, n, r)]"
| "outcome (n, Left r t) = [(t, n, r)]"
| "outcome (n, c) = []"

definition outcomes :: "calls \<Rightarrow> (int \<times> string \<times> bool go) list" where
  "outcomes s = concat (map outcome (cl_callers s))"

definition requests_of :: "(int \<times> string \<times> bool go) list \<Rightarrow> (int \<times> string) list" where
  "requests_of es = map (\<lambda>e. (fst e, fst (snd e))) es"

definition log_ok :: "int \<Rightarrow> (string, int) gomap \<Rightarrow> int \<Rightarrow> calls \<Rightarrow> bool" where
  "log_ok d m0 t0 s \<longleftrightarrow>
     in_turn d (requests_of (cl_log s)) m0 = (map (\<lambda>e. snd (snd e)) (cl_log s), cl_lastScale s) \<and>
     sorted (map fst (cl_log s)) \<and> list_all (\<lambda>e. t0 \<le> fst e \<and> fst e \<le> cl_clock s) (cl_log s) \<and>
     t0 \<le> cl_clock s"

definition calls_inv :: "int \<Rightarrow> (string, int) gomap \<Rightarrow> int \<Rightarrow> calls \<Rightarrow> bool" where
  "calls_inv d m0 t0 s \<longleftrightarrow>
     length (filter critical_call (cl_callers s)) = (if cl_locked s then 1 else 0) \<and>
     list_all (knows t0 s) (cl_callers s) \<and> mset (outcomes s) = mset (cl_log s) \<and> log_ok d m0 t0 s"

lemma calls_inv_init: "calls_inv d m t (calls_init m t nss)"
  by (auto simp: calls_inv_def calls_init_def requests_of_def outcomes_def log_ok_def comp_def
      filter_empty_conv list.pred_set)

lemma knows_outside: "\<not> critical_call c \<Longrightarrow> knows t0 s c"
  by (cases c rule: critical_call.cases) auto

lemma knows_callers [simp]: "knows t0 (s\<lparr>cl_callers := x\<rparr>) = knows t0 s" "knows t0 (s\<lparr>cl_locked := l\<rparr>) = knows t0 s"
  by (rule ext, rename_tac c, case_tac "(t0, s, c)" rule: knows.cases; simp)+

text \<open>Where caller i is in the section, or nobody is, the others know nothing yet.\<close>

lemma others_know:
  assumes "length (filter critical_call xs) \<le> 1" and "critical_call (xs ! i) \<or> filter critical_call xs = []"
    and "i < length xs" and "knows t0 s y"
  shows "list_all (knows t0 s) (xs[i := y])"
proof (subst list_all_length, intro allI impI)
  fix j assume j: "j < length (xs[i := y])"
  show "knows t0 s (xs[i := y] ! j)"
  proof (cases "j = i")
    case False
    have "\<not> critical_call (xs ! j)"
      using assms(2)
    proof
      assume "critical_call (xs ! i)"
      with only_one[OF assms(1) _ assms(3)] j False show ?thesis by simp
    next
      assume "filter critical_call xs = []"
      with j show ?thesis by (simp add: filter_empty_conv)
    qed
    with False show ?thesis by (simp add: knows_outside)
  qed (use assms j in simp)
qed

lemma mset_concat_update:
  "i < length xs \<Longrightarrow> mset (concat (map f (xs[i := y]))) + mset (f (xs ! i)) = mset (concat (map f xs)) + mset (f y)"
proof -
  assume i: "i < length xs"
  have "mset (concat (map f xs)) = mset (concat (map f (take i xs @ xs ! i # drop (Suc i) xs)))"
    by (simp add: id_take_nth_drop[OF i, symmetric])
  then show ?thesis using i by (simp add: upd_conv_take_nth_drop)
qed

text \<open>A caller that moves without a decision, and the one that decides.\<close>

lemma move_inv:
  assumes "calls_inv d m0 t0 s" and "i < length (cl_callers s)" and "cl_callers s ! i = (n, c)"
    and "outcome (n, c') = outcome (n, c)"
    and "critical_call (n, c) \<or> \<not> cl_locked s"
    and "l = (critical_call (n, c'))" and "knows t0 s (n, c')"
  shows "calls_inv d m0 t0 (move_to i c' (s\<lparr>cl_locked := l\<rparr>))"
proof -
  have one: "length (filter critical_call (cl_callers s)) \<le> 1"
    and cnt: "length (filter critical_call (cl_callers s)) = (if cl_locked s then 1 else 0)"
    using assms(1) by (auto simp: calls_inv_def)
  have locked: "cl_locked s" if "critical_call (n, c)"
    using cnt that assms(2,3) by (auto simp: filter_empty_conv split: if_splits) (metis nth_mem)
  have "length (filter critical_call ((cl_callers s)[i := (n, c')])) = (if l then 1 else 0)"
    using length_filter_update[OF assms(2), of critical_call "(n, c')"] cnt locked assms(3,5,6)
    by (auto split: if_splits)
  moreover have "list_all (knows t0 s) ((cl_callers s)[i := (n, c')])"
    using others_know[OF one _ assms(2), of t0 s "(n, c')"] assms(3,5,7) cnt by auto
  moreover have "mset (concat (map outcome ((cl_callers s)[i := (n, c')]))) = mset (outcomes s)"
    using mset_concat_update[OF assms(2), of outcome "(n, c')"] assms(3,4) by (simp add: outcomes_def)
  ultimately show ?thesis
    using assms(1,3) by (simp add: calls_inv_def move_to_def log_ok_def outcomes_def)
qed

lemma critical_locked:
  assumes "calls_inv d m0 t0 s" and "i < length (cl_callers s)" and "critical_call (cl_callers s ! i)"
  shows "cl_locked s"
  using assms by (auto simp: calls_inv_def filter_empty_conv split: if_splits)

text \<open>
  The decision: what was read is what the map holds, so the caller decides as the atomic
  limiter does at this moment, and its request is the next one of the order.
\<close>

lemma decide_inv:
  assumes inv: "calls_inv d m0 t0 s" and i: "i < length (cl_callers s)"
    and c: "cl_callers s ! i = (n, Clocked seen t)" and r: "decide d n seen t (cl_lastScale s) = (r, m)"
  shows "calls_inv d m0 t0 (move_to i (Leaving r t) (s\<lparr>cl_lastScale := m, cl_log := cl_log s @ [(t, n, r)]\<rparr>))"
proof -
  let ?s = "s\<lparr>cl_lastScale := m, cl_log := cl_log s @ [(t, n, r)]\<rparr>"
  have k: "knows t0 s (n, Clocked seen t)"
    using inv i c unfolding calls_inv_def list_all_length by metis
  have one: "length (filter critical_call (cl_callers s)) \<le> 1"
    using inv by (auto simp: calls_inv_def)
  have "limiter d t n (cl_lastScale s) = (r, m)"
    using k r decide_limiter[of d n "cl_lastScale s" t] by simp
  then have "log_ok d m0 t0 ?s"
    using inv k by (auto simp: calls_inv_def log_ok_def requests_of_def in_turn_append sorted_append list.pred_set)
  moreover have "length (filter critical_call ((cl_callers s)[i := (n, Leaving r t)])) = (if cl_locked s then 1 else 0)"
    using length_filter_update[OF i, of critical_call "(n, Leaving r t)"] inv c by (simp add: calls_inv_def)
  moreover have "list_all (knows t0 ?s) ((cl_callers s)[i := (n, Leaving r t)])"
    using others_know[OF one _ i, of t0 ?s "(n, Leaving r t)"] c by simp
  moreover have "mset (concat (map outcome ((cl_callers s)[i := (n, Leaving r t)]))) = mset (cl_log ?s)"
    using mset_concat_update[OF i, of outcome "(n, Leaving r t)"] inv c by (simp add: calls_inv_def outcomes_def)
  ultimately show ?thesis
    using c by (simp add: calls_inv_def move_to_def log_ok_def outcomes_def)
qed

lemma caller_inv:
  assumes inv: "calls_inv d m0 t0 s" and n: "call_next d i s = Some s'"
  shows "calls_inv d m0 t0 s'"
proof -
  from n have i: "i < length (cl_callers s)" by (auto simp: call_next_def split: if_splits)
  obtain ns c where c: "cl_callers s ! i = (ns, c)" by fastforce
  have k: "knows t0 s (ns, c)"
    using inv i c unfolding calls_inv_def list_all_length by metis
  note move = move_inv[OF inv i c]
  have locked: "s\<lparr>cl_locked := True\<rparr> = s" if "critical_call (ns, c)"
    using critical_locked[OF inv i] that c by simp
  have "t0 \<le> cl_clock s" and past: "list_all (\<lambda>e. fst e \<le> cl_clock s) (cl_log s)"
    using inv by (auto simp: calls_inv_def log_ok_def list.pred_set)
  show ?thesis
  proof (cases c)
    case Waiting
    with n i c move[of Locked True] show ?thesis
      by (auto simp: call_next_def split: if_splits)
  next
    case Locked
    with n i c locked move[of "Read (mget (cl_lastScale s) ns)" True] show ?thesis
      by (auto simp: call_next_def)
  next
    case (Read seen)
    with n i c locked \<open>t0 \<le> cl_clock s\<close> past k move[of "Clocked seen (cl_clock s)" True] show ?thesis
      by (auto simp: call_next_def)
  next
    case (Clocked seen now)
    with n i c decide_inv[OF inv i] show ?thesis
      by (auto simp: call_next_def split: prod.splits)
  next
    case (Leaving r now)
    with n i c move[of "Left r now" False] show ?thesis
      by (auto simp: call_next_def)
  next
    case (Left r now)
    with n i c show ?thesis by (simp add: call_next_def)
  qed
qed

lemma time_inv:
  assumes "calls_inv d m0 t0 s" and "0 \<le> k"
  shows "calls_inv d m0 t0 (s\<lparr>cl_clock := cl_clock s + k\<rparr>)"
proof -
  let ?s = "s\<lparr>cl_clock := cl_clock s + k\<rparr>"
  have "knows t0 ?s c" if "knows t0 s c" for c
    using that assms(2) by (cases "(t0, s, c)" rule: knows.cases) auto
  moreover have "log_ok d m0 t0 s" using assms(1) by (simp add: calls_inv_def)
  then have "log_ok d m0 t0 ?s" using assms(2) by (fastforce simp: log_ok_def list.pred_set)
  ultimately show ?thesis
    using assms(1) by (auto simp: calls_inv_def outcomes_def elim!: list.pred_mono_strong)
qed

lemma calls_inv_reachable:
  "(call_step d)\<^sup>*\<^sup>* (calls_init m t nss) s \<Longrightarrow> calls_inv d m t s"
  by (induction rule: rtranclp_induct)
     (auto intro: calls_inv_init caller_inv time_inv elim!: call_stepE)

section \<open>Every call returns\<close>

fun call_rank :: "call \<Rightarrow> nat" where
  "call_rank Waiting = 5"
| "call_rank Locked = 4"
| "call_rank (Read l) = 3"
| "call_rank (Clocked l t) = 2"
| "call_rank (Leaving r t) = 1"
| "call_rank (Left r t) = 0"

definition calls_rank :: "calls \<Rightarrow> nat" where
  "calls_rank s = (\<Sum>c\<leftarrow>cl_callers s. call_rank (snd c))"

definition returned :: "calls \<Rightarrow> bool" where
  "returned s = list_all (\<lambda>c. call_rank (snd c) = 0) (cl_callers s)"

lemma move_to_rank:
  assumes "i < length (cl_callers s)" and "call_rank c < call_rank (snd (cl_callers s ! i))"
    and "cl_callers s' = cl_callers s"
  shows "calls_rank (move_to i c s') < calls_rank s"
proof -
  have "cl_callers s = take i (cl_callers s) @ cl_callers s ! i # drop (Suc i) (cl_callers s)"
    using assms(1) by (rule id_take_nth_drop)
  then have "calls_rank s = (\<Sum>c\<leftarrow>take i (cl_callers s) @ cl_callers s ! i # drop (Suc i) (cl_callers s). call_rank (snd c))"
    unfolding calls_rank_def by (rule arg_cong)
  then show ?thesis using assms
    by (simp add: calls_rank_def move_to_def upd_conv_take_nth_drop)
qed

lemma caller_rank: "call_next d i s = Some s' \<Longrightarrow> calls_rank s' < calls_rank s"
  by (auto simp: call_next_def split: if_splits prod.splits call.splits intro!: move_to_rank)

text \<open>The one who has the lock can move; where nobody has it, whoever waits can.\<close>

lemma someone_moves:
  assumes inv: "calls_inv d m0 t0 s" and "\<not> returned s"
  shows "\<exists>i s'. call_next d i s = Some s'"
proof (cases "cl_locked s")
  case True
  then have "filter critical_call (cl_callers s) \<noteq> []"
    using inv by (auto simp: calls_inv_def)
  then obtain i n c where "i < length (cl_callers s)" "cl_callers s ! i = (n, c)" "critical_call (n, c)"
    by (auto simp: filter_empty_conv in_set_conv_nth)
  then have "call_next d i s \<noteq> None"
    by (cases c) (auto simp: call_next_def split: prod.split)
  then show ?thesis by blast
next
  case False
  from assms(2) obtain i n c where i: "i < length (cl_callers s)" "cl_callers s ! i = (n, c)" "call_rank c \<noteq> 0"
    by (auto simp: returned_def list_all_length) (metis prod.collapse)
  then have "\<not> critical_call (n, c)" using critical_locked[OF inv i(1)] False by auto
  with i have "c = Waiting" by (cases c) auto
  with i False have "call_next d i s \<noteq> None" by (simp add: call_next_def)
  then show ?thesis by blast
qed

lemma all_return:
  "calls_inv d m0 t0 s \<Longrightarrow> \<exists>s'. (call_step d)\<^sup>*\<^sup>* s s' \<and> returned s'"
proof (induction "calls_rank s" arbitrary: s rule: less_induct)
  case less
  show ?case
  proof (cases "returned s")
    case False
    then obtain i s1 where n: "call_next d i s = Some s1" using someone_moves[OF less.prems] by blast
    then obtain s' where "(call_step d)\<^sup>*\<^sup>* s1 s'" "returned s'"
      using less.hyps[OF caller_rank[OF n] caller_inv[OF less.prems n]] by blast
    with n show ?thesis by (meson call_step.caller converse_rtranclp_into_rtranclp)
  qed blast
qed

section \<open>The throttle\<close>

definition grants_in :: "string \<Rightarrow> (int \<times> string \<times> bool go) list \<Rightarrow> int list" where
  "grants_in ns es = map fst (filter (\<lambda>e. fst (snd e) = ns \<and> snd (snd e) = Ret True) es)"

lemma grants_in_log:
  "m \<noteq> None \<Longrightarrow> in_turn minute (requests_of es) m = (map (\<lambda>e. snd (snd e)) es, m') \<Longrightarrow>
     grants_in ns es = grant_times allow_minute ns (requests_of es) m"
proof (induction es arbitrary: m)
  case (Cons e es)
  obtain t n r where e: "e = (t, n, r)" by (cases e)
  obtain g m1 where a: "allow_minute t n m = (g, m1)" by fastforce
  have ok: "m1 \<noteq> None" using minute_limiter.ok_kept[OF Cons.prems(1), of t n] a by simp
  have "in_turn minute (requests_of es) m1 = (map (\<lambda>e. snd (snd e)) es, m')" and "r = Ret g"
    using Cons.prems(2) limiter_allow_minute[OF Cons.prems(1), of t n] a
    by (auto simp: requests_of_def e split: prod.splits)
  then show ?case
    using Cons.IH[OF ok] a by (simp add: grants_in_def e requests_of_def)
qed (simp add: grants_in_def requests_of_def)

lemma grants_of_outcomes:
  "mset es = mset es' \<Longrightarrow> length (grants_in ns es) = length (grants_in ns es')"
  unfolding grants_in_def length_map by (rule mset_eq_length) simp

section \<open>Properties\<close>

text \<open>
  C14. Whatever callers call allowScale at once, with whatever interval and from whatever map, at
  every moment the decisions they have got are, in the order in which they had the lock,
  exactly the answers of the atomic limiter to their requests one after another, the map is
  the one it leaves, and the times of the requests do not go back; and all the callers can
  return.
\<close>

theorem concurrent_limiter_atomic:
  assumes "(call_step d)\<^sup>*\<^sup>* (calls_init m t nss) s"
  shows "mset (outcomes s) = mset (cl_log s) \<and>
    in_turn d (requests_of (cl_log s)) m = (map (\<lambda>e. snd (snd e)) (cl_log s), cl_lastScale s) \<and>
    sorted (map fst (cl_log s)) \<and> (\<exists>s'. (call_step d)\<^sup>*\<^sup>* s s' \<and> returned s')"
  using calls_inv_reachable[OF assms] all_return[OF calls_inv_reachable[OF assms]]
  by (simp add: calls_inv_def log_ok_def)

text \<open>Two callers of one namespace, the second of which waits while the first decides.\<close>

definition two_calls :: calls where
  "two_calls = \<lparr>cl_lastScale = Some [''ns'' \<mapsto> 7], cl_locked = True, cl_clock = 7,
     cl_callers = [(''ns'', Leaving (Ret True) 7), (''ns'', Waiting)], cl_log = [(7, ''ns'', Ret True)]\<rparr>"

lemma two_calls_reachable:
  "(call_step minute)\<^sup>*\<^sup>* (calls_init (Some Map.empty) 7 [''ns'', ''ns'']) two_calls"
proof (rule calls_run_reachable)
  show "calls_run minute [0, 0, 0, 0] (calls_init (Some Map.empty) 7 [''ns'', ''ns'']) = Some two_calls"
    by (simp add: calls_init_def call_next_def move_to_def decide_def two_calls_def)
qed

theorem concurrent_limiter_atomic_witness:
  "mset (outcomes two_calls) = {#(7, ''ns'', Ret True)#} \<and>
   (\<exists>s'. (call_step minute)\<^sup>*\<^sup>* two_calls s' \<and> returned s')"
  using concurrent_limiter_atomic[OF two_calls_reachable] by (simp add: two_calls_def)

text \<open>
  C15. However the callers interleave, n of them that were let through for one namespace within
  a time span need n - 1 minutes.
\<close>

theorem concurrent_limiter_throttles:
  assumes "(call_step minute)\<^sup>*\<^sup>* (calls_init m t nss) s" and "m \<noteq> None"
  shows "(int (length (grants_in ns (outcomes s))) - 1) * minute \<le> cl_clock s - t"
proof -
  note inv = calls_inv_reachable[OF assms(1)]
  then have g: "grants_in ns (cl_log s) = grant_times allow_minute ns (requests_of (cl_log s)) m"
    by (intro grants_in_log[OF assms(2)]) (simp add: calls_inv_def log_ok_def)
  have "t \<le> x \<and> x \<le> cl_clock s" if "x \<in> set (grants_in ns (cl_log s))" for x
    using that inv by (auto simp: grants_in_def calls_inv_def log_ok_def list.pred_set)
  then have "(int (length (grants_in ns (cl_log s))) - 1) * minute \<le> cl_clock s - t"
    using minute_limiter.grants_bounded[OF assms(2), of ns "requests_of (cl_log s)" t "cl_clock s"] inv g
    by (simp add: calls_inv_def log_ok_def)
  then show ?thesis
    using grants_of_outcomes[of "outcomes s" "cl_log s" ns] inv by (simp add: calls_inv_def)
qed

theorem concurrent_limiter_throttles_witness:
  "(int (length (grants_in ''ns'' (outcomes two_calls))) - 1) * minute \<le> 0 \<and> grants_in ''ns'' (outcomes two_calls) = [7]"
  using concurrent_limiter_throttles[OF two_calls_reachable, of "''ns''"]
  by (simp add: two_calls_def grants_in_def outcomes_def)

end
