(* ===== verification/Manifests.thy ===== *)
theory Manifests imports Sample_World begin

text \<open>
  The manifest editors of reconcilers/git/gitea.go: reading a YAML file of the clone,
  changing one field of its document and writing it back. Three functions share that
  shape; \<open>manifest_updater\<close> is their contract, on which the handlers rely.
\<close>

section \<open>YAML documents and files\<close>

text \<open>
  What yaml.v3 decodes into an interface value: a mapping with string keys becomes a
  map[string]interface, and every alias is decoded into a value of its own, so a document
  is a tree. \<open>YStrMap\<close> is the map[string]string that the code puts into a tree;
  \<open>YOther\<close> stands for every value the code never looks at.
\<close>

datatype yval =
    YNull
  | YBool bool
  | YInt int
  | YStr string
  | YList "yval list"
  | YMap "string \<rightharpoonup> yval"
  | YStrMap "string \<rightharpoonup> string"
  | YOther string

type_synonym doc = "string \<rightharpoonup> yval"

text \<open>The library: Unmarshal into and Marshal from a map; both may fail.\<close>

record yaml_ops =
  Unmarshal :: "string \<Rightarrow> string + doc"
  MarshalDoc :: "doc \<Rightarrow> string + string"

text \<open>
  The files of the clone. A read or a write of a path may fail; a failed os.WriteFile
  has already truncated the file, so what it leaves is given with the error.
\<close>

record fs =
  files :: "string \<rightharpoonup> string"
  read_fault :: "string \<Rightarrow> string option"
  write_fault :: "string \<Rightarrow> (string \<times> string option) option"

definition ReadFile :: "string \<Rightarrow> fs \<Rightarrow> string + string" where
  "ReadFile p s = (case read_fault s p of
     Some e \<Rightarrow> Inl e
   | None \<Rightarrow> (case files s p of None \<Rightarrow> Inl ''no such file or directory'' | Some c \<Rightarrow> Inr c))"

definition WriteFile :: "string \<Rightarrow> string \<Rightarrow> fs \<Rightarrow> string option \<times> fs" where
  "WriteFile p c s = (case write_fault s p of
     Some (e, left) \<Rightarrow> (Some e, s\<lparr>files := (files s)(p := left)\<rparr>)
   | None \<Rightarrow> (None, s\<lparr>files := (files s)(p \<mapsto> c)\<rparr>))"

section \<open>The editors\<close>

datatype upd_err =
    ReadErr string
  | UnmarshalErr string
  | UnsupportedKind string string
  | MissingSpec string
  | MissingReplicas string
  | MissingBehavior string
  | MissingNodeScaling string
  | MarshalErr string
  | WriteErr string

definition isSupportedKind :: "string \<Rightarrow> bool" where
  "isSupportedKind k \<longleftrightarrow> k = ''MachineDeployment'' \<or> k = ''NamespaceQuota'' \<or> k = ''ResourceQuota''"

text \<open>Type assertions: the comma-ok forms.\<close>

definition as_string :: "yval option \<Rightarrow> string" where
  "as_string v = (case v of Some (YStr s) \<Rightarrow> s | _ \<Rightarrow> [])"

definition as_map :: "yval option \<Rightarrow> doc option" where
  "as_map v = (case v of Some (YMap m) \<Rightarrow> Some m | _ \<Rightarrow> None)"

definition as_int :: "yval option \<Rightarrow> int option" where
  "as_int v = (case v of Some (YInt n) \<Rightarrow> Some n | _ \<Rightarrow> None)"

text \<open>
  The parts all three share: the document and its spec map (a map the code then changes
  in place, so the changed spec is put back into the document), and the text written.
\<close>

definition parse_manifest :: "yaml_ops \<Rightarrow> string \<Rightarrow> string \<Rightarrow> upd_err + doc \<times> doc" where
  "parse_manifest Y path data = (case Unmarshal Y data of
     Inl e \<Rightarrow> Inl (UnmarshalErr e)
   | Inr doc \<Rightarrow>
      let kind = as_string (doc ''kind'')
      in if \<not> isSupportedKind kind then Inl (UnsupportedKind path kind)
         else case as_map (doc ''spec'') of
           None \<Rightarrow> Inl (MissingSpec path)
         | Some spec \<Rightarrow> Inr (doc, spec))"

definition write_manifest :: "yaml_ops \<Rightarrow> string \<Rightarrow> doc \<Rightarrow> fs \<Rightarrow> upd_err option \<times> fs" where
  "write_manifest Y path doc s = (case MarshalDoc Y doc of
     Inl e \<Rightarrow> (Some (MarshalErr e), s)
   | Inr out \<Rightarrow> (case WriteFile path out s of
        (Some e, s') \<Rightarrow> (Some (WriteErr e), s')
      | (None, s') \<Rightarrow> (None, s')))"

definition UpdateResourceReplicasMachineDeployment ::
  "yaml_ops \<Rightarrow> node_scaling \<Rightarrow> string \<Rightarrow> fs \<Rightarrow> upd_err option \<times> fs" where
  "UpdateResourceReplicasMachineDeployment Y scaling path s = (case ReadFile path s of
     Inl e \<Rightarrow> (Some (ReadErr e), s)
   | Inr data \<Rightarrow> (case parse_manifest Y path data of
        Inl e \<Rightarrow> (Some e, s)
      | Inr (doc, spec) \<Rightarrow> (case as_int (spec ''replicas'') of
           None \<Rightarrow> (Some (MissingReplicas path), s)
         | Some replicaCount \<Rightarrow>
            if replicaCount = 0 \<or> replicaCount = MaxNodes scaling then (None, s)
            else let n = add64 replicaCount 1;
                     newReplicaCount = (if n > MaxNodes scaling then MaxNodes scaling else n)
                 in write_manifest Y path
                      (doc(''spec'' \<mapsto> YMap (spec(''replicas'' \<mapsto> YInt newReplicaCount)))) s)))"

definition UpdateResourceReplicasNamespaceQuotaCR ::
  "yaml_ops \<Rightarrow> int \<Rightarrow> string \<Rightarrow> fs \<Rightarrow> (int \<times> upd_err option) \<times> fs" where
  "UpdateResourceReplicasNamespaceQuotaCR Y newReplicaCount path s = (case ReadFile path s of
     Inl e \<Rightarrow> ((-1, Some (ReadErr e)), s)
   | Inr data \<Rightarrow> (case parse_manifest Y path data of
        Inl e \<Rightarrow> ((-1, Some e), s)
      | Inr (doc, spec) \<Rightarrow> (case as_map (spec ''behavior'') of
           None \<Rightarrow> ((-1, Some (MissingBehavior path)), s)
         | Some tpl \<Rightarrow> (case as_map (tpl ''nodeScaling'') of
              None \<Rightarrow> ((-1, Some (MissingNodeScaling path)), s)
            | Some bhv \<Rightarrow>
               let bhv' = bhv(''replicas'' \<mapsto> YInt newReplicaCount);
                   tpl' = tpl(''nodeScaling'' \<mapsto> YMap bhv');
                   spec' = spec(''behavior'' \<mapsto> YMap tpl')
               in case write_manifest Y path (doc(''spec'' \<mapsto> YMap spec')) s of
                    (Some (MarshalErr e), s') \<Rightarrow> ((-1, Some (MarshalErr e)), s')
                  | (r, s') \<Rightarrow> ((newReplicaCount, r), s')))))"

text \<open>The quantities of the ResourceQuota are written in the form their String gives.\<close>

definition UpdateResourceQuota ::
  "yaml_ops \<Rightarrow> ('q \<Rightarrow> string) \<Rightarrow> 'q resource_quota \<Rightarrow> string \<Rightarrow> fs \<Rightarrow> upd_err option \<times> fs" where
  "UpdateResourceQuota Y String rq path s = (case ReadFile path s of
     Inl e \<Rightarrow> (Some (ReadErr e), s)
   | Inr data \<Rightarrow> (case parse_manifest Y path data of
        Inl e \<Rightarrow> (Some e, s)
      | Inr (doc, spec) \<Rightarrow>
          let hard = (\<lambda>k. map_option String (mget (SpecHard rq) k))
          in write_manifest Y path (doc(''spec'' \<mapsto> YMap (spec(''hard'' \<mapsto> YStrMap hard)))) s))"

section \<open>The contract of an editor\<close>

text \<open>
  Seen from outside, an editor reads its file once, computes from the text an error,
  nothing to do, or a new text, and writes that text once. From this alone it follows
  that it touches no other file, that an error before the write changes nothing, and
  that editors of different files commute.
\<close>

locale manifest_updater =
  fixes upd :: "string \<Rightarrow> fs \<Rightarrow> upd_err option \<times> fs"
    and edit :: "string \<Rightarrow> string \<Rightarrow> upd_err + string option"
  assumes reads_edits_writes: "upd p s = (case ReadFile p s of
       Inl e \<Rightarrow> (Some (ReadErr e), s)
     | Inr c \<Rightarrow> (case edit p c of
          Inl e \<Rightarrow> (Some e, s)
        | Inr None \<Rightarrow> (None, s)
        | Inr (Some out) \<Rightarrow> (map_option WriteErr (fst (WriteFile p out s)), snd (WriteFile p out s))))"

lemma WriteFile_frame:
  "read_fault (snd (WriteFile p c s)) = read_fault s"
  "write_fault (snd (WriteFile p c s)) = write_fault s"
  "q \<noteq> p \<Longrightarrow> files (snd (WriteFile p c s)) q = files s q"
  by (auto simp: WriteFile_def split: option.split)

lemma ReadFile_cong:
  "read_fault s' = read_fault s \<Longrightarrow> files s' p = files s p \<Longrightarrow> ReadFile p s' = ReadFile p s"
  unfolding ReadFile_def by presburger

lemma WriteFile_cong:
  assumes "write_fault s' = write_fault s"
  shows "fst (WriteFile p c s') = fst (WriteFile p c s)"
    and "files (snd (WriteFile p c s')) p = files (snd (WriteFile p c s)) p"
  using assms by (auto simp: WriteFile_def split: option.split)

text \<open>Editing the listed files one after another, whatever fails, and the errors met.\<close>

primrec update_each ::
  "(string \<Rightarrow> fs \<Rightarrow> upd_err option \<times> fs) \<Rightarrow> string list \<Rightarrow> fs \<Rightarrow> upd_err list \<times> fs" where
  "update_each upd [] s = ([], s)"
| "update_each upd (p # ps) s =
     (case_option [] (\<lambda>e. [e]) (fst (upd p s)) @ fst (update_each upd ps (snd (upd p s))),
      snd (update_each upd ps (snd (upd p s))))"

context manifest_updater begin

lemma frame:
  "read_fault (snd (upd p s)) = read_fault s"
  "write_fault (snd (upd p s)) = write_fault s"
  "q \<noteq> p \<Longrightarrow> files (snd (upd p s)) q = files s q"
  by (auto simp: reads_edits_writes WriteFile_frame split: sum.split option.split)

lemma local:
  assumes "read_fault s' = read_fault s" "write_fault s' = write_fault s" "files s' p = files s p"
  shows "fst (upd p s') = fst (upd p s)" and "files (snd (upd p s')) p = files (snd (upd p s)) p"
  using assms WriteFile_cong[OF assms(2)] ReadFile_cong[OF assms(1,3)]
  by (auto simp: reads_edits_writes split: sum.split option.split)

lemma clean_error:
  "fst (upd p s) = Some e \<Longrightarrow> (\<And>w. e \<noteq> WriteErr w) \<Longrightarrow> snd (upd p s) = s"
  by (auto simp: reads_edits_writes split: sum.splits option.splits)

lemma only_its_file:
  "files (snd (upd p s)) = (files s)(p := files (snd (upd p s)) p)"
  "snd (upd p s) = s \<or> fst (upd p s) = None \<or> (\<exists>w. fst (upd p s) = Some (WriteErr w))"
proof -
  show "files (snd (upd p s)) = (files s)(p := files (snd (upd p s)) p)"
    by (simp add: fun_eq_iff frame)
  show "snd (upd p s) = s \<or> fst (upd p s) = None \<or> (\<exists>w. fst (upd p s) = Some (WriteErr w))"
    by (cases "fst (upd p s)") (use clean_error[of p s] in blast)+
qed

text \<open>With no file listed twice, each ends as its own edit of the original leaves it.\<close>

lemma each_frame:
  "read_fault (snd (update_each upd ps s)) = read_fault s"
  "write_fault (snd (update_each upd ps s)) = write_fault s"
  "q \<notin> set ps \<Longrightarrow> files (snd (update_each upd ps s)) q = files s q"
  by (induction ps arbitrary: s) (auto simp: frame)

lemma each_file:
  "distinct ps \<Longrightarrow> p \<in> set ps \<Longrightarrow> files (snd (update_each upd ps s)) p = files (snd (upd p s)) p"
proof (induction ps arbitrary: s)
  case (Cons q ps)
  show ?case
  proof (cases "p = q")
    case True
    with Cons.prems show ?thesis by (simp add: each_frame)
  next
    case False
    then have "files (snd (upd p (snd (upd q s)))) p = files (snd (upd p s)) p"
      by (intro local(2) frame)
    with False Cons show ?thesis by simp
  qed
qed simp

lemma each_errors:
  "distinct ps \<Longrightarrow> fst (update_each upd ps s) = List.map_filter (\<lambda>p. fst (upd p s)) ps"
proof (induction ps arbitrary: s)
  case (Cons q ps)
  have "fst (upd p (snd (upd q s))) = fst (upd p s)" if "p \<in> set ps" for p
    using that Cons.prems by (intro local(1) frame) auto
  then have "List.map_filter (\<lambda>p. fst (upd p (snd (upd q s)))) ps = List.map_filter (\<lambda>p. fst (upd p s)) ps"
    by (simp add: map_filter_def cong: filter_cong)
  with Cons show ?case by (simp add: map_filter_simps split: option.split)
qed (simp add: map_filter_simps)

end

section \<open>The three editors keep it\<close>

definition marshal_text :: "yaml_ops \<Rightarrow> doc \<Rightarrow> upd_err + string option" where
  "marshal_text Y doc = (case MarshalDoc Y doc of Inl e \<Rightarrow> Inl (MarshalErr e) | Inr out \<Rightarrow> Inr (Some out))"

definition next_replicas :: "int \<Rightarrow> int \<Rightarrow> int" where
  "next_replicas limit r = (if r = 0 \<or> r = limit then r else min limit (add64 r 1))"

definition deployment_edit :: "yaml_ops \<Rightarrow> node_scaling \<Rightarrow> string \<Rightarrow> string \<Rightarrow> upd_err + string option" where
  "deployment_edit Y scaling path data = (case parse_manifest Y path data of
     Inl e \<Rightarrow> Inl e
   | Inr (doc, spec) \<Rightarrow> (case as_int (spec ''replicas'') of
        None \<Rightarrow> Inl (MissingReplicas path)
      | Some r \<Rightarrow> if r = 0 \<or> r = MaxNodes scaling then Inr None
          else marshal_text Y
            (doc(''spec'' \<mapsto> YMap (spec(''replicas'' \<mapsto> YInt (next_replicas (MaxNodes scaling) r)))))))"

definition quota_cr_edit :: "yaml_ops \<Rightarrow> int \<Rightarrow> string \<Rightarrow> string \<Rightarrow> upd_err + string option" where
  "quota_cr_edit Y n path data = (case parse_manifest Y path data of
     Inl e \<Rightarrow> Inl e
   | Inr (doc, spec) \<Rightarrow> (case as_map (spec ''behavior'') of
        None \<Rightarrow> Inl (MissingBehavior path)
      | Some tpl \<Rightarrow> (case as_map (tpl ''nodeScaling'') of
           None \<Rightarrow> Inl (MissingNodeScaling path)
         | Some bhv \<Rightarrow> marshal_text Y (doc(''spec'' \<mapsto> YMap (spec(''behavior'' \<mapsto>
             YMap (tpl(''nodeScaling'' \<mapsto> YMap (bhv(''replicas'' \<mapsto> YInt n))))))))))) "

definition quota_edit ::
  "yaml_ops \<Rightarrow> ('q \<Rightarrow> string) \<Rightarrow> 'q resource_quota \<Rightarrow> string \<Rightarrow> string \<Rightarrow> upd_err + string option" where
  "quota_edit Y String rq path data = (case parse_manifest Y path data of
     Inl e \<Rightarrow> Inl e
   | Inr (doc, spec) \<Rightarrow> marshal_text Y (doc(''spec'' \<mapsto>
       YMap (spec(''hard'' \<mapsto> YStrMap (\<lambda>k. map_option String (mget (SpecHard rq) k)))))))"

lemma write_manifest_text:
  "write_manifest Y path doc s = (case marshal_text Y doc of
     Inl e \<Rightarrow> (Some e, s)
   | Inr None \<Rightarrow> (None, s)
   | Inr (Some out) \<Rightarrow> (map_option WriteErr (fst (WriteFile path out s)), snd (WriteFile path out s)))"
  by (auto simp: write_manifest_def marshal_text_def split: sum.split prod.split option.split)

lemma next_replicas_code:
  "\<not> (r = 0 \<or> r = m) \<Longrightarrow> next_replicas m r = (if add64 r 1 > m then m else add64 r 1)"
  by (simp add: next_replicas_def)

interpretation deployment_updater: manifest_updater
  "UpdateResourceReplicasMachineDeployment Y scaling" "deployment_edit Y scaling" for Y scaling
  by unfold_locales
     (simp add: UpdateResourceReplicasMachineDeployment_def deployment_edit_def write_manifest_text
       next_replicas_code Let_def split: sum.split prod.split option.split)

interpretation quota_updater: manifest_updater
  "UpdateResourceQuota Y String rq" "quota_edit Y String rq" for Y String rq
  by unfold_locales
     (simp add: UpdateResourceQuota_def quota_edit_def write_manifest_text Let_def
       split: sum.split prod.split option.split)

interpretation quota_cr_updater: manifest_updater
  "\<lambda>p s. (snd (fst (UpdateResourceReplicasNamespaceQuotaCR Y n p s)),
     snd (UpdateResourceReplicasNamespaceQuotaCR Y n p s))" "quota_cr_edit Y n" for Y n
  by unfold_locales
     (auto simp: UpdateResourceReplicasNamespaceQuotaCR_def quota_cr_edit_def write_manifest_text
       marshal_text_def Let_def split: sum.split prod.split option.split upd_err.split)

section \<open>What a file says, and the YAML library\<close>

definition manifest_of :: "yaml_ops \<Rightarrow> string \<Rightarrow> fs \<Rightarrow> (doc \<times> doc) option" where
  "manifest_of Y path s = (case ReadFile path s of
     Inl _ \<Rightarrow> None
   | Inr c \<Rightarrow> (case parse_manifest Y path c of Inl _ \<Rightarrow> None | Inr r \<Rightarrow> Some r))"

text \<open>
  The documented behaviour of the library: decoding what Marshal wrote gives the value
  back, with a map[string]string as a map of strings; a decoded document has no
  map[string]string in it.
\<close>

primrec decoded :: "yval \<Rightarrow> yval" where
  "decoded YNull = YNull"
| "decoded (YBool b) = YBool b"
| "decoded (YInt n) = YInt n"
| "decoded (YStr t) = YStr t"
| "decoded (YList vs) = YList (map decoded vs)"
| "decoded (YMap m) = YMap (map_option decoded \<circ> m)"
| "decoded (YStrMap m) = YMap (map_option YStr \<circ> m)"
| "decoded (YOther t) = YOther t"

definition yaml_laws :: "yaml_ops \<Rightarrow> bool" where
  "yaml_laws Y \<longleftrightarrow>
     (\<forall>doc out. MarshalDoc Y doc = Inr out \<longrightarrow> Unmarshal Y out = Inr (map_option decoded \<circ> doc)) \<and>
     (\<forall>c doc. Unmarshal Y c = Inr doc \<longrightarrow> map_option decoded \<circ> doc = doc)"

lemma decoded_upd: "map_option decoded \<circ> m(k \<mapsto> v) = (map_option decoded \<circ> m)(k \<mapsto> decoded v)"
  by auto

lemma manifest_ofD:
  assumes "manifest_of Y path s = Some (doc, spec)"
  obtains c where "ReadFile path s = Inr c" and "read_fault s path = None"
    and "Unmarshal Y c = Inr doc" and "isSupportedKind (as_string (doc ''kind''))"
    and "doc ''spec'' = Some (YMap spec)" and "parse_manifest Y path c = Inr (doc, spec)"
  using assms
  by (auto simp: manifest_of_def parse_manifest_def ReadFile_def as_map_def Let_def
      split: sum.splits option.splits if_splits yval.splits)

lemma written_manifest:
  assumes Y: "yaml_laws Y" and m: "manifest_of Y path s = Some (doc, spec)"
    and w: "write_manifest Y path (doc(''spec'' \<mapsto> YMap spec1)) s = (None, s')"
  shows "manifest_of Y path s' =
    Some (doc(''spec'' \<mapsto> YMap (map_option decoded \<circ> spec1)), map_option decoded \<circ> spec1)"
proof -
  from m obtain c where rf: "read_fault s path = None" and u: "Unmarshal Y c = Inr doc"
    and k: "isSupportedKind (as_string (doc ''kind''))"
    by (rule manifest_ofD)
  from w obtain out where out: "MarshalDoc Y (doc(''spec'' \<mapsto> YMap spec1)) = Inr out"
    and wf: "WriteFile path out s = (None, s')"
    by (auto simp: write_manifest_def split: sum.splits prod.splits option.splits)
  have "ReadFile path s' = Inr out"
    using wf rf by (auto simp: ReadFile_def WriteFile_def split: option.splits)
  moreover have "map_option decoded \<circ> doc = doc" using Y u by (simp add: yaml_laws_def)
  then have "Unmarshal Y out = Inr (doc(''spec'' \<mapsto> YMap (map_option decoded \<circ> spec1)))"
    using Y out by (simp add: yaml_laws_def decoded_upd)
  ultimately show ?thesis
    using k by (simp add: manifest_of_def parse_manifest_def as_map_def)
qed

text \<open>The spec of a decoded document is decoded.\<close>

lemma decoded_spec:
  assumes "yaml_laws Y" and "manifest_of Y path s = Some (doc, spec)"
  shows "map_option decoded \<circ> spec = spec"
proof -
  from assms(2) obtain c where u: "Unmarshal Y c = Inr doc" and sp: "doc ''spec'' = Some (YMap spec)"
    by (rule manifest_ofD)
  have "map_option decoded \<circ> doc = doc" using assms(1) u by (simp add: yaml_laws_def)
  then have "map_option decoded (doc ''spec'') = doc ''spec''" by (metis comp_apply)
  with sp show ?thesis by simp
qed

lemma as_int_YInt [simp]: "as_int (Some (YInt n)) = Some n"
  by (simp add: as_int_def)

lemma deployment_scaled:
  assumes "yaml_laws Y" and "manifest_of Y path s = Some (doc, spec)"
    and "spec ''replicas'' = Some (YInt r)"
    and "- (2 ^ 63) \<le> r" "r < 2 ^ 63 - 1" "in64 (MaxNodes scaling)"
    and "UpdateResourceReplicasMachineDeployment Y scaling path s = (None, s')"
  shows "manifest_of Y path s' =
    (let spec' = spec(''replicas'' \<mapsto> YInt (if r = 0 then 0 else if MaxNodes scaling \<le> r
           then MaxNodes scaling else r + 1))
     in Some (doc(''spec'' \<mapsto> YMap spec'), spec'))"
proof -
  from assms(2) obtain c where c: "ReadFile path s = Inr c" "parse_manifest Y path c = Inr (doc, spec)"
    and sp: "doc ''spec'' = Some (YMap spec)"
    by (rule manifest_ofD)
  have plus: "add64 r 1 = r + 1"
    using assms(4,5) by (simp add: add64_def in64_def)
  show ?thesis
  proof (cases "r = 0 \<or> r = MaxNodes scaling")
    case True
    then have "s' = s" using assms(3,7) c by (simp add: UpdateResourceReplicasMachineDeployment_def)
    moreover have "spec(''replicas'' \<mapsto> YInt r) = spec" "doc(''spec'' \<mapsto> YMap spec) = doc"
      using assms(3) sp by (auto simp: fun_eq_iff)
    ultimately show ?thesis using True assms(2) by (auto simp: Let_def)
  next
    case False
    let ?n = "if MaxNodes scaling \<le> r then MaxNodes scaling else r + 1"
    from False have "write_manifest Y path (doc(''spec'' \<mapsto> YMap (spec(''replicas'' \<mapsto> YInt ?n)))) s = (None, s')"
      using assms(3,7) c plus
      by (auto simp: UpdateResourceReplicasMachineDeployment_def Let_def split: if_splits)
    from written_manifest[OF assms(1,2) this] show ?thesis
      using False decoded_spec[OF assms(1,2)] by (simp add: decoded_upd Let_def)
  qed
qed

lemma quota_written:
  assumes "yaml_laws Y" and "manifest_of Y path s = Some (doc, spec)"
    and "UpdateResourceQuota Y String rq path s = (None, s')"
  shows "manifest_of Y path s' =
    (let spec' = spec(''hard'' \<mapsto> YMap (\<lambda>k. map_option (YStr \<circ> String) (mget (SpecHard rq) k)))
     in Some (doc(''spec'' \<mapsto> YMap spec'), spec'))"
proof -
  from assms(2) obtain c where c: "ReadFile path s = Inr c" "parse_manifest Y path c = Inr (doc, spec)"
    by (rule manifest_ofD)
  let ?h = "YStrMap (\<lambda>k. map_option String (mget (SpecHard rq) k))"
  have "write_manifest Y path (doc(''spec'' \<mapsto> YMap (spec(''hard'' \<mapsto> ?h)))) s = (None, s')"
    using assms(3) c by (simp add: UpdateResourceQuota_def)
  from written_manifest[OF assms(1,2) this]
  have "manifest_of Y path s' = (let spec' = spec(''hard'' \<mapsto> decoded ?h)
      in Some (doc(''spec'' \<mapsto> YMap spec'), spec'))"
    unfolding decoded_upd decoded_spec[OF assms(1,2)] by (simp only: Let_def)
  then show ?thesis by (simp add: comp_def option.map_comp)
qed

section \<open>Properties\<close>

text \<open>
  A node scale-up edits exactly the replica count: after a successful
  UpdateResourceReplicasMachineDeployment the file holds the same document, with
  spec.replicas left at 0 if it was 0, set to maxNodes if it was at or above it, and one
  more otherwise.
\<close>

theorem deployment_scaled_exactly:
  assumes "yaml_laws Y" and "manifest_of Y path s = Some (doc, spec)"
    and "spec ''replicas'' = Some (YInt r)"
    and "- (2 ^ 63) \<le> r" "r < 2 ^ 63 - 1" "in64 (MaxNodes scaling)"
    and "UpdateResourceReplicasMachineDeployment Y scaling path s = (None, s')"
  shows "manifest_of Y path s' =
    (let spec' = spec(''replicas'' \<mapsto> YInt (if r = 0 then 0 else if MaxNodes scaling \<le> r
           then MaxNodes scaling else r + 1))
     in Some (doc(''spec'' \<mapsto> YMap spec'), spec'))"
  using assms by (rule deployment_scaled)

text \<open>
  C24. A quota update replaces spec.hard by the quantities of the ResourceQuota, as strings,
  and keeps everything else of the document.
\<close>

theorem quota_manifest_updated:
  assumes "yaml_laws Y" and "manifest_of Y path s = Some (doc, spec)"
    and "UpdateResourceQuota Y String rq path s = (None, s')"
  shows "manifest_of Y path s' =
    (let spec' = spec(''hard'' \<mapsto> YMap (\<lambda>k. map_option (YStr \<circ> String) (mget (SpecHard rq) k)))
     in Some (doc(''spec'' \<mapsto> YMap spec'), spec'))"
  using assms by (rule quota_written)

text \<open>
  A NamespaceQuota without maxNodes, or with maxNodes 0, empties the cluster: the
  "scale-up" of a MachineDeployment with any replicas writes 0.
\<close>

theorem no_max_nodes_scales_to_zero:
  assumes "yaml_laws Y" and "manifest_of Y path s = Some (doc, spec)"
    and "spec ''replicas'' = Some (YInt r)" and "0 < r" "r < 2 ^ 63 - 1"
    and "MaxNodes scaling = 0"
    and "UpdateResourceReplicasMachineDeployment Y scaling path s = (None, s')"
  shows "\<exists>doc' spec'. manifest_of Y path s' = Some (doc', spec') \<and> spec' ''replicas'' = Some (YInt 0)"
proof -
  have "- (2 ^ 63) \<le> r" "in64 (MaxNodes scaling)" using assms(4,6) by (simp_all add: in64_def)
  from deployment_scaled[OF assms(1-3) this(1) assms(5) this(2) assms(7)] show ?thesis
    using assms(4,6) by (simp add: Let_def)
qed

text \<open>
  Every editor keeps to its file: no other file changes, and it changes nothing at
  all unless it succeeds or the write itself fails.
\<close>

theorem editors_touch_one_file:
  "(case UpdateResourceReplicasMachineDeployment Y scaling path s of (r, s') \<Rightarrow>
      files s' = (files s)(path := files s' path) \<and> (s' = s \<or> r = None \<or> (\<exists>w. r = Some (WriteErr w)))) \<and>
   (case UpdateResourceQuota Y String rq path s of (r, s') \<Rightarrow>
      files s' = (files s)(path := files s' path) \<and> (s' = s \<or> r = None \<or> (\<exists>w. r = Some (WriteErr w)))) \<and>
   (case UpdateResourceReplicasNamespaceQuotaCR Y n path s of ((k, r), s') \<Rightarrow>
      files s' = (files s)(path := files s' path) \<and> (s' = s \<or> r = None \<or> (\<exists>w. r = Some (WriteErr w))))"
  using deployment_updater.only_its_file[of Y scaling path s] quota_updater.only_its_file[of Y String rq path s]
    quota_cr_updater.only_its_file[of Y n path s]
  by (auto simp: case_prod_beta)

section \<open>A concrete file\<close>

definition md_doc :: "int \<Rightarrow> doc" where
  "md_doc n = [''kind'' \<mapsto> YStr ''MachineDeployment'', ''spec'' \<mapsto> YMap [''replicas'' \<mapsto> YInt n]]"

definition rq_doc :: "yval \<Rightarrow> doc" where
  "rq_doc h = [''kind'' \<mapsto> YStr ''ResourceQuota'', ''spec'' \<mapsto> YMap [''hard'' \<mapsto> h]]"

text \<open>A library that knows a few texts.\<close>

definition sample_yaml :: yaml_ops where
  "sample_yaml = \<lparr>
     Unmarshal = (\<lambda>c. if c = ''md2'' then Inr (md_doc 2) else if c = ''md3'' then Inr (md_doc 3)
       else if c = ''md4'' then Inr (md_doc 4)
       else if c = ''md0'' then Inr (md_doc 0) else if c = ''rq-old'' then Inr (rq_doc YNull)
       else if c = ''rq-new'' then Inr (rq_doc (YMap [''limits.cpu'' \<mapsto> YStr ''1'']))
       else Inl ''yaml: unmarshal errors''),
     MarshalDoc = (\<lambda>d. if d = md_doc 3 then Inr ''md3'' else if d = md_doc 4 then Inr ''md4''
       else if d = md_doc 0 then Inr ''md0''
       else if d = rq_doc (YStrMap [''limits.cpu'' \<mapsto> ''1'']) then Inr ''rq-new''
       else Inl ''yaml: cannot marshal'')\<rparr>"

definition sample_fs :: "string \<Rightarrow> fs" where
  "sample_fs c = \<lparr>files = [''a.yaml'' \<mapsto> c], read_fault = \<lambda>_. None, write_fault = \<lambda>_. None\<rparr>"

definition up_to :: "int \<Rightarrow> node_scaling" where
  "up_to m = \<lparr>ns_Enabled = True, MinNodes = 1, MaxNodes = m, NodeFlavor = [],
     ScaleUpCooldownSeconds = 0, ScaleUpThreshold = 0\<rparr>"

lemma up_to_max [simp]: "MaxNodes (up_to m) = m"
  by (simp add: up_to_def)

lemma doc_simps [simp]:
  "md_doc n ''kind'' = Some (YStr ''MachineDeployment'')"
  "md_doc n ''spec'' = Some (YMap [''replicas'' \<mapsto> YInt n])"
  "rq_doc h ''kind'' = Some (YStr ''ResourceQuota'')"
  "rq_doc h ''spec'' = Some (YMap [''hard'' \<mapsto> h])"
  "map_option decoded \<circ> md_doc n = md_doc n"
  "map_option decoded \<circ> rq_doc h = rq_doc (decoded h)"
  by (auto simp: md_doc_def rq_doc_def fun_eq_iff)

lemma doc_eq [simp]:
  "md_doc m = md_doc n \<longleftrightarrow> m = n"
  "rq_doc h \<noteq> md_doc n" "md_doc n \<noteq> rq_doc h"
  "rq_doc h = rq_doc k \<longleftrightarrow> h = k"
proof -
  have "md_doc m ''spec'' = md_doc n ''spec'' \<longleftrightarrow> m = n" by (auto dest: map_upd_eqD1)
  then show "md_doc m = md_doc n \<longleftrightarrow> m = n" by metis
  have "rq_doc h ''kind'' \<noteq> md_doc n ''kind''" by simp
  then show "rq_doc h \<noteq> md_doc n" "md_doc n \<noteq> rq_doc h" by metis+
  have "rq_doc h ''spec'' = rq_doc k ''spec'' \<longleftrightarrow> h = k" by (auto dest: map_upd_eqD1)
  then show "rq_doc h = rq_doc k \<longleftrightarrow> h = k" by metis
qed

lemma sample_yaml_laws: "yaml_laws sample_yaml"
  by (auto simp: yaml_laws_def sample_yaml_def fun_eq_iff[of "map_option YStr \<circ> _"] split: if_splits)

lemma sample_manifests [simp]:
  "manifest_of sample_yaml ''a.yaml'' (sample_fs ''md2'') = Some (md_doc 2, [''replicas'' \<mapsto> YInt 2])"
  "manifest_of sample_yaml ''a.yaml'' (sample_fs ''md3'') = Some (md_doc 3, [''replicas'' \<mapsto> YInt 3])"
  "manifest_of sample_yaml ''a.yaml'' (sample_fs ''rq-old'') = Some (rq_doc YNull, [''hard'' \<mapsto> YNull])"
  by (simp_all add: manifest_of_def parse_manifest_def ReadFile_def sample_fs_def sample_yaml_def
      as_string_def as_map_def isSupportedKind_def)

lemma md_doc_upd [simp]: "(md_doc n)(''spec'' \<mapsto> YMap [''replicas'' \<mapsto> YInt m]) = md_doc m"
  by (simp add: md_doc_def)

lemma rq_doc_upd [simp]: "(rq_doc h)(''spec'' \<mapsto> YMap [''hard'' \<mapsto> k]) = rq_doc k"
  by (simp add: rq_doc_def)

lemma sample_writes:
  "WriteFile ''a.yaml'' c (sample_fs d) = (None, sample_fs c)"
  by (simp add: WriteFile_def sample_fs_def)

lemma sample_up:
  "UpdateResourceReplicasMachineDeployment sample_yaml (up_to 5) ''a.yaml'' (sample_fs ''md2'') =
     (None, sample_fs ''md3'')"
  "UpdateResourceReplicasMachineDeployment sample_yaml (up_to 0) ''a.yaml'' (sample_fs ''md3'') =
     (None, sample_fs ''md0'')"
proof -
  have r: "ReadFile ''a.yaml'' (sample_fs c) = Inr c" for c by (simp add: ReadFile_def sample_fs_def)
  have p: "parse_manifest sample_yaml ''a.yaml'' ''md2'' = Inr (md_doc 2, [''replicas'' \<mapsto> YInt 2])"
    "parse_manifest sample_yaml ''a.yaml'' ''md3'' = Inr (md_doc 3, [''replicas'' \<mapsto> YInt 3])"
    by (simp_all add: parse_manifest_def sample_yaml_def as_string_def as_map_def isSupportedKind_def)
  have m: "MarshalDoc sample_yaml (md_doc 3) = Inr ''md3''" "MarshalDoc sample_yaml (md_doc 0) = Inr ''md0''"
    by (simp_all add: sample_yaml_def)
  show "UpdateResourceReplicasMachineDeployment sample_yaml (up_to 5) ''a.yaml'' (sample_fs ''md2'') =
     (None, sample_fs ''md3'')"
    by (simp add: UpdateResourceReplicasMachineDeployment_def r p write_manifest_def m sample_writes
        add64_def in64_def)
  show "UpdateResourceReplicasMachineDeployment sample_yaml (up_to 0) ''a.yaml'' (sample_fs ''md3'') =
     (None, sample_fs ''md0'')"
    by (simp add: UpdateResourceReplicasMachineDeployment_def r p write_manifest_def m sample_writes
        add64_def in64_def)
qed

theorem deployment_scaled_exactly_witness:
  "manifest_of sample_yaml ''a.yaml'' (snd (UpdateResourceReplicasMachineDeployment sample_yaml (up_to 5)
     ''a.yaml'' (sample_fs ''md2''))) = Some (md_doc 3, [''replicas'' \<mapsto> YInt 3])"
  using deployment_scaled_exactly[OF sample_yaml_laws sample_manifests(1) _ _ _ _ sample_up(1), of 2]
  by (simp add: sample_up in64_def Let_def)

theorem no_max_nodes_scales_to_zero_witness:
  "\<exists>doc' spec'. manifest_of sample_yaml ''a.yaml'' (snd (UpdateResourceReplicasMachineDeployment sample_yaml
     (up_to 0) ''a.yaml'' (sample_fs ''md3''))) = Some (doc', spec') \<and> spec' ''replicas'' = Some (YInt 0)"
  using no_max_nodes_scales_to_zero[OF sample_yaml_laws sample_manifests(2) _ _ _ _ sample_up(2), of 3]
  by (simp add: sample_up)

definition one_core :: "unit resource_quota" where
  "one_core = \<lparr>rq_Meta = \<lparr>Name = ''rq'', Namespace = ''ns'', Labels = Map.empty, Annotations = Map.empty,
       Generation = 1\<rparr>, SpecHard = Some [''limits.cpu'' \<mapsto> ()], StatusHard = Map.empty, StatusUsed = Map.empty\<rparr>"

lemma one_core_hard: "(\<lambda>k. map_option f (mget (SpecHard one_core) k)) = [''limits.cpu'' \<mapsto> f ()]"
  by (auto simp: one_core_def)

lemma sample_quota_update:
  "UpdateResourceQuota sample_yaml (\<lambda>_. ''1'') one_core ''a.yaml'' (sample_fs ''rq-old'') =
     (None, sample_fs ''rq-new'')"
  by (simp add: UpdateResourceQuota_def one_core_hard ReadFile_def parse_manifest_def sample_fs_def
      sample_yaml_def as_string_def as_map_def isSupportedKind_def write_manifest_def WriteFile_def)

theorem quota_manifest_updated_witness:
  "map_option (\<lambda>(_, spec). spec ''hard'') (manifest_of sample_yaml ''a.yaml''
     (snd (UpdateResourceQuota sample_yaml (\<lambda>_. ''1'') one_core ''a.yaml'' (sample_fs ''rq-old'')))) =
   Some (Some (YMap [''limits.cpu'' \<mapsto> YStr ''1'']))"
  using quota_manifest_updated[OF sample_yaml_laws sample_manifests(3) sample_quota_update]
  by (simp add: sample_quota_update one_core_hard Let_def)

end
