(* ===== verification/Repo_Scan.thy ===== *)
theory Repo_Scan imports Manifests Scale_Triggers begin

text \<open>
  The search of reconcilers/git/gitea.go over a cloned repository, as it is written twice
  in CheckRepoForMatchingResourceQuotaManifests and
  CheckRepoForMatchingClusterAPIManifestsMgmt: a goroutine that walks the tree, one worker
  per CPU, a closing goroutine and the collecting loop, joined by buffered channels. The
  two functions differ only in the condition on a decoded document, here \<open>wanted\<close>.
\<close>

section \<open>What is searched\<close>

record header =
  h_Kind :: string
  h_Name :: string
  h_Namespace :: string

text \<open>An entry of filepath.WalkDir as the callback sees it.\<close>

datatype entry = WalkError string | Directory string | Regular string

text \<open>
  The YAML decoder turns a text into the headers of its documents, up to the end of the
  text or a decoding error. The clone does not change during the search.
\<close>

record scan_cfg =
  wanted :: "header \<Rightarrow> bool"
  decode_stream :: "string \<Rightarrow> header list \<times> string option"
  tree :: fs
  walk :: "entry list"
  workerCount :: nat

text \<open>filepath.Ext: from the last dot of the last path element.\<close>

definition Ext :: "string \<Rightarrow> string" where
  "Ext p = (let r = rev p; t = takeWhile (\<lambda>c. c \<noteq> CHR ''.'' \<and> c \<noteq> CHR ''/'') r
     in if length t < length r \<and> r ! length t = CHR ''.'' then CHR ''.'' # rev t else [])"

definition is_yaml :: "string \<Rightarrow> bool" where
  "is_yaml p \<longleftrightarrow> (let ext = ToLower (Ext p) in ext = ''.yaml'' \<or> ext = ''.yml'')"

text \<open>The two conditions.\<close>

definition default_ns :: "string \<Rightarrow> string" where
  "default_ns ns = (if ns = [] then ''default'' else ns)"

definition wants_quota :: "string \<Rightarrow> 'q resource_quota \<Rightarrow> header \<Rightarrow> bool" where
  "wants_quota kind rq obj \<longleftrightarrow>
     h_Kind obj = kind \<and> h_Name obj = Name (rq_Meta rq) \<and>
     default_ns (h_Namespace obj) = default_ns (Namespace (rq_Meta rq))"

definition wants_deployment :: "namespace_quota \<Rightarrow> header \<Rightarrow> bool" where
  "wants_deployment nsq obj \<longleftrightarrow>
     h_Kind obj = ''MachineDeployment'' \<and> h_Name obj = cr_Name (ClusterRef (nsq_Spec nsq)) @ ''-md-0''"

section \<open>State and steps\<close>

text \<open>
  A worker waits for a path, has taken one, or decodes: then the headers it has yet to
  look at are known, and the error that will end them, if any.
\<close>

datatype worker =
    Idle
  | Taken string
  | Scanning string "header list" "string option"
  | Exited

datatype outcome = Cancelled | Failed string | Found "string list"

text \<open>
  fileCh and matchCh hold 100 paths, errCh one error. done is closed after matchCh.
  \<open>panicked\<close> records a send on a closed channel.
\<close>

record scan =
  todo :: "entry list"
  fileCh :: "string list"
  file_closed :: bool
  workers :: "worker list"
  matchCh :: "string list"
  match_closed :: bool
  done_closed :: bool
  errCh :: "string option"
  cancelled :: bool
  matchingFiles :: "string list"
  outcome :: "outcome option"
  panicked :: bool

definition scan_init :: "scan_cfg \<Rightarrow> scan" where
  "scan_init c = \<lparr>todo = walk c, fileCh = [], file_closed = False,
     workers = replicate (workerCount c) Idle, matchCh = [], match_closed = False,
     done_closed = False, errCh = None, cancelled = False, matchingFiles = [],
     outcome = None, panicked = False\<rparr>"

text \<open>The sends to errCh have a default: an error finding the channel full is dropped.\<close>

definition offer :: "string \<Rightarrow> scan \<Rightarrow> scan" where
  "offer e s = (case errCh s of None \<Rightarrow> s\<lparr>errCh := Some e\<rparr> | Some _ \<Rightarrow> s)"

definition set_worker :: "nat \<Rightarrow> worker \<Rightarrow> scan \<Rightarrow> scan" where
  "set_worker i w s = s\<lparr>workers := (workers s)[i := w]\<rparr>"

text \<open>The walking goroutine; WalkDir stops at an error, and fileCh is closed at the end.\<close>

definition walker_next :: "scan \<Rightarrow> scan option" where
  "walker_next s = (case todo s of
     [] \<Rightarrow> if file_closed s then None else Some (s\<lparr>file_closed := True\<rparr>)
   | WalkError e # _ \<Rightarrow> Some (offer e (s\<lparr>todo := []\<rparr>))
   | Directory _ # es \<Rightarrow> Some (s\<lparr>todo := es\<rparr>)
   | Regular p # es \<Rightarrow>
       if \<not> is_yaml p then Some (s\<lparr>todo := es\<rparr>)
       else if file_closed s then Some (s\<lparr>panicked := True, todo := es\<rparr>)
       else if length (fileCh s) < 100 then Some (s\<lparr>todo := es, fileCh := fileCh s @ [p]\<rparr>)
       else None)"

definition worker_next :: "scan_cfg \<Rightarrow> nat \<Rightarrow> scan \<Rightarrow> scan option" where
  "worker_next c i s =
     (if length (workers s) \<le> i then None
      else case workers s ! i of
        Idle \<Rightarrow> (case fileCh s of
            p # ps \<Rightarrow> Some (set_worker i (Taken p) (s\<lparr>fileCh := ps\<rparr>))
          | [] \<Rightarrow> if file_closed s then Some (set_worker i Exited s) else None)
      | Taken p \<Rightarrow>
          if cancelled s then Some (set_worker i Exited s)
          else (case ReadFile p (tree c) of
              Inl e \<Rightarrow> Some (set_worker i Exited (offer e s))
            | Inr data \<Rightarrow> (case decode_stream c data of (hs, e) \<Rightarrow> Some (set_worker i (Scanning p hs e) s)))
      | Scanning p [] None \<Rightarrow> Some (set_worker i Idle s)
      | Scanning p [] (Some e) \<Rightarrow> Some (set_worker i Exited (offer e s))
      | Scanning p (h # hs) e \<Rightarrow>
          if \<not> wanted c h then Some (set_worker i (Scanning p hs e) s)
          else if match_closed s then Some (set_worker i (Scanning p hs e) (s\<lparr>panicked := True\<rparr>))
          else if length (matchCh s) < 100
            then Some (set_worker i (Scanning p hs e) (s\<lparr>matchCh := matchCh s @ [p]\<rparr>))
          else None
      | Exited \<Rightarrow> None)"

text \<open>The closing goroutine: wg.Wait, then the two closes.\<close>

definition closer_next :: "scan \<Rightarrow> scan option" where
  "closer_next s =
     (if \<not> list_all (\<lambda>w. w = Exited) (workers s) then None
      else if \<not> match_closed s then Some (s\<lparr>match_closed := True\<rparr>)
      else if \<not> done_closed s then Some (s\<lparr>done_closed := True\<rparr>)
      else None)"

text \<open>The collecting loop: any ready case of the select may be taken.\<close>

datatype ready = OnCancel | OnErr | OnMatch | OnDone

definition main_next :: "ready \<Rightarrow> scan \<Rightarrow> scan option" where
  "main_next r s =
     (if outcome s \<noteq> None then None
      else case r of
        OnCancel \<Rightarrow> if cancelled s then Some (s\<lparr>outcome := Some Cancelled\<rparr>) else None
      | OnErr \<Rightarrow> (case errCh s of
            None \<Rightarrow> None
          | Some e \<Rightarrow> Some (s\<lparr>errCh := None, outcome := Some (Failed e)\<rparr>))
      | OnMatch \<Rightarrow> (case matchCh s of
            p # ps \<Rightarrow> Some (s\<lparr>matchCh := ps, matchingFiles := matchingFiles s @ [p]\<rparr>)
          | [] \<Rightarrow> if match_closed s then Some (s\<lparr>outcome := Some (Found (matchingFiles s))\<rparr>) else None)
      | OnDone \<Rightarrow> if done_closed s then Some (s\<lparr>outcome := Some (Found (matchingFiles s))\<rparr>) else None)"

datatype mover = Walker | Worker nat | Closer | Main ready | Cancel

definition scan_next :: "scan_cfg \<Rightarrow> mover \<Rightarrow> scan \<Rightarrow> scan option" where
  "scan_next c m s = (case m of
     Walker \<Rightarrow> walker_next s
   | Worker i \<Rightarrow> worker_next c i s
   | Closer \<Rightarrow> closer_next s
   | Main r \<Rightarrow> main_next r s
   | Cancel \<Rightarrow> if cancelled s then None else Some (s\<lparr>cancelled := True\<rparr>))"

inductive scan_step :: "scan_cfg \<Rightarrow> scan \<Rightarrow> scan \<Rightarrow> bool" for c where
  move: "scan_next c m s = Some s' \<Longrightarrow> scan_step c s s'"

text \<open>A schedule; moves that cannot be made are skipped.\<close>

primrec scan_run :: "scan_cfg \<Rightarrow> mover list \<Rightarrow> scan \<Rightarrow> scan" where
  "scan_run c [] s = s"
| "scan_run c (m # ms) s = scan_run c ms (case scan_next c m s of None \<Rightarrow> s | Some s' \<Rightarrow> s')"

lemma scan_run_reaches: "(scan_step c)\<^sup>*\<^sup>* s (scan_run c ms s)"
proof (induction ms arbitrary: s)
  case (Cons m ms)
  show ?case
  proof (cases "scan_next c m s")
    case (Some s')
    then show ?thesis using Cons[of s'] by (auto intro: converse_rtranclp_into_rtranclp move)
  qed (use Cons in simp)
qed simp

section \<open>The moves\<close>

text \<open>
  Every move, as the change it makes. A worker's move goes from one worker state to
  another; the rest of the change is given with it.
\<close>

inductive worker_move :: "scan_cfg \<Rightarrow> scan \<Rightarrow> worker \<Rightarrow> scan \<Rightarrow> worker \<Rightarrow> bool" for c s where
  take: "fileCh s = p # ps \<Longrightarrow> worker_move c s Idle (s\<lparr>fileCh := ps\<rparr>) (Taken p)"
| idle_exit: "fileCh s = [] \<Longrightarrow> file_closed s \<Longrightarrow> worker_move c s Idle s Exited"
| cancel_exit: "cancelled s \<Longrightarrow> worker_move c s (Taken p) s Exited"
| read_error: "ReadFile p (tree c) = Inl e \<Longrightarrow> worker_move c s (Taken p) (offer e s) Exited"
| open_file: "\<not> cancelled s \<Longrightarrow> ReadFile p (tree c) = Inr d \<Longrightarrow> decode_stream c d = (hs, e) \<Longrightarrow>
    worker_move c s (Taken p) s (Scanning p hs e)"
| end_of_file: "worker_move c s (Scanning p [] None) s Idle"
| decode_error: "worker_move c s (Scanning p [] (Some e)) (offer e s) Exited"
| skip: "\<not> wanted c h \<Longrightarrow> worker_move c s (Scanning p (h # hs) e) s (Scanning p hs e)"
| send_closed: "wanted c h \<Longrightarrow> match_closed s \<Longrightarrow>
    worker_move c s (Scanning p (h # hs) e) (s\<lparr>panicked := True\<rparr>) (Scanning p hs e)"
| send: "wanted c h \<Longrightarrow> \<not> match_closed s \<Longrightarrow> length (matchCh s) < 100 \<Longrightarrow>
    worker_move c s (Scanning p (h # hs) e) (s\<lparr>matchCh := matchCh s @ [p]\<rparr>) (Scanning p hs e)"

lemma worker_next_move:
  assumes "worker_next c i s = Some s'"
  obtains t w where "i < length (workers s)" and "worker_move c s (workers s ! i) t w"
    and "s' = set_worker i w t"
  using assms
  by (cases "workers s ! i")
     (auto simp: worker_next_def split: if_splits list.splits option.splits sum.splits prod.splits
      intro: worker_move.intros)

lemma worker_move_keeps:
  assumes "worker_move c s v t w"
  shows "workers t = workers s" "todo t = todo s" "file_closed t = file_closed s"
    "match_closed t = match_closed s" "done_closed t = done_closed s" "cancelled t = cancelled s"
    "matchingFiles t = matchingFiles s" "outcome t = outcome s"
  using assms by (cases; simp add: offer_def split: option.split)+

lemma offer_keeps [simp]:
  "todo (offer e s) = todo s" "fileCh (offer e s) = fileCh s" "file_closed (offer e s) = file_closed s"
  "workers (offer e s) = workers s" "matchCh (offer e s) = matchCh s"
  "match_closed (offer e s) = match_closed s" "done_closed (offer e s) = done_closed s"
  "cancelled (offer e s) = cancelled s" "matchingFiles (offer e s) = matchingFiles s"
  "outcome (offer e s) = outcome s" "panicked (offer e s) = panicked s"
  by (simp_all add: offer_def split: option.split)

lemma set_worker_keeps [simp]:
  "todo (set_worker i w s) = todo s" "fileCh (set_worker i w s) = fileCh s"
  "file_closed (set_worker i w s) = file_closed s" "workers (set_worker i w s) = (workers s)[i := w]"
  "matchCh (set_worker i w s) = matchCh s" "match_closed (set_worker i w s) = match_closed s"
  "done_closed (set_worker i w s) = done_closed s" "errCh (set_worker i w s) = errCh s"
  "cancelled (set_worker i w s) = cancelled s" "matchingFiles (set_worker i w s) = matchingFiles s"
  "outcome (set_worker i w s) = outcome s" "panicked (set_worker i w s) = panicked s"
  by (simp_all add: set_worker_def)

lemma scan_nextE:
  assumes "scan_next c m s = Some s'"
  obtains (walk_end) "todo s = []" "\<not> file_closed s" "s' = s\<lparr>file_closed := True\<rparr>"
    | (walk_error) e es where "todo s = WalkError e # es" "s' = offer e (s\<lparr>todo := []\<rparr>)"
    | (walk_dir) d es where "todo s = Directory d # es" "s' = s\<lparr>todo := es\<rparr>"
    | (walk_other) p es where "todo s = Regular p # es" "\<not> is_yaml p" "s' = s\<lparr>todo := es\<rparr>"
    | (walk_closed) p es where "todo s = Regular p # es" "is_yaml p" "file_closed s"
        "s' = s\<lparr>panicked := True, todo := es\<rparr>"
    | (walk_file) p es where "todo s = Regular p # es" "is_yaml p" "\<not> file_closed s"
        "length (fileCh s) < 100" "s' = s\<lparr>todo := es, fileCh := fileCh s @ [p]\<rparr>"
    | (worker) i t w where "i < length (workers s)" "worker_move c s (workers s ! i) t w"
        "s' = set_worker i w t"
    | (close) "list_all (\<lambda>w. w = Exited) (workers s)" "\<not> match_closed s" "s' = s\<lparr>match_closed := True\<rparr>"
    | (close_done) "match_closed s" "\<not> done_closed s" "s' = s\<lparr>done_closed := True\<rparr>"
    | (on_cancel) "outcome s = None" "cancelled s" "s' = s\<lparr>outcome := Some Cancelled\<rparr>"
    | (on_err) e where "outcome s = None" "errCh s = Some e"
        "s' = s\<lparr>errCh := None, outcome := Some (Failed e)\<rparr>"
    | (on_match) p ps where "outcome s = None" "matchCh s = p # ps"
        "s' = s\<lparr>matchCh := ps, matchingFiles := matchingFiles s @ [p]\<rparr>"
    | (on_closed) "outcome s = None" "matchCh s = []" "match_closed s"
        "s' = s\<lparr>outcome := Some (Found (matchingFiles s))\<rparr>"
    | (on_done) "outcome s = None" "done_closed s" "s' = s\<lparr>outcome := Some (Found (matchingFiles s))\<rparr>"
    | (cancel) "\<not> cancelled s" "s' = s\<lparr>cancelled := True\<rparr>"
proof (cases m)
  case Walker
  with assms show ?thesis
    by (auto simp: scan_next_def walker_next_def split: list.splits entry.splits if_splits intro: that(1-6))
next
  case (Worker i)
  with assms have "worker_next c i s = Some s'" by (simp add: scan_next_def)
  then show ?thesis by (rule worker_next_move) (rule that(7))
next
  case Closer
  with assms show ?thesis
    by (auto simp: scan_next_def closer_next_def split: if_splits intro: that(8,9))
next
  case (Main r)
  with assms show ?thesis
    by (cases r)
       (auto simp: scan_next_def main_next_def split: if_splits list.splits option.splits intro: that(10-14))
next
  case Cancel
  with assms show ?thesis by (auto simp: scan_next_def split: if_splits intro: that(15))
qed

section \<open>Channels are used safely\<close>

definition scan_ok :: "scan_cfg \<Rightarrow> scan \<Rightarrow> bool" where
  "scan_ok c s \<longleftrightarrow> length (workers s) = workerCount c \<and>
     (file_closed s \<longrightarrow> todo s = []) \<and>
     (match_closed s \<longrightarrow> list_all (\<lambda>w. w = Exited) (workers s)) \<and>
     (done_closed s \<longrightarrow> match_closed s) \<and> \<not> panicked s \<and>
     (\<forall>ms. outcome s = Some (Found ms) \<longrightarrow> ms = matchingFiles s \<and> match_closed s)"

lemma scan_ok_init: "scan_ok c (scan_init c)"
  by (simp add: scan_ok_def scan_init_def)

lemma worker_move_alive: "worker_move c s v t w \<Longrightarrow> v \<noteq> Exited"
  by (cases rule: worker_move.cases) auto

lemma worker_move_panicked:
  "worker_move c s v t w \<Longrightarrow> \<not> match_closed s \<Longrightarrow> panicked t = panicked s"
  by (cases rule: worker_move.cases) auto

lemma scan_ok_step:
  assumes "scan_step c s s'" and ok: "scan_ok c s"
  shows "scan_ok c s'"
proof -
  from assms(1) obtain m where "scan_next c m s = Some s'" by cases
  then show ?thesis
  proof (cases rule: scan_nextE)
    case (worker i t w)
    have alive: "workers s ! i \<noteq> Exited" using worker(2) by (rule worker_move_alive)
    then have "\<not> match_closed s" using ok worker(1) by (auto simp: scan_ok_def list_all_length)
    with ok worker(3) worker_move_keeps[OF worker(2)] worker_move_panicked[OF worker(2)] show ?thesis
      by (auto simp: scan_ok_def)
  qed (use ok in \<open>auto simp: scan_ok_def\<close>)
qed

lemma scan_ok_reachable: "(scan_step c)\<^sup>*\<^sup>* (scan_init c) s \<Longrightarrow> scan_ok c s"
  by (induction rule: rtranclp_induct) (auto intro: scan_ok_init scan_ok_step)

section \<open>Accounting for the matches\<close>

text \<open>The matches a file, a walk, a worker and a whole state still hold or have given.\<close>

definition matches_in :: "scan_cfg \<Rightarrow> string \<Rightarrow> header list \<Rightarrow> string multiset" where
  "matches_in c p hs = replicate_mset (length (filter (wanted c) hs)) p"

definition file_matches :: "scan_cfg \<Rightarrow> string \<Rightarrow> string multiset" where
  "file_matches c p = (case ReadFile p (tree c) of
     Inl _ \<Rightarrow> {#} | Inr d \<Rightarrow> matches_in c p (fst (decode_stream c d)))"

primrec walk_matches :: "scan_cfg \<Rightarrow> entry list \<Rightarrow> string multiset" where
  "walk_matches c [] = {#}"
| "walk_matches c (x # es) = (case x of
     WalkError _ \<Rightarrow> {#}
   | Directory _ \<Rightarrow> walk_matches c es
   | Regular p \<Rightarrow> (if is_yaml p then file_matches c p else {#}) + walk_matches c es)"

fun held :: "scan_cfg \<Rightarrow> worker \<Rightarrow> string multiset" where
  "held c (Taken p) = file_matches c p"
| "held c (Scanning p hs e) = matches_in c p hs"
| "held c _ = {#}"

definition total :: "scan_cfg \<Rightarrow> scan \<Rightarrow> string multiset" where
  "total c s = walk_matches c (todo s) + (\<Sum>p\<leftarrow>fileCh s. file_matches c p) +
     (\<Sum>w\<leftarrow>workers s. held c w) + mset (matchCh s) + mset (matchingFiles s)"

lemma sum_list_held_update:
  "i < length ws \<Longrightarrow> (\<Sum>w\<leftarrow>ws[i := w']. held c w) + held c (ws ! i) = (\<Sum>w\<leftarrow>ws. held c w) + held c w'"
proof (induction ws arbitrary: i)
  case (Cons w ws)
  show ?case
  proof (cases i)
    case (Suc j)
    with Cons.prems Cons.IH[of j] show ?thesis by (simp add: ac_simps)
  qed (simp add: ac_simps)
qed simp

lemma total_worker:
  assumes i: "i < length (workers s)" and t: "workers t = workers s" "todo t = todo s"
    "matchingFiles t = matchingFiles s"
  shows "total c (set_worker i w t) + ((\<Sum>p\<leftarrow>fileCh s. file_matches c p) + mset (matchCh s) + held c (workers s ! i)) =
    total c s + ((\<Sum>p\<leftarrow>fileCh t. file_matches c p) + mset (matchCh t) + held c w)"
  using sum_list_held_update[OF i, of c w] t by (simp add: total_def ac_simps)

text \<open>A worker loses what it holds only when it exits early.\<close>

lemma worker_move_total:
  assumes "worker_move c s v t w" "\<not> panicked t"
  shows "(\<Sum>p\<leftarrow>fileCh t. file_matches c p) + mset (matchCh t) + held c w \<subseteq>#
      (\<Sum>p\<leftarrow>fileCh s. file_matches c p) + mset (matchCh s) + held c v"
    and "w \<noteq> Exited \<Longrightarrow> (\<Sum>p\<leftarrow>fileCh t. file_matches c p) + mset (matchCh t) + held c w =
      (\<Sum>p\<leftarrow>fileCh s. file_matches c p) + mset (matchCh s) + held c v"
  using assms by (cases; simp add: file_matches_def matches_in_def ac_simps)+

text \<open>Nothing is ever found that is not there.\<close>

lemma total_step:
  assumes "scan_step c s s'" and ok: "scan_ok c s"
  shows "total c s' \<subseteq># total c s"
proof -
  have "\<not> panicked s'" using scan_ok_step[OF assms] by (simp add: scan_ok_def)
  from assms(1) obtain m where "scan_next c m s = Some s'" by cases
  then show ?thesis
  proof (cases rule: scan_nextE)
    case (worker i t w)
    then have "\<not> panicked t" using \<open>\<not> panicked s'\<close> by simp
    let ?old = "(\<Sum>p\<leftarrow>fileCh s. file_matches c p) + mset (matchCh s) + held c (workers s ! i)"
    let ?new = "(\<Sum>p\<leftarrow>fileCh t. file_matches c p) + mset (matchCh t) + held c w"
    have "total c s' + ?old = total c s + ?new"
      unfolding worker(3) using worker(1) by (rule total_worker) (rule worker_move_keeps[OF worker(2)])+
    moreover have "?new \<subseteq># ?old" by (rule worker_move_total(1)[OF worker(2) \<open>\<not> panicked t\<close>])
    ultimately have "total c s' + ?old \<subseteq># total c s + ?old" by simp
    then show ?thesis by simp
  qed (auto simp: total_def ac_simps)
qed

lemma total_reachable:
  assumes "(scan_step c)\<^sup>*\<^sup>* (scan_init c) s"
  shows "total c s \<subseteq># walk_matches c (walk c)"
  using assms
proof induction
  case base
  have "(\<Sum>w\<leftarrow>replicate n Idle. held c w) = {#}" for n by (induction n) simp_all
  then show ?case by (simp add: total_def scan_init_def)
next
  case (step s s')
  then show ?case using total_step scan_ok_reachable subset_mset.order_trans by blast
qed

text \<open>
  In a repository without faults (no walk error, every YAML file readable and well formed)
  and without cancellation no worker stops early, so nothing gets lost.
\<close>

definition good_file :: "scan_cfg \<Rightarrow> string \<Rightarrow> bool" where
  "good_file c p \<longleftrightarrow> (\<exists>d hs. ReadFile p (tree c) = Inr d \<and> decode_stream c d = (hs, None))"

fun good_entry :: "scan_cfg \<Rightarrow> entry \<Rightarrow> bool" where
  "good_entry c (WalkError _) = False"
| "good_entry c (Directory _) = True"
| "good_entry c (Regular p) = (\<not> is_yaml p \<or> good_file c p)"

definition faultless :: "scan_cfg \<Rightarrow> bool" where
  "faultless c \<longleftrightarrow> list_all (good_entry c) (walk c)"

fun good_worker :: "scan_cfg \<Rightarrow> bool \<Rightarrow> worker \<Rightarrow> bool" where
  "good_worker c over Idle = True"
| "good_worker c over (Taken p) = good_file c p"
| "good_worker c over (Scanning p hs e) = (e = None)"
| "good_worker c over Exited = over"

definition calm :: "scan_cfg \<Rightarrow> scan \<Rightarrow> bool" where
  "calm c s \<longleftrightarrow> list_all (good_entry c) (todo s) \<and> list_all (good_file c) (fileCh s) \<and>
     list_all (good_worker c (file_closed s \<and> fileCh s = [])) (workers s) \<and> errCh s = None \<and>
     (\<forall>e. outcome s \<noteq> Some (Failed e)) \<and> total c s = walk_matches c (walk c)"

lemma worker_move_good:
  assumes "worker_move c s v t w" "\<not> cancelled s" "good_worker c (file_closed s \<and> fileCh s = []) v"
    "list_all (good_file c) (fileCh s)"
  shows "good_worker c (file_closed t \<and> fileCh t = []) w" "errCh t = errCh s"
    "list_all (good_file c) (fileCh t)" "fileCh s = [] \<Longrightarrow> fileCh t = []"
    "w = Exited \<Longrightarrow> t = s \<and> v = Idle"
proof -
  show "good_worker c (file_closed t \<and> fileCh t = []) w"
    using assms by cases (auto simp: good_file_def)
  show "errCh t = errCh s"
    using assms(1-3) by cases (auto simp: good_file_def)
  show "list_all (good_file c) (fileCh t)"
    using assms(1,4) by cases auto
  show "fileCh s = [] \<Longrightarrow> fileCh t = []"
    using assms(1) by cases auto
  show "w = Exited \<Longrightarrow> t = s \<and> v = Idle"
    using assms(1-3) by cases (auto simp: good_file_def)
qed

lemma list_all_update: "list_all P xs \<Longrightarrow> P y \<Longrightarrow> list_all P (xs[i := y])"
  by (auto simp: list_all_iff dest!: subsetD[OF set_update_subset_insert])

lemma good_worker_mono: "good_worker c a w \<Longrightarrow> (a \<Longrightarrow> b) \<Longrightarrow> good_worker c b w"
  by (cases w) auto

lemma calm_step:
  assumes st: "scan_step c s s'" and ok: "scan_ok c s" and nc: "\<not> cancelled s'" and cs: "calm c s"
  shows "calm c s'"
proof -
  have np: "\<not> panicked s'" using scan_ok_step[OF st ok] by (simp add: scan_ok_def)
  from st obtain m where "scan_next c m s = Some s'" by cases
  then show ?thesis
  proof (cases rule: scan_nextE)
    case (worker i t w)
    have "\<not> cancelled s" using nc worker(3) worker_move_keeps(6)[OF worker(2)] by simp
    have g: "good_worker c (file_closed s \<and> fileCh s = []) (workers s ! i)"
      using cs worker(1) by (simp add: calm_def list_all_length)
    have "list_all (good_file c) (fileCh s)" using cs by (simp add: calm_def)
    note good = worker_move_good[OF worker(2) \<open>\<not> cancelled s\<close> g this]
    let ?old = "(\<Sum>p\<leftarrow>fileCh s. file_matches c p) + mset (matchCh s) + held c (workers s ! i)"
    let ?new = "(\<Sum>p\<leftarrow>fileCh t. file_matches c p) + mset (matchCh t) + held c w"
    have "\<not> panicked t" using np worker(3) by simp
    then have "?new = ?old"
      using worker_move_total(2)[OF worker(2)] good(5) by (cases "w = Exited") auto
    moreover have "total c s' + ?old = total c s + ?new"
      unfolding worker(3) using worker(1) by (rule total_worker) (rule worker_move_keeps[OF worker(2)])+
    ultimately have "total c s' = total c s" by simp
    moreover have "list_all (good_worker c (file_closed t \<and> fileCh t = [])) (workers s)"
      using cs good(4) worker_move_keeps(3)[OF worker(2)]
      by (auto simp: calm_def elim!: list.pred_mono_strong intro: good_worker_mono)
    then have "list_all (good_worker c (file_closed t \<and> fileCh t = [])) ((workers s)[i := w])"
      using good(1) by (rule list_all_update)
    ultimately show ?thesis
      using cs good worker_move_keeps[OF worker(2)] worker(3) by (simp add: calm_def)
  qed (use cs nc ok in \<open>auto simp: calm_def total_def scan_ok_def list_all_iff ac_simps
        intro: good_worker_mono\<close>)
qed

lemma calm_reachable:
  assumes f: "faultless c" and r: "(scan_step c)\<^sup>*\<^sup>* (scan_init c) s" and nc: "\<not> cancelled s"
  shows "calm c s"
  using r nc
proof induction
  case base
  have "(\<Sum>w\<leftarrow>replicate n Idle. held c w) = {#}" for n by (induction n) simp_all
  with f show ?case by (simp add: calm_def scan_init_def faultless_def total_def list_all_length)
next
  case (step s s')
  from step(2) obtain m where "scan_next c m s = Some s'" by cases
  then have "cancelled s \<Longrightarrow> cancelled s'"
    by (cases rule: scan_nextE) (auto dest: worker_move_keeps(6))
  with step have "calm c s" by blast
  with step scan_ok_reachable[OF step(1)] show ?case by (blast intro: calm_step)
qed

section \<open>The search ends\<close>

definition file_cost :: "scan_cfg \<Rightarrow> string \<Rightarrow> nat" where
  "file_cost c p = (case ReadFile p (tree c) of
     Inl _ \<Rightarrow> 0 | Inr d \<Rightarrow> 2 * length (fst (decode_stream c d)))"

fun entry_cost :: "scan_cfg \<Rightarrow> entry \<Rightarrow> nat" where
  "entry_cost c (Regular p) = 4 + file_cost c p"
| "entry_cost c _ = 1"

fun worker_cost :: "scan_cfg \<Rightarrow> worker \<Rightarrow> nat" where
  "worker_cost c Idle = 1"
| "worker_cost c (Taken p) = 3 + file_cost c p"
| "worker_cost c (Scanning p hs e) = 2 + 2 * length hs"
| "worker_cost c Exited = 0"

definition cost :: "scan_cfg \<Rightarrow> scan \<Rightarrow> nat" where
  "cost c s = (\<Sum>x\<leftarrow>todo s. entry_cost c x) + (\<Sum>p\<leftarrow>fileCh s. 3 + file_cost c p) +
     (\<Sum>w\<leftarrow>workers s. worker_cost c w) + length (matchCh s) +
     of_bool (\<not> file_closed s) + of_bool (\<not> match_closed s) + of_bool (\<not> done_closed s) +
     of_bool (outcome s = None) + of_bool (\<not> cancelled s)"

lemma sum_list_cost_update:
  "i < length ws \<Longrightarrow> (\<Sum>w\<leftarrow>ws[i := w']. worker_cost c w) + worker_cost c (ws ! i) =
     (\<Sum>w\<leftarrow>ws. worker_cost c w) + worker_cost c w'"
proof (induction ws arbitrary: i)
  case (Cons w ws)
  show ?case
  proof (cases i)
    case (Suc j)
    with Cons.prems Cons.IH[of j] show ?thesis by simp
  qed simp
qed simp

lemma worker_move_cost:
  "worker_move c s v t w \<Longrightarrow>
     (\<Sum>p\<leftarrow>fileCh t. 3 + file_cost c p) + length (matchCh t) + worker_cost c w <
     (\<Sum>p\<leftarrow>fileCh s. 3 + file_cost c p) + length (matchCh s) + worker_cost c v"
  by (cases rule: worker_move.cases) (auto simp: file_cost_def)

lemma cost_step:
  assumes "scan_step c s s'"
  shows "cost c s' < cost c s"
proof -
  from assms obtain m where "scan_next c m s = Some s'" by cases
  then show ?thesis
  proof (cases rule: scan_nextE)
    case (worker i t w)
    show ?thesis
      using sum_list_cost_update[OF worker(1), of c w] worker_move_cost[OF worker(2)]
        worker_move_keeps[OF worker(2)] worker(3)
      by (simp add: cost_def)
  qed (auto simp: cost_def)
qed

lemma run_cost: "(scan_step c ^^ k) s s' \<Longrightarrow> k + cost c s' \<le> cost c s"
proof (induction k arbitrary: s')
  case (Suc k)
  then obtain t where t: "(scan_step c ^^ k) s t" "scan_step c t s'" by auto
  from Suc.IH[OF t(1)] cost_step[OF t(2)] show ?case by simp
qed simp

text \<open>Until the collecting loop has returned, somebody can move.\<close>

lemma moves_to_step: "scan_next c m s \<noteq> None \<Longrightarrow> \<exists>s'. scan_step c s s'"
  by (auto intro: move)

lemma walker_moves: "length (fileCh s) < 100 \<Longrightarrow> \<not> file_closed s \<Longrightarrow> walker_next s \<noteq> None"
  by (auto simp: walker_next_def split: list.split entry.split)

lemma worker_moves:
  assumes "i < length (workers s)" "workers s ! i \<noteq> Exited" "matchCh s = []"
    and "workers s ! i \<noteq> Idle \<or> fileCh s \<noteq> [] \<or> file_closed s"
  shows "worker_next c i s \<noteq> None"
  using assms
  by (cases "workers s ! i")
     (auto simp: worker_next_def neq_Nil_conv split: list.split option.split sum.split prod.split)

lemma search_progress:
  assumes ok: "scan_ok c s" and o: "outcome s = None"
  shows "\<exists>s'. scan_step c s s'"
proof (cases "matchCh s")
  case (Cons p ps)
  then have "scan_next c (Main OnMatch) s \<noteq> None" by (simp add: scan_next_def main_next_def o)
  then show ?thesis by (rule moves_to_step)
next
  case Nil
  show ?thesis
  proof (cases "list_all (\<lambda>w. w = Exited) (workers s)")
    case True
    then have "scan_next c Closer s \<noteq> None \<or> scan_next c (Main OnDone) s \<noteq> None"
      by (auto simp: scan_next_def closer_next_def main_next_def o)
    then show ?thesis using moves_to_step by blast
  next
    case False
    then obtain i where i: "i < length (workers s)" "workers s ! i \<noteq> Exited"
      by (auto simp: list_all_length)
    show ?thesis
    proof (cases "fileCh s = [] \<and> \<not> file_closed s")
      case True
      then have "scan_next c Walker s \<noteq> None" using walker_moves[of s] by (simp add: scan_next_def)
      then show ?thesis by (rule moves_to_step)
    next
      case False
      then have "scan_next c (Worker i) s \<noteq> None"
        using worker_moves[OF i Nil, of c] by (auto simp: scan_next_def)
      then show ?thesis by (rule moves_to_step)
    qed
  qed
qed

section \<open>Properties\<close>

text \<open>The paths that hold a wanted document.\<close>

definition matching_paths :: "scan_cfg \<Rightarrow> string set" where
  "matching_paths c = {p. Regular p \<in> set (walk c) \<and> is_yaml p \<and>
     (\<exists>d. ReadFile p (tree c) = Inr d \<and> list_ex (wanted c) (fst (decode_stream c d)))}"

lemma matches_of_paths:
  "p \<in># walk_matches c es \<Longrightarrow> Regular p \<in> set es \<and> is_yaml p \<and>
     (\<exists>d. ReadFile p (tree c) = Inr d \<and> list_ex (wanted c) (fst (decode_stream c d)))"
proof (induction es)
  case (Cons x es)
  have "q = p \<and> list_ex (wanted c) hs" if "p \<in># matches_in c q hs" for q hs
    using that by (auto simp: matches_in_def list_ex_iff filter_empty_conv simp flip: length_greater_0_conv
        split: if_splits)
  with Cons show ?case
    by (cases x) (auto simp: file_matches_def split: if_splits sum.splits)
qed simp

lemma found_matches:
  assumes "(scan_step c)\<^sup>*\<^sup>* (scan_init c) s" and "outcome s = Some (Found ms)"
  shows "set ms \<subseteq> matching_paths c \<and> mset ms \<subseteq># walk_matches c (walk c)"
proof -
  have "ms = matchingFiles s" using scan_ok_reachable[OF assms(1)] assms(2) by (simp add: scan_ok_def)
  then have "mset ms \<subseteq># total c s" by (simp add: total_def)
  with total_reachable[OF assms(1)] have sub: "mset ms \<subseteq># walk_matches c (walk c)"
    by (rule subset_mset.order_trans[rotated])
  then have "set ms \<subseteq> set_mset (walk_matches c (walk c))" by (metis set_mset_mono set_mset_mset)
  with sub matches_of_paths[of _ c "walk c"] show ?thesis by (auto simp: matching_paths_def)
qed

text \<open>
  C21. What the search finds is there, whatever the interleaving: a result contains only
  YAML files of the clone with a document that is asked for, and a file at most as often
  as it has such documents.
\<close>

theorem search_sound:
  assumes "(scan_step c)\<^sup>*\<^sup>* (scan_init c) s" and "outcome s = Some (Found ms)"
  shows "set ms \<subseteq> matching_paths c \<and> mset ms \<subseteq># walk_matches c (walk c)"
  using assms by (rule found_matches)

text \<open>
  C20. What the search misses is in the channel: in a repository without faults, with at
  least one worker and no cancellation, the result and the paths still in matchCh when
  the collecting loop returns are together exactly the matches.
\<close>

theorem search_complete:
  assumes "faultless c" and "0 < workerCount c"
    and "(scan_step c)\<^sup>*\<^sup>* (scan_init c) s" and "\<not> cancelled s" and "outcome s = Some (Found ms)"
  shows "mset ms + mset (matchCh s) = walk_matches c (walk c)"
proof -
  have ok: "scan_ok c s" by (rule scan_ok_reachable[OF assms(3)])
  have calm: "calm c s" by (rule calm_reachable[OF assms(1,3,4)])
  have ms: "ms = matchingFiles s" "list_all (\<lambda>w. w = Exited) (workers s)" "length (workers s) = workerCount c"
    using ok assms(5) by (auto simp: scan_ok_def)
  then have "workers s ! 0 = Exited" "0 < length (workers s)" using assms(2) by (auto simp: list_all_length)
  with calm have "file_closed s" "fileCh s = []" by (auto simp: calm_def list_all_length dest: spec[of _ 0])
  moreover then have "todo s = []" using ok by (simp add: scan_ok_def)
  moreover have "(\<Sum>w\<leftarrow>ws. held c w) = {#}" if "list_all (\<lambda>w. w = Exited) ws" for ws
    using that by (induction ws) auto
  ultimately show ?thesis using calm ms by (simp add: calm_def total_def ac_simps)
qed


text \<open>
  No goroutine ever sends on a closed channel, which would panic: matchCh is closed
  only after every worker has ended, fileCh only after the walk.
\<close>

theorem search_never_panics:
  assumes "(scan_step c)\<^sup>*\<^sup>* (scan_init c) s"
  shows "\<not> panicked s"
  using scan_ok_reachable[OF assms] by (simp add: scan_ok_def)

section \<open>A concrete repository\<close>

definition md_header :: header where
  "md_header = \<lparr>h_Kind = ''MachineDeployment'', h_Name = ''myaws-md-0'', h_Namespace = []\<rparr>"

definition one_file :: scan_cfg where
  "one_file = \<lparr>wanted = wants_deployment example_nsq,
     decode_stream = (\<lambda>d. if d = ''md2'' then ([md_header], None) else ([], Some ''yaml: bad'')),
     tree = sample_fs ''md2'', walk = [Directory ''.'', Regular ''a.yaml''], workerCount = 1\<rparr>"

definition bad_file :: scan_cfg where
  "bad_file = one_file\<lparr>tree := sample_fs ''garbage''\<rparr>"

text \<open>Up to the closed matchCh: everything scanned, nothing collected yet.\<close>

definition scan_all :: "mover list" where
  "scan_all = [Walker, Walker, Walker, Worker 0, Worker 0, Worker 0, Worker 0, Worker 0, Closer, Closer]"

lemma a_yaml: "is_yaml ''a.yaml''"
  by (simp add: is_yaml_def Ext_def Let_def ToLower.simps lower_char_def)

lemma wanted_md: "wants_deployment example_nsq md_header"
  by (simp add: wants_deployment_def md_header_def example_nsq_def)

lemmas scan_eval = scan_next_def walker_next_def worker_next_def closer_next_def main_next_def
  scan_init_def set_worker_def offer_def a_yaml wanted_md

lemma one_file_sel [simp]:
  "wanted one_file = wants_deployment example_nsq"
  "decode_stream one_file = (\<lambda>d. if d = ''md2'' then ([md_header], None) else ([], Some ''yaml: bad''))"
  "tree one_file = sample_fs ''md2''" "walk one_file = [Directory ''.'', Regular ''a.yaml'']"
  "workerCount one_file = 1"
  by (simp_all add: one_file_def)

lemma sample_reads [simp]: "ReadFile ''a.yaml'' (sample_fs c) = Inr c"
  by (simp add: ReadFile_def sample_fs_def)

lemma one_file_found:
  "outcome (scan_run one_file (scan_all @ [Main OnMatch, Main OnMatch]) (scan_init one_file)) =
     Some (Found [''a.yaml''])"
  "cancelled (scan_run one_file (scan_all @ [Main OnMatch, Main OnMatch]) (scan_init one_file)) = False"
  by (simp_all add: scan_eval scan_all_def)

lemma one_file_walk:
  "walk_matches one_file (walk one_file) = {#''a.yaml''#}" "faultless one_file"
  by (simp_all add: file_matches_def matches_in_def a_yaml wanted_md faultless_def good_file_def)

theorem search_sound_witness:
  "\<exists>s. (scan_step one_file)\<^sup>*\<^sup>* (scan_init one_file) s \<and> outcome s = Some (Found [''a.yaml'']) \<and>
     set [''a.yaml''] \<subseteq> matching_paths one_file"
proof -
  note r = scan_run_reaches[of one_file "scan_init one_file" "scan_all @ [Main OnMatch, Main OnMatch]"]
  show ?thesis using search_sound[OF r one_file_found(1)] r one_file_found(1) by blast
qed

theorem search_complete_witness:
  "\<exists>s. (scan_step one_file)\<^sup>*\<^sup>* (scan_init one_file) s \<and> outcome s = Some (Found [''a.yaml'']) \<and>
     mset [''a.yaml''] + mset (matchCh s) = {#''a.yaml''#}"
proof -
  note r = scan_run_reaches[of one_file "scan_init one_file" "scan_all @ [Main OnMatch, Main OnMatch]"]
  have w: "0 < workerCount one_file" by simp
  have "\<not> cancelled (scan_run one_file (scan_all @ [Main OnMatch, Main OnMatch]) (scan_init one_file))"
    by (simp only: one_file_found(2)) simp
  from search_complete[OF one_file_walk(2) w r this one_file_found(1)] show ?thesis
    using r one_file_found(1) unfolding one_file_walk(1) by blast
qed

lemma move_then:
  "scan_next c m s = Some s' \<Longrightarrow> (scan_step c ^^ k) s' t \<Longrightarrow> (scan_step c ^^ Suc k) s t"
  by (rule relpowp_Suc_I2) (rule move)


theorem search_never_panics_witness:
  "\<not> panicked (scan_run one_file scan_all (scan_init one_file))"
  by (rule search_never_panics[OF scan_run_reaches])

text \<open>
  A match can get lost: done is closed together with matchCh, and select may take it
  while matchCh still holds matches. In a repository without faults that holds one match
  there is a run, without cancellation, that returns successfully with none.
\<close>

theorem search_can_lose_matches:
  "\<exists>s. (scan_step one_file)\<^sup>*\<^sup>* (scan_init one_file) s \<and> faultless one_file \<and> \<not> cancelled s \<and>
     walk_matches one_file (walk one_file) = {#''a.yaml''#} \<and> outcome s = Some (Found [])"
proof -
  let ?s = "scan_run one_file (scan_all @ [Main OnDone]) (scan_init one_file)"
  have "outcome ?s = Some (Found [])" "\<not> cancelled ?s" by (simp_all add: scan_eval scan_all_def)
  then show ?thesis using scan_run_reaches one_file_walk by blast
qed

text \<open>
  An error can get lost the same way: with a file that does not parse there is a run
  that returns successfully, without matches and without error, while the error waits in
  errCh.
\<close>

theorem search_can_hide_errors:
  "\<exists>s e. (scan_step bad_file)\<^sup>*\<^sup>* (scan_init bad_file) s \<and> \<not> faultless bad_file \<and>
     errCh s = Some e \<and> outcome s = Some (Found [])"
proof -
  let ?s = "scan_run bad_file (scan_all @ [Main OnMatch]) (scan_init bad_file)"
  have "outcome ?s = Some (Found [])" "errCh ?s = Some ''yaml: bad''"
    by (simp_all add: scan_eval scan_all_def bad_file_def)
  moreover have "\<not> faultless bad_file"
    by (simp add: faultless_def bad_file_def good_file_def a_yaml)
  ultimately show ?thesis using scan_run_reaches by blast
qed

end
