(* ===== verification/Update_Pool.thy ===== *)
theory Update_Pool imports Manifests begin

text \<open>
  The worker pool of restapi_server.go that both handlers start over the matched files:
  one goroutine per file, a semaphore for two of them, an error channel with room for
  every goroutine, and wg.Wait. A goroutine reads and writes its file in two separate
  steps, so goroutines interleave between them.
\<close>

section \<open>The pool\<close>

datatype phase =
    Waiting
  | Holding
  | HasRead "string + string"
  | Finished "upd_err option"
  | Done "upd_err option"

record pool =
  phases :: "phase list"
  pool_fs :: fs
  errChan :: "upd_err list"

definition pool_init :: "string list \<Rightarrow> fs \<Rightarrow> pool" where
  "pool_init ps s = \<lparr>phases = replicate (length ps) Waiting, pool_fs = s, errChan = []\<rparr>"

text \<open>The places taken in the semaphore: from acquiring it to releasing it on return.\<close>

fun holds :: "phase \<Rightarrow> bool" where
  "holds Waiting = False"
| "holds Holding = True"
| "holds (HasRead _) = True"
| "holds (Finished _) = True"
| "holds (Done _) = False"

definition holding :: "phase list \<Rightarrow> nat" where
  "holding phs = length (filter holds phs)"

text \<open>What an editor does with the text it has read.\<close>

definition finish_edit ::
  "(string \<Rightarrow> string \<Rightarrow> upd_err + string option) \<Rightarrow> string \<Rightarrow> string + string \<Rightarrow> fs \<Rightarrow> upd_err option \<times> fs" where
  "finish_edit edit p r s = (case r of
     Inl e \<Rightarrow> (Some (ReadErr e), s)
   | Inr c \<Rightarrow> (case edit p c of
        Inl e \<Rightarrow> (Some e, s)
      | Inr None \<Rightarrow> (None, s)
      | Inr (Some out) \<Rightarrow> (map_option WriteErr (fst (WriteFile p out s)), snd (WriteFile p out s))))"

text \<open>
  The next step of goroutine i, if it can make one: take the semaphore, read, edit and
  write, then send the error if there is one (the channel has room), release and end.
\<close>

definition pool_next ::
  "(string \<Rightarrow> string \<Rightarrow> upd_err + string option) \<Rightarrow> string list \<Rightarrow> nat \<Rightarrow> pool \<Rightarrow> pool option" where
  "pool_next edit ps i p =
     (if length ps \<le> i then None
      else case phases p ! i of
        Waiting \<Rightarrow> if holding (phases p) < 2 then Some (p\<lparr>phases := (phases p)[i := Holding]\<rparr>) else None
      | Holding \<Rightarrow> Some (p\<lparr>phases := (phases p)[i := HasRead (ReadFile (ps ! i) (pool_fs p))]\<rparr>)
      | HasRead r \<Rightarrow>
          (case finish_edit edit (ps ! i) r (pool_fs p) of (e, s') \<Rightarrow>
             Some (p\<lparr>phases := (phases p)[i := Finished e], pool_fs := s'\<rparr>))
      | Finished e \<Rightarrow> Some (p\<lparr>phases := (phases p)[i := Done e],
          errChan := errChan p @ case_option [] (\<lambda>x. [x]) e\<rparr>)
      | Done _ \<Rightarrow> None)"

inductive pool_step ::
  "(string \<Rightarrow> string \<Rightarrow> upd_err + string option) \<Rightarrow> string list \<Rightarrow> pool \<Rightarrow> pool \<Rightarrow> bool"
  for edit ps where
  goroutine: "pool_next edit ps i p = Some p' \<Longrightarrow> pool_step edit ps p p'"

text \<open>wg.Wait returns when every goroutine has ended.\<close>

fun ended :: "phase \<Rightarrow> bool" where
  "ended (Done _) = True"
| "ended _ = False"

definition all_done :: "pool \<Rightarrow> bool" where
  "all_done p \<longleftrightarrow> list_all ended (phases p)"

text \<open>A schedule: which goroutine moves next. Moves that cannot be made are skipped.\<close>

primrec pool_run ::
  "(string \<Rightarrow> string \<Rightarrow> upd_err + string option) \<Rightarrow> string list \<Rightarrow> nat list \<Rightarrow> pool \<Rightarrow> pool" where
  "pool_run edit ps [] p = p"
| "pool_run edit ps (i # is) p =
     pool_run edit ps is (case pool_next edit ps i p of None \<Rightarrow> p | Some p' \<Rightarrow> p')"

lemma pool_run_reaches: "(pool_step edit ps)\<^sup>*\<^sup>* p (pool_run edit ps is p)"
proof (induction "is" arbitrary: p)
  case (Cons i "is")
  show ?case
  proof (cases "pool_next edit ps i p")
    case (Some p')
    then show ?thesis using Cons[of p'] by (auto intro: converse_rtranclp_into_rtranclp goroutine)
  qed (use Cons in simp)
qed simp

section \<open>Bounds and termination\<close>

inductive_cases pool_stepE: "pool_step edit ps p p'"

lemma pool_nextE:
  assumes "pool_next edit ps i p = Some p'"
  obtains (acquire) "i < length ps" "phases p ! i = Waiting" "holding (phases p) < 2"
      "p' = p\<lparr>phases := (phases p)[i := Holding]\<rparr>"
    | (read) "i < length ps" "phases p ! i = Holding"
      "p' = p\<lparr>phases := (phases p)[i := HasRead (ReadFile (ps ! i) (pool_fs p))]\<rparr>"
    | (writes) r where "i < length ps" "phases p ! i = HasRead r"
      "p' = p\<lparr>phases := (phases p)[i := Finished (fst (finish_edit edit (ps ! i) r (pool_fs p)))],
              pool_fs := snd (finish_edit edit (ps ! i) r (pool_fs p))\<rparr>"
    | (report) e where "i < length ps" "phases p ! i = Finished e"
      "p' = p\<lparr>phases := (phases p)[i := Done e], errChan := errChan p @ case_option [] (\<lambda>x. [x]) e\<rparr>"
  using assms
  by (auto simp: pool_next_def split: if_splits phase.splits prod.splits)

fun rank :: "phase \<Rightarrow> nat" where
  "rank Waiting = 4"
| "rank Holding = 3"
| "rank (HasRead _) = 2"
| "rank (Finished _) = 1"
| "rank (Done _) = 0"

lemma sum_list_rank_update:
  "i < length xs \<Longrightarrow> sum_list (map rank (xs[i := y])) + rank (xs ! i) = sum_list (map rank xs) + rank y"
  by (induction xs arbitrary: i) (auto split: nat.split)

lemma holding_update:
  "i < length xs \<Longrightarrow> holding (xs[i := y]) + of_bool (holds (xs ! i)) = holding xs + of_bool (holds y)"
proof (induction xs arbitrary: i)
  case (Cons x xs)
  show ?case
  proof (cases i)
    case (Suc j)
    with Cons.prems Cons.IH[of j] show ?thesis by (auto simp: holding_def)
  qed (simp add: holding_def)
qed simp

definition pool_ok :: "string list \<Rightarrow> pool \<Rightarrow> bool" where
  "pool_ok ps p \<longleftrightarrow> length (phases p) = length ps \<and> holding (phases p) \<le> 2"

lemma pool_ok_init: "pool_ok ps (pool_init ps s)"
  by (simp add: pool_ok_def pool_init_def holding_def)

lemma pool_ok_step: "pool_step edit ps p p' \<Longrightarrow> pool_ok ps p \<Longrightarrow>
   pool_ok ps p' \<and> sum_list (map rank (phases p')) + 1 = sum_list (map rank (phases p))"
proof (elim pool_stepE)
  fix i
  assume n: "pool_next edit ps i p = Some p'" and ok: "pool_ok ps p"
  from n show ?thesis
  proof (cases rule: pool_nextE)
    case acquire
    then show ?thesis using ok holding_update[of i "phases p" Holding] sum_list_rank_update[of i "phases p" Holding]
      by (simp add: pool_ok_def)
  next
    case read
    then show ?thesis using ok holding_update[of i "phases p" "HasRead (ReadFile (ps ! i) (pool_fs p))"]
        sum_list_rank_update[of i "phases p" "HasRead (ReadFile (ps ! i) (pool_fs p))"]
      by (simp add: pool_ok_def)
  next
    case (writes r)
    let ?f = "Finished (fst (finish_edit edit (ps ! i) r (pool_fs p)))"
    from writes show ?thesis using ok holding_update[of i "phases p" ?f] sum_list_rank_update[of i "phases p" ?f]
      by (simp add: pool_ok_def)
  next
    case (report e)
    then show ?thesis using ok holding_update[of i "phases p" "Done e"] sum_list_rank_update[of i "phases p" "Done e"]
      by (simp add: pool_ok_def)
  qed
qed

text \<open>As long as not every goroutine has ended, one of them can move.\<close>

lemma pool_progress:
  assumes "pool_ok ps p" and "\<not> all_done p"
  shows "\<exists>p'. pool_step edit ps p p'"
proof -
  have "\<exists>i < length ps. pool_next edit ps i p \<noteq> None"
  proof (cases "\<exists>i < length ps. holds (phases p ! i)")
    case True
    then obtain i where "i < length ps" "holds (phases p ! i)" by blast
    then have "pool_next edit ps i p \<noteq> None"
      by (cases "phases p ! i") (auto simp: pool_next_def split: prod.split)
    with \<open>i < length ps\<close> show ?thesis by blast
  next
    case False
    then have "filter holds (phases p) = []"
      using assms(1) by (auto simp: pool_ok_def filter_empty_conv in_set_conv_nth)
    then have h: "holding (phases p) < 2" by (simp add: holding_def)
    from assms obtain i where i: "i < length ps" "\<not> ended (phases p ! i)"
      by (auto simp: all_done_def list_all_length pool_ok_def)
    with False have "phases p ! i = Waiting" by (cases "phases p ! i") auto
    with h i have "pool_next edit ps i p \<noteq> None" by (simp add: pool_next_def)
    with i show ?thesis by blast
  qed
  then show ?thesis by (auto intro: goroutine)
qed

section \<open>The pool refines editing one file after another\<close>

lemma finish_edit_upd:
  assumes "manifest_updater upd edit"
  shows "finish_edit edit p (ReadFile p s) s = upd p s"
  using manifest_updater.reads_edits_writes[OF assms, of p s]
  by (simp add: finish_edit_def split: sum.split option.split)

lemma finish_edit_frame:
  "read_fault (snd (finish_edit edit p r s)) = read_fault s"
  "write_fault (snd (finish_edit edit p r s)) = write_fault s"
  "q \<noteq> p \<Longrightarrow> files (snd (finish_edit edit p r s)) q = files s q"
  by (auto simp: finish_edit_def WriteFile_frame split: sum.split option.split)

lemma finish_edit_local:
  assumes "write_fault s' = write_fault s" "files s' p = files s p"
  shows "fst (finish_edit edit p r s') = fst (finish_edit edit p r s)"
    and "files (snd (finish_edit edit p r s')) p = files (snd (finish_edit edit p r s)) p"
  using assms(2) WriteFile_cong[OF assms(1)]
  by (auto simp: finish_edit_def split: sum.split option.split)

text \<open>The errors of the goroutines that have ended, in the order of the files.\<close>

fun reported :: "phase \<Rightarrow> upd_err option" where
  "reported (Done e) = e"
| "reported _ = None"

lemma reported_update:
  "i < length phs \<Longrightarrow> reported (phs ! i) = None \<Longrightarrow>
     mset (List.map_filter reported (phs[i := ph])) =
     mset (case_option [] (\<lambda>x. [x]) (reported ph)) + mset (List.map_filter reported phs)"
proof (induction phs arbitrary: i)
  case (Cons q phs)
  show ?case
  proof (cases i)
    case 0
    with Cons.prems show ?thesis by (simp add: map_filter_simps split: option.split)
  next
    case (Suc j)
    with Cons.prems Cons.IH[of j] show ?thesis by (simp add: map_filter_simps split: option.split)
  qed
qed simp

context manifest_updater begin

text \<open>How far one goroutine has come, from the file system the pool started with.\<close>

fun phase_ok :: "fs \<Rightarrow> fs \<Rightarrow> string \<Rightarrow> phase \<Rightarrow> bool" where
  "phase_ok s t p (HasRead r) = (files t p = files s p \<and> r = ReadFile p s)"
| "phase_ok s t p (Finished e) = (files t p = files (snd (upd p s)) p \<and> e = fst (upd p s))"
| "phase_ok s t p (Done e) = (files t p = files (snd (upd p s)) p \<and> e = fst (upd p s))"
| "phase_ok s t p ph = (files t p = files s p)"

definition pool_inv :: "string list \<Rightarrow> fs \<Rightarrow> pool \<Rightarrow> bool" where
  "pool_inv ps s p \<longleftrightarrow>
     length (phases p) = length ps \<and>
     read_fault (pool_fs p) = read_fault s \<and> write_fault (pool_fs p) = write_fault s \<and>
     (\<forall>q. q \<notin> set ps \<longrightarrow> files (pool_fs p) q = files s q) \<and>
     (\<forall>i < length ps. phase_ok s (pool_fs p) (ps ! i) (phases p ! i)) \<and>
     mset (errChan p) = mset (List.map_filter reported (phases p))"

lemma pool_inv_init: "pool_inv ps s (pool_init ps s)"
proof -
  have "List.map_filter reported (replicate n Waiting) = []" for n
    by (induction n) (simp_all add: map_filter_simps)
  then show ?thesis by (simp add: pool_inv_def pool_init_def)
qed

lemma pool_inv_step:
  assumes d: "distinct ps" and inv: "pool_inv ps s p" and n: "pool_next edit ps i p = Some p'"
  shows "pool_inv ps s p'"
  using n
proof (cases rule: pool_nextE)
  case acquire
  then show ?thesis using inv reported_update[of i "phases p" Holding]
    by (auto simp: pool_inv_def nth_list_update)
next
  case read
  let ?r = "ReadFile (ps ! i) (pool_fs p)"
  from read inv have "phase_ok s (pool_fs p) (ps ! i) Holding" by (metis pool_inv_def)
  then have "?r = ReadFile (ps ! i) s" using inv by (intro ReadFile_cong) (auto simp: pool_inv_def)
  with read inv reported_update[of i "phases p" "HasRead ?r"] \<open>phase_ok _ _ _ Holding\<close> show ?thesis
    by (auto simp: pool_inv_def nth_list_update)
next
  case (writes r)
  let ?p = "ps ! i" and ?t = "pool_fs p"
  let ?x = "finish_edit edit ?p r ?t"
  from writes inv have ok: "phase_ok s ?t ?p (HasRead r)" by (metis pool_inv_def)
  have wf: "write_fault ?t = write_fault s" using inv by (simp add: pool_inv_def)
  have up: "fst ?x = fst (upd ?p s)" "files (snd ?x) ?p = files (snd (upd ?p s)) ?p"
    using ok finish_edit_local[OF wf, of ?p edit r] finish_edit_upd[OF manifest_updater_axioms, of ?p s]
    by auto
  have other: "files (snd ?x) (ps ! j) = files ?t (ps ! j)" if "j < length ps" "j \<noteq> i" for j
    using that d writes(1) by (intro finish_edit_frame(3)) (simp add: nth_eq_iff_index_eq)
  have "phase_ok s (snd ?x) (ps ! j) (phases p' ! j)" if j: "j < length ps" for j
  proof (cases "j = i")
    case True
    with writes inv up show ?thesis by (simp add: pool_inv_def)
  next
    case False
    from inv j have "phase_ok s ?t (ps ! j) (phases p ! j)" by (simp add: pool_inv_def)
    with False writes other[OF j False] show ?thesis by (cases "phases p ! j") auto
  qed
  with writes inv reported_update[of i "phases p" "Finished (fst ?x)"] show ?thesis
    by (auto simp: pool_inv_def finish_edit_frame intro!: finish_edit_frame(3)[THEN trans])
next
  case (report e)
  from report inv have "phase_ok s (pool_fs p) (ps ! i) (Finished e)" by (metis pool_inv_def)
  with report inv reported_update[of i "phases p" "Done e"] show ?thesis
    by (auto simp: pool_inv_def nth_list_update split: option.split)
qed

lemma pool_inv_reachable:
  assumes d: "distinct ps" and r: "(pool_step edit ps)\<^sup>*\<^sup>* (pool_init ps s) p"
  shows "pool_inv ps s p"
  using r by induction (auto simp: pool_inv_init elim!: pool_stepE intro: pool_inv_step[OF d])

lemma pool_complete:
  assumes d: "distinct ps" and r: "(pool_step edit ps)\<^sup>*\<^sup>* (pool_init ps s) p" and a: "all_done p"
  shows "pool_fs p = snd (update_each upd ps s)"
    and "mset (errChan p) = mset (fst (update_each upd ps s))"
proof -
  note inv = pool_inv_reachable[OF d r]
  have ph: "phases p ! i = Done (fst (upd (ps ! i) s)) \<and>
      files (pool_fs p) (ps ! i) = files (snd (upd (ps ! i) s)) (ps ! i)" if "i < length ps" for i
  proof -
    have "phase_ok s (pool_fs p) (ps ! i) (phases p ! i)" "ended (phases p ! i)"
      using inv a that by (simp_all add: pool_inv_def all_done_def list_all_length)
    then show ?thesis by (cases "phases p ! i") auto
  qed
  have "files (pool_fs p) q = files (snd (update_each upd ps s)) q" for q
  proof (cases "q \<in> set ps")
    case True
    with ph each_file[OF d True] show ?thesis by (auto simp: in_set_conv_nth)
  next
    case False
    with inv show ?thesis by (simp add: pool_inv_def each_frame)
  qed
  then have "files (pool_fs p) = files (snd (update_each upd ps s))" by auto
  with inv show "pool_fs p = snd (update_each upd ps s)"
    by (intro fs.equality) (auto simp: pool_inv_def each_frame)
  have "phases p = map (\<lambda>q. Done (fst (upd q s))) ps"
    using inv ph by (intro nth_equalityI) (auto simp: pool_inv_def)
  moreover have "List.map_filter reported (map (\<lambda>q. Done (fst (upd q s))) qs) =
      List.map_filter (\<lambda>q. fst (upd q s)) qs" for qs
    by (induction qs) (simp_all add: map_filter_simps split: option.split)
  ultimately show "mset (errChan p) = mset (fst (update_each upd ps s))"
    using inv by (simp add: pool_inv_def each_errors[OF d])
qed

text \<open>Without errors every file ends as its own successful edit leaves it.\<close>

lemma pool_clean:
  assumes d: "distinct ps" and r: "(pool_step edit ps)\<^sup>*\<^sup>* (pool_init ps s) p" and a: "all_done p"
    and e: "errChan p = []"
  shows "q \<in> set ps \<Longrightarrow> fst (upd q s) = None \<and> files (pool_fs p) q = files (snd (upd q s)) q"
    and "q \<notin> set ps \<Longrightarrow> files (pool_fs p) q = files s q"
    and "read_fault (pool_fs p) = read_fault s"
proof -
  note c = pool_complete[OF d r a]
  have none: "List.map_filter (\<lambda>q. fst (upd q s)) ps = []"
    using c(2) e by (simp add: each_errors[OF d])
  show "fst (upd q s) = None \<and> files (pool_fs p) q = files (snd (upd q s)) q" if q: "q \<in> set ps"
  proof
    show "fst (upd q s) = None" using none q by (auto simp: map_filter_def filter_empty_conv)
    show "files (pool_fs p) q = files (snd (upd q s)) q" by (simp add: c(1) each_file[OF d q])
  qed
  show "files (pool_fs p) q = files s q" if "q \<notin> set ps"
    using that by (simp add: c(1) each_frame)
  show "read_fault (pool_fs p) = read_fault s" by (simp add: c(1) each_frame)
qed

end

section \<open>Properties\<close>

text \<open>
  C19. Concurrency does not show: when no file is matched twice, the pool ends, under every
  interleaving, with the files and the errors of editing one file after another, for the
  node scale-up and for the quota update.
\<close>

theorem pool_refines_sequence:
  assumes "distinct ps"
  shows "((pool_step (deployment_edit Y scaling) ps)\<^sup>*\<^sup>* (pool_init ps s) p \<longrightarrow> all_done p \<longrightarrow>
      pool_fs p = snd (update_each (UpdateResourceReplicasMachineDeployment Y scaling) ps s) \<and>
      mset (errChan p) = mset (fst (update_each (UpdateResourceReplicasMachineDeployment Y scaling) ps s))) \<and>
    ((pool_step (quota_edit Y String rq) ps)\<^sup>*\<^sup>* (pool_init ps s) p \<longrightarrow> all_done p \<longrightarrow>
      pool_fs p = snd (update_each (UpdateResourceQuota Y String rq) ps s) \<and>
      mset (errChan p) = mset (fst (update_each (UpdateResourceQuota Y String rq) ps s)))"
  using deployment_updater.pool_complete[OF assms, of Y scaling s p]
    quota_updater.pool_complete[OF assms, of Y String rq s p] by blast

text \<open>
  C30. The pool is bounded and ends: whatever the interleaving, never more than two
  goroutines hold the semaphore, a run has at most four steps per file, and until all
  goroutines have ended one of them can move; wg.Wait returns after exactly that many
  steps.
\<close>

theorem pool_ends:
  assumes "(pool_step edit ps ^^ k) (pool_init ps s) p"
  shows "holding (phases p) \<le> 2 \<and> k \<le> 4 * length ps \<and>
    (all_done p \<longleftrightarrow> k = 4 * length ps) \<and> (all_done p \<or> (\<exists>p'. pool_step edit ps p p'))"
proof -
  have inv: "pool_ok ps p \<and> k + sum_list (map rank (phases p)) = 4 * length ps"
    using assms
  proof (induction k arbitrary: p)
    case 0
    then show ?case
      using pool_ok_init[of ps s] by (auto simp: pool_init_def sum_list_replicate)
  next
    case (Suc k)
    then obtain q where q: "(pool_step edit ps ^^ k) (pool_init ps s) q" "pool_step edit ps q p" by auto
    with Suc.IH[OF q(1)] pool_ok_step[OF q(2)] show ?case by auto
  qed
  have "rank ph = 0 \<longleftrightarrow> ended ph" for ph by (cases ph) auto
  then have "sum_list (map rank (phases p)) = 0 \<longleftrightarrow> all_done p"
    by (simp add: all_done_def list_all_iff sum_list_eq_0_iff)
  moreover have "k = 4 * length ps \<longleftrightarrow> sum_list (map rank (phases p)) = 0" "k \<le> 4 * length ps"
    using inv by arith+
  ultimately show ?thesis using inv pool_progress[of ps p edit] unfolding pool_ok_def by blast
qed

text \<open>Two concrete steps of the node scale-up, and the pool over one or two entries.\<close>

lemma sample_edits:
  "deployment_edit sample_yaml (up_to 9) p ''md2'' = Inr (Some ''md3'')"
  "deployment_edit sample_yaml (up_to 9) p ''md3'' = Inr (Some ''md4'')"
proof -
  have m: "parse_manifest sample_yaml p ''md2'' = Inr (md_doc 2, [''replicas'' \<mapsto> YInt 2])"
    "parse_manifest sample_yaml p ''md3'' = Inr (md_doc 3, [''replicas'' \<mapsto> YInt 3])"
    by (simp_all add: parse_manifest_def sample_yaml_def as_string_def as_map_def isSupportedKind_def)
  have n: "next_replicas 9 2 = 3" "next_replicas 9 3 = 4"
    by (simp_all add: next_replicas_def add64_def in64_def)
  show "deployment_edit sample_yaml (up_to 9) p ''md2'' = Inr (Some ''md3'')"
    "deployment_edit sample_yaml (up_to 9) p ''md3'' = Inr (Some ''md4'')"
    by (simp_all add: deployment_edit_def m n marshal_text_def) (simp_all add: sample_yaml_def)
qed

lemma sample_read [simp]: "ReadFile ''a.yaml'' (sample_fs c) = Inr c"
  by (simp add: ReadFile_def sample_fs_def)

lemmas pool_eval = pool_next_def pool_init_def holding_def finish_edit_def sample_writes sample_edits

lemma step_then:
  "pool_next edit ps i p = Some p' \<Longrightarrow> (pool_step edit ps ^^ k) p' q \<Longrightarrow> (pool_step edit ps ^^ Suc k) p q"
  by (rule relpowp_Suc_I2) (rule goroutine)

theorem pool_ends_witness:
  "\<exists>p. (pool_step (deployment_edit sample_yaml (up_to 9)) [''a.yaml''] ^^ 4)
     (pool_init [''a.yaml''] (sample_fs ''md2'')) p \<and> all_done p"
proof -
  let ?E = "deployment_edit sample_yaml (up_to 9)" and ?i = "pool_init [''a.yaml''] (sample_fs ''md2'')"
  let ?p = "\<lparr>phases = [Done None], pool_fs = sample_fs ''md3'', errChan = []\<rparr>"
  have "(pool_step ?E [''a.yaml''] ^^ Suc (Suc (Suc (Suc 0)))) ?i ?p"
    by (rule step_then[where i = 0], simp add: pool_eval)+ simp
  then have r: "(pool_step ?E [''a.yaml''] ^^ 4) ?i ?p" by (simp only: numeral_eq_Suc pred_numeral_simps BitM.simps)
  show ?thesis using pool_ends[OF r] r by auto
qed

theorem pool_refines_sequence_witness:
  "pool_fs (pool_run (deployment_edit sample_yaml (up_to 9)) [''a.yaml''] [0, 0, 0, 0]
     (pool_init [''a.yaml''] (sample_fs ''md2''))) =
   snd (update_each (UpdateResourceReplicasMachineDeployment sample_yaml (up_to 9)) [''a.yaml''] (sample_fs ''md2''))"
proof -
  let ?E = "deployment_edit sample_yaml (up_to 9)" and ?i = "pool_init [''a.yaml''] (sample_fs ''md2'')"
  define p where "p = pool_run ?E [''a.yaml''] [0, 0, 0, 0] ?i"
  have "(pool_step ?E [''a.yaml''])\<^sup>*\<^sup>* ?i p" unfolding p_def by (rule pool_run_reaches)
  moreover have "all_done p" by (simp add: p_def pool_eval all_done_def)
  moreover have "distinct [''a.yaml'']" by simp
  ultimately have "pool_fs p = snd (update_each (UpdateResourceReplicasMachineDeployment sample_yaml (up_to 9))
      [''a.yaml''] (sample_fs ''md2''))"
    using pool_refines_sequence[of "[''a.yaml'']" sample_yaml "up_to 9" "sample_fs ''md2''" p] by blast
  then show ?thesis unfolding p_def .
qed

text \<open>
  A file matched twice is edited twice or once, by chance. The search reports a file
  once per matching document in it; with the same file in the list twice, there is an
  interleaving that raises two replicas to four, and one in which both goroutines read
  first and one update is lost.
\<close>

theorem duplicate_match_races:
  "\<exists>p q. (pool_step (deployment_edit sample_yaml (up_to 9)) [''a.yaml'', ''a.yaml''])\<^sup>*\<^sup>*
        (pool_init [''a.yaml'', ''a.yaml''] (sample_fs ''md2'')) p \<and> all_done p \<and>
      manifest_of sample_yaml ''a.yaml'' (pool_fs p) = Some (md_doc 4, [''replicas'' \<mapsto> YInt 4]) \<and>
    (pool_step (deployment_edit sample_yaml (up_to 9)) [''a.yaml'', ''a.yaml''])\<^sup>*\<^sup>*
        (pool_init [''a.yaml'', ''a.yaml''] (sample_fs ''md2'')) q \<and> all_done q \<and>
      manifest_of sample_yaml ''a.yaml'' (pool_fs q) = Some (md_doc 3, [''replicas'' \<mapsto> YInt 3])"
proof -
  let ?E = "deployment_edit sample_yaml (up_to 9)" and ?ps = "[''a.yaml'', ''a.yaml'']"
  let ?i = "pool_init ?ps (sample_fs ''md2'')"
  have p: "all_done (pool_run ?E ?ps [0, 0, 0, 0, 1, 1, 1, 1] ?i)"
    "pool_fs (pool_run ?E ?ps [0, 0, 0, 0, 1, 1, 1, 1] ?i) = sample_fs ''md4''"
    by (simp_all add: pool_eval all_done_def)
  have q: "all_done (pool_run ?E ?ps [0, 0, 1, 1, 0, 0, 1, 1] ?i)"
    "pool_fs (pool_run ?E ?ps [0, 0, 1, 1, 0, 0, 1, 1] ?i) = sample_fs ''md3''"
    by (simp_all add: pool_eval all_done_def)
  have "manifest_of sample_yaml ''a.yaml'' (sample_fs ''md4'') = Some (md_doc 4, [''replicas'' \<mapsto> YInt 4])"
    by (simp add: manifest_of_def parse_manifest_def sample_yaml_def as_string_def as_map_def
        isSupportedKind_def)
  then show ?thesis
    using pool_run_reaches[of ?E ?ps ?i] p q sample_manifests(2) by metis
qed

end
