(* ===== verification/Git_Access.thy ===== *)
theory Git_Access imports Repo_Scan Update_Pool begin

text \<open>
  What the management server calls outside itself, and reconcilers/git: the credentials,
  the Gitea client that is made once (giteaclient.go), committing and pushing a clone and
  asking Argo CD for a sync (gitea.go).
\<close>

section \<open>The outside of the management server\<close>

text \<open>A Gitea client is known by what it was made from.\<close>

record gitea_client =
  gitea_URL :: string
  gitea_User :: string
  gitea_Password :: string

text \<open>An Argo CD Application, as far as the code touches it: its name and its operation.\<close>

record argo_operation =
  Revision :: string
  Apply_Force :: bool
  InitiatedBy_Username :: string

record argo_app =
  app_Name :: string
  app_Namespace :: string
  Operation :: "argo_operation option"

text \<open>A clone: its directory, its files, and the walk over it.\<close>

record clone =
  clone_Dir :: string
  clone_fs :: fs
  clone_walk :: "entry list"

text \<open>
  Secrets are maps from keys to texts. A clone into a new directory gives its files and
  the walk over it. \<open>SelectDone\<close> waits a second, or gives the error of the context.
  \<open>SearchSchedule\<close> and \<open>PoolSchedule\<close> choose the interleavings of the goroutines: a schedule that ends early leaves the handler waiting.
\<close>

record ('e, 'q) mgmt_ext = "('e, 'q) ext" +
  Yaml :: yaml_ops
  DecodeStream :: "string \<Rightarrow> header list \<times> string option"
  QuantityString :: "'q \<Rightarrow> string"
  NumCPU :: nat
  GetSecret :: "string \<Rightarrow> string \<Rightarrow> 'e \<Rightarrow> (api_error + (string \<rightharpoonup> string)) \<times> 'e"
  SelectDone :: "'e \<Rightarrow> string option \<times> 'e"
  NewGiteaClient :: "gitea_client \<Rightarrow> 'e \<Rightarrow> string option \<times> 'e"
  MyUserInfo :: "gitea_client \<Rightarrow> 'e \<Rightarrow> string option \<times> 'e"
  MkdirTemp :: "string \<Rightarrow> 'e \<Rightarrow> (string + string) \<times> 'e"
  PlainClone :: "string \<Rightarrow> string \<Rightarrow> string \<Rightarrow> 'e \<Rightarrow> (string + fs \<times> entry list) \<times> 'e"
  SearchSchedule :: "'e \<Rightarrow> mover list \<times> 'e"
  PoolSchedule :: "'e \<Rightarrow> nat list \<times> 'e"
  OpenRepo :: "string \<Rightarrow> 'e \<Rightarrow> string option \<times> 'e"
  GetWorktree :: "string \<Rightarrow> 'e \<Rightarrow> string option \<times> 'e"
  AddAll :: "string \<Rightarrow> 'e \<Rightarrow> string option \<times> 'e"
  Commit :: "string \<Rightarrow> string \<Rightarrow> string \<Rightarrow> 'e \<Rightarrow> string option \<times> 'e"
  Push :: "string \<Rightarrow> string \<Rightarrow> string \<Rightarrow> string \<Rightarrow> 'e \<Rightarrow> string option \<times> 'e"
  GetApp :: "string \<Rightarrow> string \<Rightarrow> string \<Rightarrow> 'e \<Rightarrow> (api_error + argo_app) \<times> 'e"
  UpdateApp :: "string \<Rightarrow> argo_app \<Rightarrow> 'e \<Rightarrow> api_error option \<times> 'e"
  GetNamespace :: "string \<Rightarrow> 'e \<Rightarrow> api_error option \<times> 'e"
  CreateNamespace :: "string \<Rightarrow> 'e \<Rightarrow> api_error option \<times> 'e"
  CreateNSQ :: "namespace_quota \<Rightarrow> 'e \<Rightarrow> (api_error + namespace_quota) \<times> 'e"
  UpdateNSQ :: "namespace_quota \<Rightarrow> 'e \<Rightarrow> api_error option \<times> 'e"
  ListClusters :: "'e \<Rightarrow> (api_error + string list) \<times> 'e"
  GetClusterConditions :: "string \<Rightarrow> string \<Rightarrow> 'e \<Rightarrow> (string + condition list) \<times> 'e"
  RESTConfig :: "string \<Rightarrow> string + string"
  NewClusterClient :: "string \<Rightarrow> 'e \<Rightarrow> (string + string) \<times> 'e"

text \<open>
  The state of the server process: the variable singleInstance of giteaclient.go, nil or
  an instance whose client may be nil.
\<close>

record gc =
  giteaClient :: "gitea_client option"

record ('e, 'q) server = "('e, 'q) world" +
  singleInstance :: "gc option"

section \<open>Credentials\<close>

definition or_default :: "string \<Rightarrow> string \<Rightarrow> string" where
  "or_default v d = (if v = [] then d else v)"

definition secret_name :: "(string \<Rightarrow> string) \<Rightarrow> string" where
  "secret_name getenv = or_default (getenv ''GIT_SECRET_NAME'') ''git-user-secret''"

definition secret_namespace :: "(string \<Rightarrow> string) \<Rightarrow> string" where
  "secret_namespace getenv =
     or_default (getenv ''GIT_SECRET_NAMESPACE'') (or_default (getenv ''POD_NAMESPACE'') ''default'')"

text \<open>Username, password and URL; without GIT_SERVER_URL a bare return gives four zero values.\<close>

definition GetGiteaSecretUserNamePassword ::
  "('e, 'q, 'y) mgmt_ext_scheme \<Rightarrow>
   (('e, 'q, 'z) world_scheme, (string \<times> string \<times> string) \<times> api_error option) state" where
  "GetGiteaSecretUserNamePassword E =
     (let gitURL = Getenv E ''GIT_SERVER_URL''
      in if gitURL = [] then State_Monad.return (([], [], []), None)
         else do {
           r \<leftarrow> ask (GetSecret E (secret_namespace (Getenv E)) (secret_name (Getenv E)));
           (case r of
              Inl e \<Rightarrow> State_Monad.return (([], [], []), Some e)
            | Inr data \<Rightarrow> State_Monad.return
                ((map_index data ''username'', map_index data ''password'', gitURL), None))
         })"

section \<open>The Gitea client\<close>

text \<open>Start leaves the client nil on every failure, which it only logs.\<close>

definition Start ::
  "('e, 'q, 'y) mgmt_ext_scheme \<Rightarrow> (('e, 'q, 'z) world_scheme, gc) state" where
  "Start E =
     (let gitURL = Getenv E ''GIT_SERVER_URL''
      in if gitURL = [] then State_Monad.return \<lparr>giteaClient = None\<rparr>
         else do {
           r \<leftarrow> ask (GetSecret E (secret_namespace (Getenv E)) (secret_name (Getenv E)));
           (case r of
              Inl e \<Rightarrow> State_Monad.return \<lparr>giteaClient = None\<rparr>
            | Inr data \<Rightarrow>
                let client = \<lparr>gitea_URL = gitURL, gitea_User = map_index data ''username'',
                      gitea_Password = map_index data ''password''\<rparr>
                in do {
                  n \<leftarrow> ask (NewGiteaClient E client);
                  (if n \<noteq> None then State_Monad.return \<lparr>giteaClient = None\<rparr>
                   else do {
                     i \<leftarrow> ask (MyUserInfo E client);
                     State_Monad.return \<lparr>giteaClient = (if i \<noteq> None then None else Some client)\<rparr>
                   })
                })
         })"

text \<open>
  GetClient with a context and a client, which is how both handlers call it; nobody else
  runs between its steps here, see the next section for callers that do.
\<close>

definition GetClient ::
  "('e, 'q, 'y) mgmt_ext_scheme \<Rightarrow> (('e, 'q) server, gc) state" where
  "GetClient E = do {
     s \<leftarrow> State_Monad.get;
     (case singleInstance s of
        Some inst \<Rightarrow> State_Monad.return inst
      | None \<Rightarrow> do {
          inst \<leftarrow> Start E;
          t \<leftarrow> State_Monad.get;
          State_Monad.set (t\<lparr>singleInstance := Some inst\<rparr>);
          State_Monad.return inst
        })
   }"

definition IsInitialized :: "gc \<Rightarrow> bool" where
  "IsInitialized r \<longleftrightarrow> giteaClient r \<noteq> None"

section \<open>Committing, pushing, syncing\<close>

definition CommitAndPush ::
  "('e, 'q, 'y) mgmt_ext_scheme \<Rightarrow> clone \<Rightarrow> string \<Rightarrow> string \<Rightarrow> string \<Rightarrow> string \<Rightarrow>
   (('e, 'q, 'z) world_scheme, string option) state" where
  "CommitAndPush E cl branch userName password commitMsg = do {
     r \<leftarrow> ask (OpenRepo E (clone_Dir cl));
     (if r \<noteq> None then State_Monad.return r
      else do {
        w \<leftarrow> ask (GetWorktree E (clone_Dir cl));
        (if w \<noteq> None then State_Monad.return w
         else do {
           a \<leftarrow> ask (AddAll E (clone_Dir cl));
           (if a \<noteq> None then State_Monad.return a
            else do {
              emit (GitCommitted commitMsg (files (clone_fs cl)));
              c \<leftarrow> ask (Commit E (clone_Dir cl) commitMsg userName);
              (if c \<noteq> None then State_Monad.return c
               else do {
                 emit (GitPushed branch);
                 ask (Push E (clone_Dir cl) branch userName password)
               })
            })
         })
      })
   }"

definition sync_operation :: argo_operation where
  "sync_operation = \<lparr>Revision = ''HEAD'', Apply_Force = True, InitiatedBy_Username = ''gitea-client''\<rparr>"

definition TriggerArgoCDSyncWithKubeClient ::
  "('e, 'q, 'y) mgmt_ext_scheme \<Rightarrow> string \<Rightarrow> string \<Rightarrow> string \<Rightarrow>
   (('e, 'q, 'z) world_scheme, api_error option) state" where
  "TriggerArgoCDSyncWithKubeClient E client appName namespace = do {
     r \<leftarrow> ask (GetApp E client namespace appName);
     (case r of
        Inl e \<Rightarrow> State_Monad.return (Some e)
      | Inr app \<Rightarrow> do {
          emit (AppSynced client (app_Name app) (app_Namespace app));
          ask (UpdateApp E client (app\<lparr>Operation := Some sync_operation\<rparr>))
        })
   }"

section \<open>Concurrent callers of GetClient\<close>

text \<open>
  HTTP requests are handled concurrently, so GetClient is called by several goroutines.
  A caller checks singleInstance, waits for the lock, checks again, starts an instance,
  publishes it, reads the variable and unlocks; the reads and writes of the variable are
  taken as atomic. \<open>started n\<close> is the instance that the n-th call of Start makes.
\<close>

datatype caller =
    CheckFirst
  | WaitLock
  | CheckSecond
  | Starting
  | Publish gc
  | ReadLocked
  | Unlocking "gc option"
  | ReadResult
  | Returned "gc option"

record singleton =
  inst :: "gc option"
  lock_held :: bool
  starts :: nat
  callers :: "caller list"

definition singleton_init :: "nat \<Rightarrow> singleton" where
  "singleton_init n = \<lparr>inst = None, lock_held = False, starts = 0, callers = replicate n CheckFirst\<rparr>"

definition become :: "nat \<Rightarrow> caller \<Rightarrow> singleton \<Rightarrow> singleton" where
  "become i c s = s\<lparr>callers := (callers s)[i := c]\<rparr>"

definition caller_next :: "(nat \<Rightarrow> gc) \<Rightarrow> nat \<Rightarrow> singleton \<Rightarrow> singleton option" where
  "caller_next started i s =
     (if length (callers s) \<le> i then None
      else case callers s ! i of
        CheckFirst \<Rightarrow> Some (become i (if inst s = None then WaitLock else ReadResult) s)
      | WaitLock \<Rightarrow> if lock_held s then None else Some (become i CheckSecond (s\<lparr>lock_held := True\<rparr>))
      | CheckSecond \<Rightarrow> Some (become i (if inst s = None then Starting else ReadLocked) s)
      | Starting \<Rightarrow> Some (become i (Publish (started (starts s))) (s\<lparr>starts := starts s + 1\<rparr>))
      | Publish g \<Rightarrow> Some (become i ReadLocked (s\<lparr>inst := Some g\<rparr>))
      | ReadLocked \<Rightarrow> Some (become i (Unlocking (inst s)) s)
      | Unlocking r \<Rightarrow> Some (become i (Returned r) (s\<lparr>lock_held := False\<rparr>))
      | ReadResult \<Rightarrow> Some (become i (Returned (inst s)) s)
      | Returned r \<Rightarrow> None)"

inductive singleton_step :: "(nat \<Rightarrow> gc) \<Rightarrow> singleton \<Rightarrow> singleton \<Rightarrow> bool" for started where
  call: "caller_next started i s = Some s' \<Longrightarrow> singleton_step started s s'"

inductive_cases singleton_stepE: "singleton_step started s s'"

fun critical :: "caller \<Rightarrow> bool" where
  "critical CheckSecond = True"
| "critical Starting = True"
| "critical (Publish g) = True"
| "critical ReadLocked = True"
| "critical (Unlocking r) = True"
| "critical _ = False"

text \<open>
  The lock is held exactly by the one caller in the section; what is known of the
  variable follows from how far that caller has come.
\<close>

definition settled_ok :: "(nat \<Rightarrow> gc) \<Rightarrow> singleton \<Rightarrow> bool" where
  "settled_ok st s \<longleftrightarrow> inst s = None \<and> starts s = 0 \<or> inst s = Some (st 0) \<and> starts s = 1"

fun section_ok :: "(nat \<Rightarrow> gc) \<Rightarrow> singleton \<Rightarrow> caller list \<Rightarrow> bool" where
  "section_ok st s [] = (\<not> lock_held s \<and> settled_ok st s)"
| "section_ok st s [CheckSecond] = (lock_held s \<and> settled_ok st s)"
| "section_ok st s [Starting] = (lock_held s \<and> inst s = None \<and> starts s = 0)"
| "section_ok st s [Publish g] = (lock_held s \<and> inst s = None \<and> starts s = 1 \<and> g = st 0)"
| "section_ok st s [ReadLocked] = (lock_held s \<and> inst s = Some (st 0) \<and> starts s = 1)"
| "section_ok st s [Unlocking r] =
     (lock_held s \<and> inst s = Some (st 0) \<and> starts s = 1 \<and> r = Some (st 0))"
| "section_ok st s _ = False"

fun outside_ok :: "(nat \<Rightarrow> gc) \<Rightarrow> gc option \<Rightarrow> caller \<Rightarrow> bool" where
  "outside_ok st v ReadResult = (v = Some (st 0))"
| "outside_ok st v (Returned r) = (r = Some (st 0))"
| "outside_ok st v _ = True"

definition singleton_inv :: "(nat \<Rightarrow> gc) \<Rightarrow> singleton \<Rightarrow> bool" where
  "singleton_inv st s \<longleftrightarrow> section_ok st s (filter critical (callers s)) \<and>
     list_all (outside_ok st (inst s)) (callers s)"

lemma outside_ok_mono: "outside_ok st v c \<Longrightarrow> v = None \<or> v = w \<Longrightarrow> outside_ok st w c"
  by (cases c) auto

lemma singleton_inv_init: "singleton_inv st (singleton_init n)"
  by (simp add: singleton_inv_def singleton_init_def settled_ok_def list_all_length)

text \<open>The section before and after caller i moves.\<close>

lemma section_short: "section_ok st s cs \<Longrightarrow> length cs \<le> 1"
  by (cases "(st, s, cs)" rule: section_ok.cases) auto

lemma section_moves:
  assumes "section_ok st s (filter critical (callers s))" and "i < length (callers s)"
  shows "critical (callers s ! i) \<Longrightarrow> filter critical (callers s) = [callers s ! i] \<and>
      filter critical ((callers s)[i := c]) = (if critical c then [c] else [])"
    and "\<not> critical (callers s ! i) \<Longrightarrow> \<not> critical c \<Longrightarrow>
      filter critical ((callers s)[i := c]) = filter critical (callers s)"
    and "\<not> critical (callers s ! i) \<Longrightarrow> filter critical (callers s) = [] \<Longrightarrow> critical c \<Longrightarrow>
      filter critical ((callers s)[i := c]) = [c]"
proof -
  from filter_update[OF assms(2), of critical c] obtain as bs where
    f: "filter critical (callers s) = as @ (if critical (callers s ! i) then [callers s ! i] else []) @ bs"
      "filter critical ((callers s)[i := c]) = as @ (if critical c then [c] else []) @ bs"
    by blast
  have "length (filter critical (callers s)) \<le> 1" using assms(1) by (rule section_short)
  then show "critical (callers s ! i) \<Longrightarrow> filter critical (callers s) = [callers s ! i] \<and>
      filter critical ((callers s)[i := c]) = (if critical c then [c] else [])"
    using f by auto
  show "\<not> critical (callers s ! i) \<Longrightarrow> \<not> critical c \<Longrightarrow>
      filter critical ((callers s)[i := c]) = filter critical (callers s)"
    using f by simp
  show "\<not> critical (callers s ! i) \<Longrightarrow> filter critical (callers s) = [] \<Longrightarrow> critical c \<Longrightarrow>
      filter critical ((callers s)[i := c]) = [c]"
    using f by auto
qed

lemma unlocked_empty: "section_ok st s cs \<Longrightarrow> \<not> lock_held s \<Longrightarrow> cs = []"
  by (cases "(st, s, cs)" rule: section_ok.cases) auto

lemma section_ok_callers [simp]: "section_ok st (s\<lparr>callers := x\<rparr>) cs = section_ok st s cs"
  by (cases "(st, s, cs)" rule: section_ok.cases) (auto simp: settled_ok_def)

lemma section_inst: "section_ok st s cs \<Longrightarrow> inst s = None \<or> inst s = Some (st 0)"
  by (cases "(st, s, cs)" rule: section_ok.cases) (auto simp: settled_ok_def)

lemma singleton_inv_step:
  assumes inv: "singleton_inv st s" and n: "caller_next st i s = Some s'"
  shows "singleton_inv st s'"
proof -
  from n have i: "i < length (callers s)" by (auto simp: caller_next_def split: if_splits)
  have sec: "section_ok st s (filter critical (callers s))" using inv by (simp add: singleton_inv_def)
  note moves = section_moves[OF sec i]
  have out: "list_all (outside_ok st w) ((callers s)[i := c])"
    if "outside_ok st w c" "inst s = None \<or> inst s = w" for w c
    using inv that by (intro list_all_update)
      (auto simp: singleton_inv_def elim!: list.pred_mono_strong outside_ok_mono)
  have oki: "outside_ok st (inst s) (callers s ! i)"
    using inv i by (simp add: singleton_inv_def list_all_length)
  note unlocked = unlocked_empty[OF sec]
  show ?thesis
  proof (cases "callers s ! i")
    case CheckFirst
    with n i sec moves(2) section_inst[OF sec] show ?thesis
      by (auto simp: caller_next_def become_def singleton_inv_def intro!: out)
  next
    case WaitLock
    with n i have s': "s' = become i CheckSecond (s\<lparr>lock_held := True\<rparr>)" "\<not> lock_held s"
      by (auto simp: caller_next_def split: if_splits)
    with WaitLock sec moves(3)[of CheckSecond] unlocked show ?thesis
      by (auto simp: become_def singleton_inv_def settled_ok_def intro!: out)
  next
    case CheckSecond
    with n i sec moves(1) show ?thesis
      by (auto simp: caller_next_def become_def singleton_inv_def settled_ok_def intro!: out)
  next
    case Starting
    with n i sec moves(1) show ?thesis
      by (auto simp: caller_next_def become_def singleton_inv_def intro!: out)
  next
    case (Publish g)
    with n i sec moves(1) show ?thesis
      by (auto simp: caller_next_def become_def singleton_inv_def intro!: out)
  next
    case ReadLocked
    with n i sec moves(1) show ?thesis
      by (auto simp: caller_next_def become_def singleton_inv_def intro!: out)
  next
    case (Unlocking r)
    with n i sec moves(1) show ?thesis
      by (auto simp: caller_next_def become_def singleton_inv_def settled_ok_def intro!: out)
  next
    case ReadResult
    with n i sec moves(2) oki show ?thesis
      by (auto simp: caller_next_def become_def singleton_inv_def intro!: out)
  next
    case (Returned r)
    with n i show ?thesis by (simp add: caller_next_def)
  qed
qed

lemma singleton_inv_reachable:
  "(singleton_step st)\<^sup>*\<^sup>* (singleton_init n) s \<Longrightarrow> singleton_inv st s"
  by (induction rule: rtranclp_induct)
     (auto intro: singleton_inv_init singleton_inv_step elim!: singleton_stepE)

section \<open>Lemmas\<close>

text \<open>Credentials and Start only ask; a commit comes before its push.\<close>

lemma credentials_wp:
  assumes "\<And>r e. Q r (s\<lparr>env := e\<rparr>)"
  shows "wp (GetGiteaSecretUserNamePassword E) s Q"
  using assms assms[of _ "env s"]
  by (auto simp: GetGiteaSecretUserNamePassword_def Let_def wp_simps split: sum.split)

lemma Start_wp:
  assumes "\<And>r e. Q r (s\<lparr>env := e\<rparr>)"
  shows "wp (Start E) s Q"
  using assms assms[of _ "env s"]
  by (auto simp: Start_def Let_def wp_simps split: sum.split)

lemma CommitAndPush_wp:
  assumes "\<And>r s'. trace s' = trace s \<Longrightarrow> r \<noteq> None \<Longrightarrow> Q r s'"
    and "\<And>r s'. trace s' = trace s @ [GitCommitted msg (files (clone_fs cl))] \<Longrightarrow> r \<noteq> None \<Longrightarrow> Q r s'"
    and "\<And>r s'. trace s' = trace s @ [GitCommitted msg (files (clone_fs cl)), GitPushed branch] \<Longrightarrow> Q r s'"
  shows "wp (CommitAndPush E cl branch user password msg) s Q"
  unfolding CommitAndPush_def
  by (auto simp: wp_simps intro: assms)

lemma TriggerArgo_wp:
  assumes "\<And>r s'. trace s' = trace s \<Longrightarrow> r \<noteq> None \<Longrightarrow> Q r s'"
    and "\<And>r app e s'. fst (GetApp E client ns appName e) = Inr app \<Longrightarrow>
      trace s' = trace s @ [AppSynced client (app_Name app) (app_Namespace app)] \<Longrightarrow> Q r s'"
  shows "wp (TriggerArgoCDSyncWithKubeClient E client appName ns) s Q"
  unfolding TriggerArgoCDSyncWithKubeClient_def
  by (auto simp: wp_simps intro: assms split: sum.split)

section \<open>Properties\<close>

text \<open>
  C27. One Gitea client per process: however the calls of GetClient interleave, Start runs
  at most once, and every call returns the instance it made, never nil.
\<close>

theorem singleton_started_once:
  assumes "(singleton_step started)\<^sup>*\<^sup>* (singleton_init n) s"
  shows "starts s \<le> 1 \<and>
    list_all (\<lambda>c. case c of Returned r \<Rightarrow> r = Some (started 0) | _ \<Rightarrow> True) (callers s)"
proof -
  have inv: "singleton_inv started s" using assms by (rule singleton_inv_reachable)
  then have "starts s \<le> 1"
    by (cases "(started, s, filter critical (callers s))" rule: section_ok.cases)
       (auto simp: singleton_inv_def settled_ok_def)
  moreover have "outside_ok started v c \<Longrightarrow> case c of Returned r \<Rightarrow> r = Some (started 0) | _ \<Rightarrow> True" for v c
    by (cases c) auto
  ultimately show ?thesis
    using inv by (auto simp: singleton_inv_def elim: list.pred_mono_strong)
qed

text \<open>Two callers that both pass the first check.\<close>

primrec singleton_run :: "(nat \<Rightarrow> gc) \<Rightarrow> nat list \<Rightarrow> singleton \<Rightarrow> singleton" where
  "singleton_run st [] s = s"
| "singleton_run st (i # is) s = singleton_run st is (case caller_next st i s of None \<Rightarrow> s | Some s' \<Rightarrow> s')"

lemma singleton_run_reaches: "(singleton_step st)\<^sup>*\<^sup>* s (singleton_run st is s)"
proof (induction "is" arbitrary: s)
  case (Cons i "is")
  show ?case
  proof (cases "caller_next st i s")
    case (Some s')
    then show ?thesis using Cons[of s'] by (auto intro: converse_rtranclp_into_rtranclp call)
  qed (use Cons in simp)
qed simp

definition no_client :: "nat \<Rightarrow> gc" where
  "no_client n = \<lparr>giteaClient = None\<rparr>"

lemma two_callers:
  "callers (singleton_run no_client [0, 1, 0, 0, 0, 0, 0, 0, 1, 1, 1, 1] (singleton_init 2)) =
     [Returned (Some (no_client 0)), Returned (Some (no_client 0))]"
  by (simp add: singleton_init_def caller_next_def become_def numeral_2_eq_2)

theorem singleton_started_once_witness:
  "starts (singleton_run no_client [0, 1, 0, 0, 0, 0, 0, 0, 1, 1, 1, 1] (singleton_init 2)) \<le> 1 \<and>
   callers (singleton_run no_client [0, 1, 0, 0, 0, 0, 0, 0, 1, 1, 1, 1] (singleton_init 2)) =
     [Returned (Some (no_client 0)), Returned (Some (no_client 0))]"
  using singleton_started_once[OF singleton_run_reaches] two_callers by blast

text \<open>
  A failed start is final: whatever the first GetClient gives, every later call gives
  the same, however the environment variables, the secret and the Git server have
  changed, and asks for nothing. The handlers' "retrying later" never happens.
\<close>

theorem GetClient_never_retries:
  "wp (GetClient E) s (\<lambda>r s1. singleInstance s1 = Some r \<and>
     run_state (GetClient E2) (s1\<lparr>env := e\<rparr>) = (r, s1\<lparr>env := e\<rparr>))"
proof (cases "singleInstance s")
  case None
  have "run_state (GetClient E2) (t\<lparr>env := e\<rparr>) = (r, t\<lparr>env := e\<rparr>)"
    if "singleInstance t = Some r" for t :: "('a, 'b) server" and r
    using that by (simp add: GetClient_def)
  with None show ?thesis
    by (auto simp: GetClient_def wp_simps intro!: Start_wp)
qed (simp add: GetClient_def wp_simps)

end
