(* ===== verification/Gitea_Methods.thy ===== *)
theory Gitea_Methods imports Git_Access begin

text \<open>
  The rest of the interface GiteaClient of reconcilers/git/giteaclient.go: the methods of
  gc, each of which is a method of the SDK on the instance's client.
\<close>

section \<open>The SDK\<close>

text \<open>
  The methods of the SDK's client, on a client that may be nil, with the types they take
  and give: users, repositories, tokens, and their options.
\<close>

record ('e, 'user, 'repo, 'token, 'opt, 'resp) gitea_sdk =
  sdk_GetMyUserInfo :: "gitea_client option \<Rightarrow> 'e \<Rightarrow> ('user \<times> 'resp \<times> string option) \<times> 'e"
  sdk_DeleteRepo :: "gitea_client option \<Rightarrow> string \<Rightarrow> string \<Rightarrow> 'e \<Rightarrow> ('resp \<times> string option) \<times> 'e"
  sdk_GetRepo :: "gitea_client option \<Rightarrow> string \<Rightarrow> string \<Rightarrow> 'e \<Rightarrow> ('repo \<times> 'resp \<times> string option) \<times> 'e"
  sdk_CreateRepo :: "gitea_client option \<Rightarrow> 'opt \<Rightarrow> 'e \<Rightarrow> ('repo \<times> 'resp \<times> string option) \<times> 'e"
  sdk_EditRepo :: "gitea_client option \<Rightarrow> string \<Rightarrow> string \<Rightarrow> 'opt \<Rightarrow> 'e \<Rightarrow> ('repo \<times> 'resp \<times> string option) \<times> 'e"
  sdk_DeleteAccessToken :: "gitea_client option \<Rightarrow> 'opt \<Rightarrow> 'e \<Rightarrow> ('resp \<times> string option) \<times> 'e"
  sdk_ListAccessTokens :: "gitea_client option \<Rightarrow> 'opt \<Rightarrow> 'e \<Rightarrow> ('token list \<times> 'resp \<times> string option) \<times> 'e"
  sdk_CreateAccessToken :: "gitea_client option \<Rightarrow> 'opt \<Rightarrow> 'e \<Rightarrow> ('token \<times> 'resp \<times> string option) \<times> 'e"

section \<open>The methods\<close>

text \<open>The receiver is a pointer: reading the field of a nil one panics.\<close>

definition forward ::
  "(gitea_client option \<Rightarrow> 'e \<Rightarrow> 'a \<times> 'e) \<Rightarrow> gc option \<Rightarrow> (('e, 'q, 'z) world_scheme, 'a go) state" where
  "forward method r = (case r of
     None \<Rightarrow> State_Monad.return (Panic ''nil pointer dereference'')
   | Some g \<Rightarrow> do {
       x \<leftarrow> ask (method (giteaClient g));
       State_Monad.return (Ret x)
     })"

definition gc_Get :: "gc option \<Rightarrow> gitea_client option go" where
  "gc_Get r = (case r of None \<Rightarrow> Panic ''nil pointer dereference'' | Some g \<Rightarrow> Ret (giteaClient g))"

definition gc_GetMyUserInfo ::
  "('e, 'user, 'repo, 'token, 'opt, 'resp, 'y) gitea_sdk_scheme \<Rightarrow> gc option \<Rightarrow>
   (('e, 'q, 'z) world_scheme, ('user \<times> 'resp \<times> string option) go) state" where
  "gc_GetMyUserInfo S r = forward (sdk_GetMyUserInfo S) r"

definition gc_DeleteRepo ::
  "('e, 'user, 'repo, 'token, 'opt, 'resp, 'y) gitea_sdk_scheme \<Rightarrow> gc option \<Rightarrow> string \<Rightarrow> string \<Rightarrow>
   (('e, 'q, 'z) world_scheme, ('resp \<times> string option) go) state" where
  "gc_DeleteRepo S r owner repo = forward (\<lambda>c. sdk_DeleteRepo S c owner repo) r"

definition gc_GetRepo ::
  "('e, 'user, 'repo, 'token, 'opt, 'resp, 'y) gitea_sdk_scheme \<Rightarrow> gc option \<Rightarrow> string \<Rightarrow> string \<Rightarrow>
   (('e, 'q, 'z) world_scheme, ('repo \<times> 'resp \<times> string option) go) state" where
  "gc_GetRepo S r userName repoCRName = forward (\<lambda>c. sdk_GetRepo S c userName repoCRName) r"

definition gc_CreateRepo ::
  "('e, 'user, 'repo, 'token, 'opt, 'resp, 'y) gitea_sdk_scheme \<Rightarrow> gc option \<Rightarrow> 'opt \<Rightarrow>
   (('e, 'q, 'z) world_scheme, ('repo \<times> 'resp \<times> string option) go) state" where
  "gc_CreateRepo S r createRepoOption = forward (\<lambda>c. sdk_CreateRepo S c createRepoOption) r"

definition gc_EditRepo ::
  "('e, 'user, 'repo, 'token, 'opt, 'resp, 'y) gitea_sdk_scheme \<Rightarrow> gc option \<Rightarrow> string \<Rightarrow> string \<Rightarrow> 'opt \<Rightarrow>
   (('e, 'q, 'z) world_scheme, ('repo \<times> 'resp \<times> string option) go) state" where
  "gc_EditRepo S r userName repoCRName editRepoOption =
     forward (\<lambda>c. sdk_EditRepo S c userName repoCRName editRepoOption) r"

definition gc_DeleteAccessToken ::
  "('e, 'user, 'repo, 'token, 'opt, 'resp, 'y) gitea_sdk_scheme \<Rightarrow> gc option \<Rightarrow> 'opt \<Rightarrow>
   (('e, 'q, 'z) world_scheme, ('resp \<times> string option) go) state" where
  "gc_DeleteAccessToken S r value = forward (\<lambda>c. sdk_DeleteAccessToken S c value) r"

definition gc_ListAccessTokens ::
  "('e, 'user, 'repo, 'token, 'opt, 'resp, 'y) gitea_sdk_scheme \<Rightarrow> gc option \<Rightarrow> 'opt \<Rightarrow>
   (('e, 'q, 'z) world_scheme, ('token list \<times> 'resp \<times> string option) go) state" where
  "gc_ListAccessTokens S r opts = forward (\<lambda>c. sdk_ListAccessTokens S c opts) r"

definition gc_CreateAccessToken ::
  "('e, 'user, 'repo, 'token, 'opt, 'resp, 'y) gitea_sdk_scheme \<Rightarrow> gc option \<Rightarrow> 'opt \<Rightarrow>
   (('e, 'q, 'z) world_scheme, ('token \<times> 'resp \<times> string option) go) state" where
  "gc_CreateAccessToken S r opt = forward (\<lambda>c. sdk_CreateAccessToken S c opt) r"

lemmas gc_method_defs = gc_GetMyUserInfo_def gc_DeleteRepo_def gc_GetRepo_def gc_CreateRepo_def gc_EditRepo_def
  gc_DeleteAccessToken_def gc_ListAccessTokens_def gc_CreateAccessToken_def

section \<open>The instance that GetClient returns\<close>

text \<open>
  A method of an instance of the process does not panic and changes only the world outside
  the process, by the one call of the SDK, on the client of the instance or on nil when
  the instance never started.
\<close>

lemma forward_wp:
  "wp (forward m (Some g)) s (\<lambda>r s'. r = Ret (fst (m (giteaClient g) (env s))) \<and>
     s' = s\<lparr>env := snd (m (giteaClient g) (env s))\<rparr>)"
  by (simp add: forward_def wp_simps)

end
