(* ===== verification/Workload_Access.thy ===== *)
theory Workload_Access imports Git_Access begin

text \<open>
  reconcilers/capi/cluster.go: reaching a workload cluster through the kubeconfig secret
  that Cluster API keeps for it. A client of a cluster is known by the address it was
  made for.
\<close>

section \<open>The kubeconfig secret\<close>

definition kubeConfigSuffix :: string where
  "kubeConfigSuffix = ''-kubeconfig''"

record secret =
  sec_Name :: string
  sec_Namespace :: string
  sec_Data :: "string \<rightharpoonup> string"

text \<open>A Capi is the secret it wraps; its Secret field may be nil.\<close>

definition GetClusterName :: "secret option \<Rightarrow> string" where
  "GetClusterName r = (case r of None \<Rightarrow> [] | Some s \<Rightarrow> TrimSuffix (sec_Name s) kubeConfigSuffix)"

definition GetCapiCluster :: "secret option \<Rightarrow> secret option" where
  "GetCapiCluster r = (case r of
     None \<Rightarrow> None
   | Some s \<Rightarrow> if \<not> HasSuffix (sec_Name s) kubeConfigSuffix then None else Some s)"

text \<open>GetCapiClusterFromSecret has the same body.\<close>

definition GetCapiClusterFromSecret :: "secret option \<Rightarrow> secret option" where
  "GetCapiClusterFromSecret r = (case r of
     None \<Rightarrow> None
   | Some s \<Rightarrow> if \<not> HasSuffix (sec_Name s) kubeConfigSuffix then None else Some s)"

definition GetCapiClusterFromName ::
  "('e, 'q, 'y) mgmt_ext_scheme \<Rightarrow> string \<Rightarrow> string \<Rightarrow>
   (('e, 'q, 'z) world_scheme, api_error + secret option) state" where
  "GetCapiClusterFromName E name namespace =
     (if name = [] then State_Monad.return (Inr None)
      else do {
        r \<leftarrow> ask (GetSecret E namespace (name @ kubeConfigSuffix));
        State_Monad.return (case r of
          Inl e \<Rightarrow> Inl e
        | Inr data \<Rightarrow> Inr (GetCapiCluster (Some
            \<lparr>sec_Name = name @ kubeConfigSuffix, sec_Namespace = namespace, sec_Data = data\<rparr>)))
      })"

section \<open>The cluster and its client\<close>

definition isReady :: "condition list \<Rightarrow> bool" where
  "isReady cs = list_ex (\<lambda>c. cond_Type c = ''Ready'' \<and> cond_Status c = ''True'') cs"

text \<open>Reading the Cluster object, as JSON and back, may fail; then it is not ready.\<close>

definition isCapiClusterReady ::
  "('e, 'q, 'y) mgmt_ext_scheme \<Rightarrow> secret \<Rightarrow> (('e, 'q, 'z) world_scheme, bool) state" where
  "isCapiClusterReady E r = do {
     c \<leftarrow> ask (GetClusterConditions E (sec_Namespace r) (GetClusterName (Some r)));
     State_Monad.return (case c of Inl _ \<Rightarrow> False | Inr cs \<Rightarrow> isReady cs)
   }"

definition getCapiClusterClient ::
  "('e, 'q, 'y) mgmt_ext_scheme \<Rightarrow> secret \<Rightarrow> (('e, 'q, 'z) world_scheme, string + string \<times> bool) state" where
  "getCapiClusterClient E s = (case RESTConfig E (map_index (sec_Data s) ''value'') of
     Inl e \<Rightarrow> State_Monad.return (Inl e)
   | Inr config \<Rightarrow> do {
       c \<leftarrow> ask (NewClusterClient E config);
       State_Monad.return (case c of Inl e \<Rightarrow> Inl e | Inr client \<Rightarrow> Inr (client, True))
     })"

definition GetClusterClient ::
  "('e, 'q, 'y) mgmt_ext_scheme \<Rightarrow> secret \<Rightarrow> (('e, 'q, 'z) world_scheme, string + string \<times> bool) state" where
  "GetClusterClient E r = do {
     ready \<leftarrow> isCapiClusterReady E r;
     (if \<not> ready then State_Monad.return (Inl (GetClusterName (Some r)))
      else getCapiClusterClient E r)
   }"

text \<open>
  The result: the delay of the returned ctrl.Result in seconds, and a client, none, or an
  error. The loop looks for the first cluster of that name and stops there.
\<close>

datatype workload_result =
    WErr string
  | WClient int "string option"

definition api_text :: "api_error \<Rightarrow> string" where
  "api_text e = (case e of NotFound \<Rightarrow> ''not found'' | ApiError m \<Rightarrow> m)"

definition GetWorkloadClusterClient ::
  "('e, 'q, 'y) mgmt_ext_scheme \<Rightarrow> string \<Rightarrow> (('e, 'q, 'z) world_scheme, workload_result) state" where
  "GetWorkloadClusterClient E clusterName = do {
     l \<leftarrow> ask (ListClusters E);
     (case l of
        Inl e \<Rightarrow> State_Monad.return (WErr (api_text e))
      | Inr names \<Rightarrow> do {
          f \<leftarrow> (if list_ex (\<lambda>n. clusterName = n) names
               then GetCapiClusterFromName E clusterName ''default''
               else State_Monad.return (Inr None));
          (case f of
             Inl e \<Rightarrow> State_Monad.return (WErr (api_text e))
           | Inr None \<Rightarrow> State_Monad.return (WErr clusterName)
           | Inr (Some capi) \<Rightarrow> do {
               c \<leftarrow> GetClusterClient E capi;
               State_Monad.return (case c of
                 Inl e \<Rightarrow> WClient 10 None
               | Inr (client, ready) \<Rightarrow> if \<not> ready then WClient 10 None else WClient 0 (Some client))
             })
        })
   }"

section \<open>Lemmas\<close>

lemma capi_name [simp]:
  "GetClusterName (Some \<lparr>sec_Name = n @ kubeConfigSuffix, sec_Namespace = ns, sec_Data = d\<rparr>) = n"
  by (simp add: GetClusterName_def)

lemma HasSuffix_append [simp]: "HasSuffix (n @ suf) suf"
  by (simp add: HasSuffix_iff suffix_def)

text \<open>
  Where a client for the cluster n comes from: n is listed, its Cluster is Ready, and the
  client is made from the kubeconfig in its secret.
\<close>

definition workload_client :: "('e, 'q, 'y) mgmt_ext_scheme \<Rightarrow> string \<Rightarrow> string \<Rightarrow> bool" where
  "workload_client E n client \<longleftrightarrow> n \<noteq> [] \<and> (\<exists>names data cs config e1 e2 e3 e4.
     fst (ListClusters E e1) = Inr names \<and> n \<in> set names \<and>
     fst (GetSecret E ''default'' (n @ kubeConfigSuffix) e2) = Inr data \<and>
     fst (GetClusterConditions E ''default'' n e3) = Inr cs \<and> isReady cs \<and>
     RESTConfig E (map_index data ''value'') = Inr config \<and>
     fst (NewClusterClient E config e4) = Inr client)"

lemma GetWorkload_exact:
  "wp (GetWorkloadClusterClient E n) s (\<lambda>r s'. trace s' = trace s \<and> (case r of
     WErr e \<Rightarrow> True
   | WClient d None \<Rightarrow> d = 10
   | WClient d (Some client) \<Rightarrow> d = 0 \<and> workload_client E n client))"
  unfolding workload_client_def
  by (auto simp: GetWorkloadClusterClient_def GetCapiClusterFromName_def GetCapiCluster_def
      GetClusterClient_def isCapiClusterReady_def getCapiClusterClient_def wp_simps list_ex_iff
      split: sum.split option.split) blast+

section \<open>Properties\<close>

text \<open>
  C29. A workload client is the right one: GetWorkloadClusterClient gives a client only for
  a listed cluster of that name, that is Ready, and from the kubeconfig in the secret
  <name>-kubeconfig of the namespace default; the Cluster is looked up under exactly that
  name. Not being ready is no error but a retry after ten seconds.
\<close>

theorem workload_client_exact:
  "wp (GetWorkloadClusterClient E n) s (\<lambda>r s'. trace s' = trace s \<and> (case r of
     WErr e \<Rightarrow> True
   | WClient d None \<Rightarrow> d = 10
   | WClient d (Some client) \<Rightarrow> d = 0 \<and> n \<noteq> [] \<and> (\<exists>names data cs config e1 e2 e3 e4.
       fst (ListClusters E e1) = Inr names \<and> n \<in> set names \<and>
       fst (GetSecret E ''default'' (n @ kubeConfigSuffix) e2) = Inr data \<and>
       fst (GetClusterConditions E ''default'' n e3) = Inr cs \<and> isReady cs \<and>
       RESTConfig E (map_index data ''value'') = Inr config \<and>
       fst (NewClusterClient E config e4) = Inr client)))"
  using GetWorkload_exact[of E n s] unfolding workload_client_def .

end
