(* ===== verification/Repo_Search.thy ===== *)
theory Repo_Search imports Git_Access begin

text \<open>
  The two searches of reconcilers/git/gitea.go as the handlers call them: a temporary
  directory, a shallow clone of one branch, and the search of Repo_Scan over it.
\<close>

section \<open>The result\<close>

text \<open>
  The directory and the matching files, or an error with the directory that was made for
  it, if any; \<open>CheckUnfinished\<close> is a search that has not come back yet.
\<close>

datatype check_result =
    CheckUnfinished
  | CheckErr string string
  | Checked clone "string list"

definition search_cfg ::
  "('e, 'q, 'y) mgmt_ext_scheme \<Rightarrow> (header \<Rightarrow> bool) \<Rightarrow> clone \<Rightarrow> scan_cfg" where
  "search_cfg E want cl = \<lparr>wanted = want, decode_stream = DecodeStream E, tree = clone_fs cl,
     walk = clone_walk cl, workerCount = NumCPU E\<rparr>"

definition scan_clone ::
  "('e, 'q, 'y) mgmt_ext_scheme \<Rightarrow> (header \<Rightarrow> bool) \<Rightarrow> clone \<Rightarrow> mover list \<Rightarrow> check_result" where
  "scan_clone E want cl schedule =
     (case outcome (scan_run (search_cfg E want cl) schedule (scan_init (search_cfg E want cl))) of
        None \<Rightarrow> CheckUnfinished
      | Some (Found matches) \<Rightarrow> Checked cl matches
      | Some (Failed e) \<Rightarrow> CheckErr (clone_Dir cl) e
      | Some Cancelled \<Rightarrow> CheckErr (clone_Dir cl) ''context canceled'')"

definition clone_and_scan ::
  "('e, 'q, 'y) mgmt_ext_scheme \<Rightarrow> string \<Rightarrow> string \<Rightarrow> string \<Rightarrow> (header \<Rightarrow> bool) \<Rightarrow>
   (('e, 'q) server, check_result) state" where
  "clone_and_scan E pattern repoURL branch want = do {
     d \<leftarrow> ask (MkdirTemp E pattern);
     (case d of
        Inl e \<Rightarrow> State_Monad.return (CheckErr [] e)
      | Inr tmpDir \<Rightarrow> do {
          c \<leftarrow> ask (PlainClone E tmpDir repoURL (''refs/heads/'' @ branch));
          (case c of
             Inl e \<Rightarrow> State_Monad.return (CheckErr [] (''git clone failed: '' @ e))
           | Inr (fls, walked) \<Rightarrow> do {
               schedule \<leftarrow> ask (SearchSchedule E);
               State_Monad.return
                 (scan_clone E want \<lparr>clone_Dir = tmpDir, clone_fs = fls, clone_walk = walked\<rparr> schedule)
             })
        })
   }"

section \<open>The two searches\<close>

definition CheckRepoForMatchingResourceQuotaManifests ::
  "('e, 'q, 'y) mgmt_ext_scheme \<Rightarrow> string \<Rightarrow> string \<Rightarrow> string \<Rightarrow> 'q resource_quota \<Rightarrow>
   (('e, 'q) server, check_result) state" where
  "CheckRepoForMatchingResourceQuotaManifests E repoURL branch kind rq =
     clone_and_scan E ''quota-based-manifests-*'' repoURL branch (wants_quota kind rq)"

definition CheckRepoForMatchingClusterAPIManifestsMgmt ::
  "('e, 'q, 'y) mgmt_ext_scheme \<Rightarrow> string \<Rightarrow> namespace_quota \<Rightarrow> (('e, 'q) server, check_result) state" where
  "CheckRepoForMatchingClusterAPIManifestsMgmt E branch nqCR =
     (let mgmt = ManagementCluster (ClusterRef (nsq_Spec nqCR))
      in clone_and_scan E (mc_Name mgmt @ ''-*'') (mc_RepositoryURL mgmt) branch (wants_deployment nqCR))"

lemmas check_defs = CheckRepoForMatchingResourceQuotaManifests_def CheckRepoForMatchingClusterAPIManifestsMgmt_def

text \<open>
  A search that came back with files: its clone is one the outside made of the branch, and
  the files are those of a run of the search over it.
\<close>

lemma scan_clone_Checked:
  "scan_clone E want cl schedule = Checked cl' ms \<Longrightarrow> cl' = cl \<and>
     (\<exists>st. (scan_step (search_cfg E want cl))\<^sup>*\<^sup>* (scan_init (search_cfg E want cl)) st \<and> outcome st = Some (Found ms))"
  by (auto simp: scan_clone_def intro!: scan_run_reaches split: option.splits outcome.splits)

end
