(* ===== verification/Management.thy ===== *)
theory Management imports Workload_Access Repo_Search begin

text \<open>
  The management server of restapi/restapi_server.go: the endpoint that receives objects
  from workload clusters, and the two handlers behind it,
  which edit manifests in Git and ask Argo CD for a sync. A handler returns nothing; its
  model returns the point at which it gave up.
\<close>

section \<open>The handlers\<close>

datatype handled =
    GaveUp string
  | Pending
  | Synced

text \<open>A step of a handler: its early return, or a value to go on with.\<close>

definition on_value ::
  "('s, handled + 'a) state \<Rightarrow> ('a \<Rightarrow> ('s, handled) state) \<Rightarrow> ('s, handled) state" where
  "on_value m f = State_Monad.bind m (\<lambda>r. case r of Inl h \<Rightarrow> State_Monad.return h | Inr v \<Rightarrow> f v)"

definition ensure_namespace ::
  "('e, 'q, 'y) mgmt_ext_scheme \<Rightarrow> string \<Rightarrow> (('e, 'q) server, handled + unit) state" where
  "ensure_namespace E ns = do {
     g \<leftarrow> ask (GetNamespace E ns);
     (if g = None then State_Monad.return (Inr ())
      else do {
        emit (NamespaceCreated ns);
        c \<leftarrow> ask (CreateNamespace E ns);
        State_Monad.return (if c = None then Inr () else Inl (GaveUp ''namespace''))
      })
   }"

text \<open>The stored NamespaceQuota: created if it cannot be read, then updated.\<close>

definition no_behavior :: behavior where
  "no_behavior = \<lparr>
     QuotaScaling = \<lparr>qs_Enabled = False, MinQuota = Map.empty, MaxQuota = Map.empty,
       ScaleStep = Map.empty, TargetQuotaUtilization = 0, Mode = []\<rparr>,
     NodeScaling = \<lparr>ns_Enabled = False, MinNodes = 0, MaxNodes = 0, NodeFlavor = [],
       ScaleUpCooldownSeconds = 0, ScaleUpThreshold = 0\<rparr>\<rparr>"

definition fresh_nsq :: "namespace_quota \<Rightarrow> namespace_quota" where
  "fresh_nsq nqCR = \<lparr>
     nsq_Meta = \<lparr>Name = Name (nsq_Meta nqCR), Namespace = Namespace (nsq_Meta nqCR),
       Labels = Map.empty, Annotations = Map.empty, Generation = 0\<rparr>,
     nsq_Spec = \<lparr>ClusterRef = ClusterRef (nsq_Spec nqCR),
       AppliedQuotaRef = \<lparr>aqr_Namespace = [], aqr_Name = []\<rparr>, Behavior = no_behavior\<rparr>,
     nsq_Status = \<lparr>Conditions = [], LastUpdated = None\<rparr>\<rparr>"

definition merged_nsq :: "namespace_quota \<Rightarrow> namespace_quota \<Rightarrow> namespace_quota" where
  "merged_nsq nqCR nq = nq\<lparr>nsq_Spec := (nsq_Spec nq)
     \<lparr>ClusterRef := ClusterRef (nsq_Spec nqCR), Behavior := Behavior (nsq_Spec nqCR)\<rparr>\<rparr>"

definition store_nsq ::
  "('e, 'q, 'y) mgmt_ext_scheme \<Rightarrow> namespace_quota \<Rightarrow> (('e, 'q) server, handled + unit) state" where
  "store_nsq E nqCR = do {
     g \<leftarrow> ask (GetNSQ E (Namespace (nsq_Meta nqCR)) (Name (nsq_Meta nqCR)));
     c \<leftarrow> (case g of
            Inr nq \<Rightarrow> State_Monad.return (Inr nq)
          | Inl _ \<Rightarrow> do {
              emit (NSQCreated (fresh_nsq nqCR));
              ask (CreateNSQ E (fresh_nsq nqCR))
            });
     (case c of
        Inl _ \<Rightarrow> State_Monad.return (Inl (GaveUp ''create''))
      | Inr nq \<Rightarrow> do {
          emit (NSQUpdated (merged_nsq nqCR nq));
          u \<leftarrow> ask (UpdateNSQ E (merged_nsq nqCR nq));
          State_Monad.return (if u = None then Inr () else Inl (GaveUp ''update''))
        })
   }"

definition git_credentials ::
  "('e, 'q, 'y) mgmt_ext_scheme \<Rightarrow> (('e, 'q) server, handled + string \<times> string) state" where
  "git_credentials E = do {
     r \<leftarrow> GetGiteaSecretUserNamePassword E;
     State_Monad.return (case r of
       (_, Some e) \<Rightarrow> Inl (GaveUp ''credentials'')
     | ((username, password, _), None) \<Rightarrow> Inr (username, password))
   }"

definition gitea_ready ::
  "('e, 'q, 'y) mgmt_ext_scheme \<Rightarrow> (('e, 'q) server, handled + unit) state" where
  "gitea_ready E = do {
     r \<leftarrow> GetClient E;
     State_Monad.return (if \<not> IsInitialized r then Inl (GaveUp ''gitea client not yet initialized'') else Inr ())
   }"

text \<open>An error of the search ends the handler, and so does an empty result.\<close>

definition find_manifests ::
  "(('e, 'q) server, check_result) state \<Rightarrow> (('e, 'q) server, handled + clone \<times> string list) state" where
  "find_manifests check = do {
     r \<leftarrow> check;
     State_Monad.return (case r of
       CheckUnfinished \<Rightarrow> Inl Pending
     | CheckErr tmpDir e \<Rightarrow> Inl (GaveUp ''failed to find matching manifests'')
     | Checked cl matches \<Rightarrow>
         if matches = [] then Inl (GaveUp ''no matching manifests'') else Inr (cl, matches))
   }"

text \<open>The worker pool over the matches, under a schedule; any error ends the handler.\<close>

definition edit_manifests ::
  "('e, 'q, 'y) mgmt_ext_scheme \<Rightarrow> (string \<Rightarrow> string \<Rightarrow> upd_err + string option) \<Rightarrow> clone \<Rightarrow>
   string list \<Rightarrow> (('e, 'q) server, handled + clone) state" where
  "edit_manifests E edit cl matches = do {
     is \<leftarrow> ask (PoolSchedule E);
     (let p = pool_run edit matches is (pool_init matches (clone_fs cl))
      in State_Monad.return
        (if \<not> all_done p then Inl Pending
         else if errChan p \<noteq> [] then Inl (GaveUp ''manifest update'')
         else Inr (cl\<lparr>clone_fs := pool_fs p\<rparr>)))
   }"

definition commit_step ::
  "('e, 'q, 'y) mgmt_ext_scheme \<Rightarrow> clone \<Rightarrow> string \<times> string \<Rightarrow> string \<Rightarrow>
   (('e, 'q) server, handled + unit) state" where
  "commit_step E cl cred msg = do {
     r \<leftarrow> CommitAndPush E cl ''main'' (fst cred) (snd cred) msg;
     State_Monad.return (if r = None then Inr () else Inl (GaveUp ''commit and push''))
   }"

definition sync_step ::
  "('e, 'q, 'y) mgmt_ext_scheme \<Rightarrow> string \<Rightarrow> string \<Rightarrow> (('e, 'q) server, handled) state" where
  "sync_step E client appName = do {
     r \<leftarrow> TriggerArgoCDSyncWithKubeClient E client appName ''argocd'';
     State_Monad.return (if r = None then Synced else GaveUp ''argocd sync'')
   }"

text \<open>The sprintf of the commit messages, and indexing a possibly nil map of labels.\<close>

definition handleRQFromCluster ::
  "('e, 'q, 'y) mgmt_ext_scheme \<Rightarrow> string \<Rightarrow> 'q resource_quota \<Rightarrow> (('e, 'q) server, handled) state" where
  "handleRQFromCluster E kind rq =
     (let clusterName = map_index (Labels (rq_Meta rq)) ''clusterName'';
          repoURL = map_index (Annotations (rq_Meta rq)) ''repositoryUrl''
      in on_value (ensure_namespace E (Namespace (rq_Meta rq))) (\<lambda>_.
        if clusterName = [] \<or> repoURL = [] then State_Monad.return (GaveUp ''labels'')
        else on_value (git_credentials E) (\<lambda>cred.
          on_value (gitea_ready E) (\<lambda>_.
          on_value (find_manifests (CheckRepoForMatchingResourceQuotaManifests E repoURL ''main'' kind rq)) (\<lambda>(cl, matches).
          on_value (edit_manifests E (quota_edit (Yaml E) (QuantityString E) rq) cl matches) (\<lambda>cl'.
          on_value (commit_step E cl' cred
              (''Update resource quota resource for '' @ clusterName @ ''/'' @ Name (rq_Meta rq))) (\<lambda>_.
          do {
            w \<leftarrow> GetWorkloadClusterClient E clusterName;
            (case w of
               WErr _ \<Rightarrow> State_Monad.return (GaveUp ''workload cluster'')
             | WClient _ None \<Rightarrow> State_Monad.return (GaveUp ''workload client not available yet'')
             | WClient _ (Some client) \<Rightarrow> sync_step E client clusterName)
          })))))))"

text \<open>The client of the management cluster itself is the empty name.\<close>

definition handleNamespaceQuota ::
  "('e, 'q, 'y) mgmt_ext_scheme \<Rightarrow> namespace_quota \<Rightarrow> (('e, 'q) server, handled) state" where
  "handleNamespaceQuota E nqCR =
     (let cref = ClusterRef (nsq_Spec nqCR); mgmt = ManagementCluster cref
      in on_value (ensure_namespace E (Namespace (nsq_Meta nqCR))) (\<lambda>_.
        on_value (store_nsq E nqCR) (\<lambda>_.
        on_value (git_credentials E) (\<lambda>_.
        on_value (gitea_ready E) (\<lambda>_.
        on_value (find_manifests (CheckRepoForMatchingClusterAPIManifestsMgmt E ''main'' nqCR)) (\<lambda>(cl, matches).
        on_value (edit_manifests E
            (deployment_edit (Yaml E) (NodeScaling (Behavior (nsq_Spec nqCR)))) cl matches) (\<lambda>cl'.
        on_value (git_credentials E) (\<lambda>cred.
        on_value (commit_step E cl' cred
            (''Update node replica count for '' @ cr_Name cref @ ''/'' @ cr_Path cref)) (\<lambda>_.
        sync_step E [] (mc_Name mgmt))))))))))"

section \<open>The endpoint\<close>

text \<open>What the universal decoder makes of a body: an error, or an object.\<close>

datatype 'q received =
    Undecodable
  | GotQuota string "'q resource_quota"
  | GotNSQ namespace_quota
  | GotOther

text \<open>The body may be unreadable. The result is the HTTP status.\<close>

definition scaling_endpoint ::
  "('e, 'q, 'y) mgmt_ext_scheme \<Rightarrow> (string \<Rightarrow> 'q received) \<Rightarrow> string \<Rightarrow> string option \<Rightarrow>
   (('e, 'q) server, int) state" where
  "scaling_endpoint E decode httpMethod body =
     (if httpMethod \<noteq> ''POST'' then State_Monad.return 405
      else case body of
        None \<Rightarrow> State_Monad.return 400
      | Some b \<Rightarrow> (case decode b of
           Undecodable \<Rightarrow> State_Monad.return 400
         | GotQuota kind rq \<Rightarrow> do { h \<leftarrow> handleRQFromCluster E kind rq; State_Monad.return 204 }
         | GotNSQ nsq \<Rightarrow> do { h \<leftarrow> handleNamespaceQuota E nsq; State_Monad.return 204 }
         | GotOther \<Rightarrow> State_Monad.return 204))"

section \<open>Lemmas\<close>

text \<open>
  Each step of a handler, by what it adds to the trace: it ends the handler, or the next
  step goes on from there.
\<close>

lemma on_value_wp:
  "wp (on_value m f) s Q \<longleftrightarrow> wp m s (\<lambda>r s'. case r of Inl h \<Rightarrow> Q h s' | Inr v \<Rightarrow> wp (f v) s' Q)"
  by (simp add: on_value_def wp_bind wp_def split: sum.split prod.split)

text \<open>What a handler has added to the trace since it started, given that it started from \<open>t\<close>.\<close>

definition added :: "'q action list \<Rightarrow> ('e, 'q) server \<Rightarrow> 'q action list \<Rightarrow> bool" where
  "added t s as \<longleftrightarrow> trace s = t @ as"

lemma ensure_namespace_rule:
  assumes "added t s as"
    and "\<And>s'. added t s' as \<or> added t s' (as @ [NamespaceCreated ns]) \<Longrightarrow> wp (f ()) s' Q"
    and "\<And>h s'. added t s' as \<or> added t s' (as @ [NamespaceCreated ns]) \<Longrightarrow> h \<noteq> Synced \<Longrightarrow> Q h s'"
  shows "wp (on_value (ensure_namespace E ns) f) s Q"
  using assms(1) unfolding on_value_wp ensure_namespace_def
  by (auto simp: wp_simps added_def intro!: assms(2,3))

lemma git_credentials_rule:
  assumes "added t s as" and "\<And>s' c. added t s' as \<Longrightarrow> wp (f c) s' Q"
    and "\<And>h s'. added t s' as \<Longrightarrow> h \<noteq> Synced \<Longrightarrow> Q h s'"
  shows "wp (on_value (git_credentials E) f) s Q"
  using assms(1) unfolding on_value_wp git_credentials_def wp_bind
  by (auto simp: wp_simps added_def intro!: credentials_wp assms(2,3) split: prod.split option.split)

lemma gitea_ready_rule:
  assumes "added t s as" and "\<And>s'. added t s' as \<Longrightarrow> wp (f ()) s' Q"
    and "\<And>h s'. added t s' as \<Longrightarrow> h \<noteq> Synced \<Longrightarrow> Q h s'"
  shows "wp (on_value (gitea_ready E) f) s Q"
  using assms(1) unfolding on_value_wp gitea_ready_def GetClient_def wp_bind
  by (auto simp: wp_simps added_def intro!: Start_wp assms(2,3) split: option.split)

text \<open>What a search that came back found, and what an edit of it left.\<close>

definition searched :: "('e, 'q, 'y) mgmt_ext_scheme \<Rightarrow> string \<Rightarrow> (header \<Rightarrow> bool) \<Rightarrow> clone \<Rightarrow> string list \<Rightarrow> bool" where
  "searched E url want cl ms \<longleftrightarrow> (\<exists>e. fst (PlainClone E (clone_Dir cl) url ''refs/heads/main'' e) = Inr (clone_fs cl, clone_walk cl)) \<and> ms \<noteq> [] \<and>
     (\<exists>st. (scan_step (search_cfg E want cl))\<^sup>*\<^sup>* (scan_init (search_cfg E want cl)) st \<and>
        outcome st = Some (Found ms))"

definition edited ::
  "(string \<Rightarrow> string \<Rightarrow> upd_err + string option) \<Rightarrow> clone \<Rightarrow> string list \<Rightarrow> clone \<Rightarrow> bool" where
  "edited edit cl ms cl' \<longleftrightarrow> (\<exists>p. (pool_step edit ms)\<^sup>*\<^sup>* (pool_init ms (clone_fs cl)) p \<and> all_done p \<and>
     errChan p = [] \<and> cl' = cl\<lparr>clone_fs := pool_fs p\<rparr>)"

lemma find_manifests_rule:
  assumes "added t s as"
    and "\<And>s' cl ms. added t s' as \<Longrightarrow> searched E url want cl ms \<Longrightarrow> wp (f (cl, ms)) s' Q"
    and "\<And>h s'. added t s' as \<Longrightarrow> h \<noteq> Synced \<Longrightarrow> Q h s'"
  shows "wp (on_value (find_manifests (clone_and_scan E pattern url ''main'' want)) f) s Q"
  using assms(1) unfolding on_value_wp find_manifests_def clone_and_scan_def
  by (auto simp: wp_simps added_def searched_def intro!: assms(2,3) dest!: scan_clone_Checked
      split: sum.split check_result.split)

lemma edit_manifests_rule:
  assumes "added t s as"
    and "\<And>s' cl'. added t s' as \<Longrightarrow> edited edit cl ms cl' \<Longrightarrow> wp (f cl') s' Q"
    and "\<And>h s'. added t s' as \<Longrightarrow> h \<noteq> Synced \<Longrightarrow> Q h s'"
  shows "wp (on_value (edit_manifests E edit cl ms) f) s Q"
  using assms(1) unfolding on_value_wp edit_manifests_def
  by (auto simp: wp_simps added_def Let_def edited_def intro!: assms(2,3) pool_run_reaches)

text \<open>
  Storing the NamespaceQuota went through: what was read is updated, or what was created.
  The update takes the cluster reference and the behavior from the received object and
  everything else from the stored one.
\<close>

definition replaces :: "namespace_quota \<Rightarrow> namespace_quota \<Rightarrow> namespace_quota \<Rightarrow> bool" where
  "replaces cr nq q \<longleftrightarrow> nsq_Meta q = nsq_Meta nq \<and> nsq_Status q = nsq_Status nq \<and>
     ClusterRef (nsq_Spec q) = ClusterRef (nsq_Spec cr) \<and> Behavior (nsq_Spec q) = Behavior (nsq_Spec cr) \<and>
     AppliedQuotaRef (nsq_Spec q) = AppliedQuotaRef (nsq_Spec nq)"

definition nsq_stored :: "('e, 'q, 'y) mgmt_ext_scheme \<Rightarrow> namespace_quota \<Rightarrow> 'q action list \<Rightarrow> bool" where
  "nsq_stored E cr st \<longleftrightarrow>
     (\<exists>nq q e. fst (GetNSQ E (Namespace (nsq_Meta cr)) (Name (nsq_Meta cr)) e) = Inr nq \<and>
        replaces cr nq q \<and> st = [NSQUpdated q]) \<or>
     (\<exists>nq q e. fst (CreateNSQ E (fresh_nsq cr) e) = Inr nq \<and>
        replaces cr nq q \<and> st = [NSQCreated (fresh_nsq cr), NSQUpdated q])"

lemma merged_replaces: "replaces cr nq (merged_nsq cr nq)"
  by (simp add: replaces_def merged_nsq_def)

lemma nsq_storedI:
  "fst (GetNSQ E (Namespace (nsq_Meta cr)) (Name (nsq_Meta cr)) e) = Inr nq \<Longrightarrow>
    nsq_stored E cr [NSQUpdated (merged_nsq cr nq)]"
  "fst (CreateNSQ E (fresh_nsq cr) e) = Inr nq \<Longrightarrow>
    nsq_stored E cr [NSQCreated (fresh_nsq cr), NSQUpdated (merged_nsq cr nq)]"
  using merged_replaces by (auto simp: nsq_stored_def)

lemma store_nsq_rule:
  assumes "added t s as"
    and "\<And>s' st. nsq_stored E cr st \<Longrightarrow> added t s' (as @ st) \<Longrightarrow> wp (f ()) s' Q"
    and "\<And>h s' st. nsq_stored E cr st \<or> st = [NSQCreated (fresh_nsq cr)] \<Longrightarrow>
      added t s' (as @ st) \<Longrightarrow> h \<noteq> Synced \<Longrightarrow> Q h s'"
  shows "wp (on_value (store_nsq E cr) f) s Q"
  using assms(1) unfolding on_value_wp store_nsq_def
  by (auto simp: wp_simps added_def nsq_storedI split: sum.split
      intro: assms(2)[OF nsq_storedI(1)] assms(2)[OF nsq_storedI(2)]
        assms(3)[of "[NSQCreated (fresh_nsq cr)]"]
        assms(3)[OF disjI1[OF nsq_storedI(1)]] assms(3)[OF disjI1[OF nsq_storedI(2)]])

lemma commit_step_rule:
  assumes "added t s as"
    and "\<And>s'. added t s' (as @ [GitCommitted msg (files (clone_fs cl)), GitPushed ''main'']) \<Longrightarrow> wp (f ()) s' Q"
    and "\<And>h s' p. prefix p [GitCommitted msg (files (clone_fs cl)), GitPushed ''main''] \<Longrightarrow>
      added t s' (as @ p) \<Longrightarrow> h \<noteq> Synced \<Longrightarrow> Q h s'"
  shows "wp (on_value (commit_step E cl cred msg) f) s Q"
  unfolding on_value_wp commit_step_def wp_bind
proof (rule CommitAndPush_wp, goal_cases)
  case (1 r s')
  with assms(1) show ?case by (auto simp: wp_simps added_def intro!: assms(3)[of "[]"])
next
  case (2 r s')
  with assms(1) show ?case
    by (auto simp: wp_simps added_def intro!: assms(3)[of "[GitCommitted msg (files (clone_fs cl))]"])
next
  case (3 r s')
  with assms(1) show ?case
    by (auto simp: wp_simps added_def intro!: assms(2)
        assms(3)[of "[GitCommitted msg (files (clone_fs cl)), GitPushed ''main'']"])
qed

text \<open>A sync of the application app of the namespace argocd, asked of one of the clients C.\<close>

definition syncs :: "('e, 'q, 'y) mgmt_ext_scheme \<Rightarrow> (string \<Rightarrow> bool) \<Rightarrow> string \<Rightarrow> 'q action \<Rightarrow> bool" where
  "syncs E C app a \<longleftrightarrow> (\<exists>client x e. C client \<and> fst (GetApp E client ''argocd'' app e) = Inr x \<and>
     a = AppSynced client (app_Name x) (app_Namespace x))"

text \<open>How the last step ends: with a sync, or without success.\<close>

definition ends_with_sync :: "('q action \<Rightarrow> bool) \<Rightarrow> handled \<Rightarrow> 'q action list \<Rightarrow> bool" where
  "ends_with_sync sync h p \<longleftrightarrow> p = [] \<and> h \<noteq> Synced \<or> (\<exists>a. sync a \<and> p = [a])"

lemma sync_final:
  assumes "added t s as" and "C client"
  shows "wp (sync_step E client app) s (\<lambda>h s'. \<exists>p. ends_with_sync (syncs E C app) h p \<and> added t s' (as @ p))"
  unfolding sync_step_def wp_bind
proof (rule TriggerArgo_wp, goal_cases)
  case (1 r s')
  with assms(1) show ?case by (auto simp: wp_simps added_def ends_with_sync_def)
next
  case (2 r x e s')
  then have "syncs E C app (AppSynced client (app_Name x) (app_Namespace x))"
    using assms(2) by (auto simp: syncs_def)
  with 2 assms(1) show ?case by (auto simp: wp_simps added_def ends_with_sync_def)
qed

text \<open>
  The Git part of a handler as a whole: nothing, or a commit, perhaps a push and perhaps a
  sync, the commit being of an edited clone in which a search found something.
\<close>

definition git_work ::
  "('e, 'q, 'y) mgmt_ext_scheme \<Rightarrow> string \<Rightarrow> (header \<Rightarrow> bool) \<Rightarrow> (string \<Rightarrow> string \<Rightarrow> upd_err + string option) \<Rightarrow>
   string \<Rightarrow> ('q action \<Rightarrow> bool) \<Rightarrow> handled \<Rightarrow> 'q action list \<Rightarrow> bool" where
  "git_work E url want edit msg sync h as \<longleftrightarrow>
     (as = [] \<and> h \<noteq> Synced) \<or>
     (\<exists>cl ms cl'. searched E url want cl ms \<and> edited edit cl ms cl' \<and>
        (prefix as [GitCommitted msg (files (clone_fs cl')), GitPushed ''main''] \<and> h \<noteq> Synced \<or>
         (\<exists>a. sync a \<and> as = [GitCommitted msg (files (clone_fs cl')), GitPushed ''main'', a])))"

lemma git_work_early [intro]: "h \<noteq> Synced \<Longrightarrow> git_work E url want edit msg sync h []"
  by (simp add: git_work_def)

lemma git_work_committed:
  assumes "searched E url want cl ms" "edited edit cl ms cl'" "h \<noteq> Synced"
    and "prefix as [GitCommitted msg (files (clone_fs cl')), GitPushed ''main'']"
  shows "git_work E url want edit msg sync h as"
  using assms unfolding git_work_def by blast

lemma git_work_pushed:
  assumes "searched E url want cl ms" "edited edit cl ms cl'" "ends_with_sync sync h p"
  shows "git_work E url want edit msg sync h ([GitCommitted msg (files (clone_fs cl')), GitPushed ''main''] @ p)"
  using assms(3) unfolding ends_with_sync_def
proof (elim disjE exE)
  assume "p = [] \<and> h \<noteq> Synced"
  then show ?thesis using git_work_committed[OF assms(1,2)] by simp
next
  fix a assume "sync a \<and> p = [a]"
  then show ?thesis unfolding git_work_def using assms(1,2) by auto
qed

lemma commit_final:
  fixes s :: "('e, 'q) server" and E :: "('e, 'q, 'y) mgmt_ext_scheme"
  assumes a: "added t s b" and w: "searched E url want cl ms" "edited edit cl ms cl'"
    and fin: "\<And>s' as. added t s' as \<Longrightarrow> wp final s' (\<lambda>h s''. \<exists>p. ends_with_sync sync h p \<and> added t s'' (as @ p))"
    and Q: "\<And>h s' as. added t s' (b @ as) \<Longrightarrow> git_work E url want edit msg sync h as \<Longrightarrow> Q h s'"
  shows "wp (on_value (commit_step E cl' cred msg) (\<lambda>_. final)) s Q"
proof (rule commit_step_rule[OF a])
  fix s' :: "('e, 'q) server" assume "added t s' (b @ [GitCommitted msg (files (clone_fs cl')), GitPushed ''main''])"
  from fin[OF this] show "wp final s' Q"
    by (rule wp_conseq) (use Q git_work_pushed[OF w] in fastforce)
next
  fix h p and s' :: "('e, 'q) server"
  assume "prefix p [GitCommitted msg (files (clone_fs cl')), GitPushed ''main'']"
    and "added t s' (b @ p)" and "h \<noteq> Synced"
  with Q git_work_committed[OF w] show "Q h s'" by blast
qed

text \<open>How a handler ends, once the server runs its Git part.\<close>

definition ended_with ::
  "'q action list \<Rightarrow> 'q action list set \<Rightarrow> (handled \<Rightarrow> 'q action list \<Rightarrow> bool) \<Rightarrow> handled \<Rightarrow>
   ('e, 'q) server \<Rightarrow> bool" where
  "ended_with t pre work h s' \<longleftrightarrow> (\<exists>p as. added t s' (p @ as) \<and> p \<in> pre \<and> work h as)"

lemma workload_sync_final:
  assumes "added t s as"
  shows "wp (do {
       w \<leftarrow> GetWorkloadClusterClient E n;
       (case w of
          WErr _ \<Rightarrow> State_Monad.return (GaveUp x)
        | WClient _ None \<Rightarrow> State_Monad.return (GaveUp y)
        | WClient _ (Some client) \<Rightarrow> sync_step E client n)
     }) s (\<lambda>h s'. \<exists>p. ends_with_sync (syncs E (workload_client E n) n) h p \<and> added t s' (as @ p))"
  unfolding wp_bind
proof (rule wp_conseq[OF GetWorkload_exact], goal_cases)
  case (1 w s')
  with assms have "added t s' as" by (simp add: added_def)
  with 1 show ?case
    by (auto simp: wp_simps ends_with_sync_def split: workload_result.split option.split
        intro!: sync_final[unfolded ends_with_sync_def])
qed

lemma ended_early:
  "added t s p \<Longrightarrow> p \<in> pre \<Longrightarrow> h \<noteq> Synced \<Longrightarrow> ended_with t pre (git_work E url want edit msg sync) h s"
  unfolding ended_with_def by (rule exI[of _ p], rule exI[of _ "[]"]) (simp add: git_work_early)

lemma ended_withD:
  "ended_with t {p @ st |p st. p \<in> N \<and> R st} W h s' \<Longrightarrow>
    \<exists>p st as. trace s' = t @ p @ st @ as \<and> p \<in> N \<and> R st \<and> W h as"
  unfolding ended_with_def added_def by (elim exE conjE CollectE) (metis append_assoc)

text \<open>The search, the edits, the commit and the last step, from a known trace.\<close>

lemma git_part:
  fixes s :: "('e, 'q) server" and E :: "('e, 'q, 'y) mgmt_ext_scheme"
  assumes a: "added t s p" and p: "p \<in> pre"
    and fin: "\<And>s' as. added t s' as \<Longrightarrow> wp final s' (\<lambda>h s''. \<exists>p. ends_with_sync sync h p \<and> added t s'' (as @ p))"
    and rest: "\<And>s' cl. added t s' p \<Longrightarrow>
      (\<And>c s''. added t s'' p \<Longrightarrow> wp (on_value (commit_step E cl c msg) (\<lambda>_. final)) s''
        (ended_with t pre (git_work E url want edit msg sync))) \<Longrightarrow>
      wp (rest cl) s' (ended_with t pre (git_work E url want edit msg sync))"
  shows "wp (on_value (find_manifests (clone_and_scan E pattern url ''main'' want)) (\<lambda>(cl, ms). on_value (edit_manifests E edit cl ms) rest)) s
    (ended_with t pre (git_work E url want edit msg sync))"
proof (rule find_manifests_rule[OF a], goal_cases)
  case (1 s1 cl ms)
  note w = 1(2)
  have "wp (on_value (edit_manifests E edit cl ms) rest) s1
    (ended_with t pre (git_work E url want edit msg sync))"
  proof (rule edit_manifests_rule[OF 1(1)], goal_cases)
    case (1 s2 cl')
    show ?case
    proof (rule rest[OF 1(1)])
      fix c and s3 :: "('e, 'q) server" assume "added t s3 p"
      then show "wp (on_value (commit_step E cl' c msg) (\<lambda>_. final)) s3
        (ended_with t pre (git_work E url want edit msg sync))"
        by (rule commit_final[OF _ w 1(2) fin]) (use p in \<open>auto simp: ended_with_def\<close>)
    qed
  qed (use p ended_early in blast)
  then show ?case by simp
qed (use p ended_early in blast)

text \<open>With the credentials and the client before it, which both handlers get in this order.\<close>

lemma git_pipeline:
  fixes s :: "('e, 'q) server" and E :: "('e, 'q, 'y) mgmt_ext_scheme"
  assumes a: "added t s p" and p: "p \<in> pre"
    and fin: "\<And>s' as. added t s' as \<Longrightarrow> wp final s' (\<lambda>h s''. \<exists>p. ends_with_sync sync h p \<and> added t s'' (as @ p))"
    and rest: "\<And>s' c cl. added t s' p \<Longrightarrow>
      (\<And>c s''. added t s'' p \<Longrightarrow> wp (on_value (commit_step E cl c msg) (\<lambda>_. final)) s''
        (ended_with t pre (git_work E url want edit msg sync))) \<Longrightarrow>
      wp (rest c cl) s' (ended_with t pre (git_work E url want edit msg sync))"
  shows "wp (on_value (git_credentials E) (\<lambda>c. on_value (gitea_ready E) (\<lambda>_.
      on_value (find_manifests (clone_and_scan E pattern url ''main'' want)) (\<lambda>(cl, ms). on_value (edit_manifests E edit cl ms) (rest c))))) s
    (ended_with t pre (git_work E url want edit msg sync))"
proof (rule git_credentials_rule[OF a], goal_cases)
  case (1 s1 c)
  show ?case
  proof (rule gitea_ready_rule[OF 1], goal_cases)
    case (1 s2)
    then show ?case by (rule git_part[OF _ p fin rest])
  qed (rule ended_early[OF _ p])
qed (rule ended_early[OF _ p])

abbreviation rq_work ::
  "('e, 'q, 'y) mgmt_ext_scheme \<Rightarrow> string \<Rightarrow> 'q resource_quota \<Rightarrow> handled \<Rightarrow> 'q action list \<Rightarrow> bool" where
  "rq_work E kind rq \<equiv> git_work E (map_index (Annotations (rq_Meta rq)) ''repositoryUrl'') (wants_quota kind rq)
     (quota_edit (Yaml E) (QuantityString E) rq)
     (''Update resource quota resource for '' @ map_index (Labels (rq_Meta rq)) ''clusterName'' @
       ''/'' @ Name (rq_Meta rq))
     (syncs E (workload_client E (map_index (Labels (rq_Meta rq)) ''clusterName''))
       (map_index (Labels (rq_Meta rq)) ''clusterName''))"

abbreviation nsq_work ::
  "('e, 'q, 'y) mgmt_ext_scheme \<Rightarrow> namespace_quota \<Rightarrow> handled \<Rightarrow> 'q action list \<Rightarrow> bool" where
  "nsq_work E cr \<equiv> git_work E (mc_RepositoryURL (ManagementCluster (ClusterRef (nsq_Spec cr)))) (wants_deployment cr)
     (deployment_edit (Yaml E) (NodeScaling (Behavior (nsq_Spec cr))))
     (''Update node replica count for '' @ cr_Name (ClusterRef (nsq_Spec cr)) @
       ''/'' @ cr_Path (ClusterRef (nsq_Spec cr)))
     (syncs E (\<lambda>client. client = []) (mc_Name (ManagementCluster (ClusterRef (nsq_Spec cr)))))"

text \<open>The namespace part of the trace.\<close>

definition ns_part :: "string \<Rightarrow> 'q action list set" where
  "ns_part ns = {[], [NamespaceCreated ns]}"

lemma handleRQ_ended:
  "wp (handleRQFromCluster E kind rq) s
     (ended_with (trace s) (ns_part (Namespace (rq_Meta rq))) (rq_work E kind rq))"
proof -
  have a: "added (trace s) s []" by (simp add: added_def)
  show ?thesis
    unfolding handleRQFromCluster_def check_defs Let_def
  proof (rule ensure_namespace_rule[OF a], goal_cases)
    case (1 s1)
    then obtain p where p: "added (trace s) s1 p" "p \<in> ns_part (Namespace (rq_Meta rq))" by (auto simp: ns_part_def)
    show ?case
    proof (split if_split, intro conjI impI, goal_cases)
      case 2
      from p show ?case by (rule git_pipeline) (fact workload_sync_final, blast)
    qed (unfold wp_return, rule ended_early[OF p], simp)
  next
    case (2 h s1)
    then obtain n where "added (trace s) s1 n" "n \<in> ns_part (Namespace (rq_Meta rq))" by (auto simp: ns_part_def)
    then show ?case using 2(2) by (rule ended_early)
  qed
qed

lemma handleNSQ_ended:
  "wp (handleNamespaceQuota E cr) s (\<lambda>h s'.
     ended_with (trace s) {p @ st | p st. p \<in> ns_part (Namespace (nsq_Meta cr)) \<and> nsq_stored E cr st}
       (nsq_work E cr) h s' \<or>
     (\<exists>p st. added (trace s) s' (p @ st) \<and> p \<in> ns_part (Namespace (nsq_Meta cr)) \<and>
       st \<in> {[], [NSQCreated (fresh_nsq cr)]}) \<and> h \<noteq> Synced)"
proof -
  let ?N = "ns_part (Namespace (nsq_Meta cr))" and ?P = "{p @ st | p st. p \<in> ns_part (Namespace (nsq_Meta cr)) \<and> nsq_stored E cr st}"
  have a: "added (trace s) s []" by (simp add: added_def)
  show ?thesis
    unfolding handleNamespaceQuota_def check_defs Let_def
  proof (rule ensure_namespace_rule[OF a], goal_cases)
    case (1 s1)
    then obtain n where n: "added (trace s) s1 n" "n \<in> ?N" by (auto simp: ns_part_def)
    show ?case
    proof (rule store_nsq_rule[OF n(1)], goal_cases)
      case (1 s2 st)
      have p: "added (trace s) s2 (n @ st)" by (rule 1(2))
      have q: "n @ st \<in> ?P" by (intro CollectI exI conjI) (rule refl, rule n, rule 1)
      show ?case
      proof (rule wp_disjI1, rule git_pipeline[where final = "sync_step E [] (mc_Name (ManagementCluster (ClusterRef (nsq_Spec cr))))",
            OF p q sync_final], assumption, rule refl, goal_cases)
        case (1 s3 c cl)
        from 1(1) show ?case by (rule git_credentials_rule) (rule 1(2), assumption, rule ended_early[OF _ q])
      qed
    next
      case (2 h s2 st)
      then show ?case using n(2) ended_early[of "trace s" s2 "n @ st" ?P h] by blast
    qed
  next
    case (2 h s1)
    then obtain n where "added (trace s) s1 (n @ [])" "n \<in> ?N" by (auto simp: ns_part_def)
    then show ?case using 2(2) by blast
  qed
qed

section \<open>Sequences of requests\<close>

text \<open>
  The Git discipline of a trace: each push comes right after a commit, each sync right
  after a push. The first argument is the action before.
\<close>

fun may_follow :: "'q action option \<Rightarrow> 'q action \<Rightarrow> bool" where
  "may_follow p (GitPushed b) = (case p of Some (GitCommitted msg fs) \<Rightarrow> True | _ \<Rightarrow> False)"
| "may_follow p (AppSynced c a n) = (case p of Some (GitPushed b) \<Rightarrow> True | _ \<Rightarrow> False)"
| "may_follow p (Posted url obj) = False"
| "may_follow p (RQUpdated rq) = False"
| "may_follow p (FileCreated ow repo path cont m) = False"
| "may_follow p _ = True"

fun git_ordered :: "'q action option \<Rightarrow> 'q action list \<Rightarrow> bool" where
  "git_ordered p [] = True"
| "git_ordered p (a # as) = (may_follow p a \<and> git_ordered (Some a) as)"

definition commits :: "'q action list \<Rightarrow> nat" where
  "commits as = length (filter (\<lambda>a. case a of GitCommitted _ _ \<Rightarrow> True | _ \<Rightarrow> False) as)"

lemma commits_simps [simp]:
  "commits [] = 0" "commits (as @ bs) = commits as + commits bs"
  "commits (GitCommitted m f # as) = Suc (commits as)" "commits (GitPushed b # as) = commits as"
  "commits (AppSynced c a n # as) = commits as" "commits (NamespaceCreated ns # as) = commits as"
  "commits (NSQCreated q # as) = commits as" "commits (NSQUpdated q # as) = commits as"
  "commits (FileCreated ow repo path cont m # as) = commits as"
  by (simp_all add: commits_def)

lemma may_follow_any: "may_follow None a \<Longrightarrow> may_follow p a"
  by (cases a) auto

lemma git_ordered_any: "git_ordered None as \<Longrightarrow> git_ordered p as"
  by (cases as) (auto intro: may_follow_any)

lemma git_ordered_append: "git_ordered p as \<Longrightarrow> git_ordered None bs \<Longrightarrow> git_ordered p (as @ bs)"
  by (induction p as rule: git_ordered.induct) (auto intro: git_ordered_any)

lemma git_work_ordered:
  assumes "git_work E url want edit msg (syncs E C app) h as"
  shows "git_ordered None as" "commits as \<le> 1"
  using assms unfolding git_work_def syncs_def
  by (auto simp: prefix_Cons)

lemma handler_parts_ordered:
  assumes "as \<in> ns_part ns"
  shows "git_ordered None as" "commits as = 0"
  using assms by (auto simp: ns_part_def)

lemma nsq_stored_ordered:
  assumes "nsq_stored E cr st \<or> st \<in> {[], [NSQCreated (fresh_nsq cr)]}"
  shows "git_ordered None st" "commits st = 0"
  using assms by (auto simp: nsq_stored_def)

text \<open>What one handler adds keeps the discipline, with at most one commit.\<close>

definition disciplined :: "('e, 'q) server \<Rightarrow> ('e, 'q) server \<Rightarrow> nat \<Rightarrow> bool" where
  "disciplined s s' n \<longleftrightarrow> (\<exists>as. trace s' = trace s @ as \<and> git_ordered None as \<and> commits as \<le> n)"

lemma disciplined_refl: "disciplined s s n"
  by (auto simp: disciplined_def intro: exI[of _ "[]"])

lemma disciplined_trans: "disciplined s1 s2 m \<Longrightarrow> disciplined s2 s3 n \<Longrightarrow> disciplined s1 s3 (m + n)"
  unfolding disciplined_def by (metis add_mono append_assoc commits_simps(2) git_ordered_append)

lemma handleRQ_disciplined: "wp (handleRQFromCluster E kind rq) s (\<lambda>h s'. disciplined s s' 1)"
proof (rule wp_conseq[OF handleRQ_ended], unfold ended_with_def added_def, elim exE conjE, goal_cases)
  case (1 h s' p as)
  note handler_parts_ordered[OF 1(2)] git_work_ordered[OF 1(3)]
  then have "git_ordered None (p @ as)" "commits (p @ as) \<le> 1"
    by (simp_all add: git_ordered_append)
  with 1(1) show ?case unfolding disciplined_def by blast
qed

lemma handleNSQ_disciplined: "wp (handleNamespaceQuota E cr) s (\<lambda>h s'. disciplined s s' 1)"
proof (rule wp_conseq[OF handleNSQ_ended], elim disjE conjE exE, goal_cases)
  case (1 h s')
  from ended_withD[OF this] obtain p st as where
    "trace s' = trace s @ p @ st @ as" "p \<in> ns_part (Namespace (nsq_Meta cr))" "nsq_stored E cr st" "nsq_work E cr h as"
    by blast
  moreover note handler_parts_ordered[OF this(2)] nsq_stored_ordered[OF disjI1[OF this(3)]] git_work_ordered[OF this(4)]
  then have "git_ordered None (p @ st @ as)" "commits (p @ st @ as) \<le> 1"
    by (simp_all add: git_ordered_append)
  ultimately show ?case unfolding disciplined_def by blast
next
  case (2 h s' p st)
  then have "git_ordered None (p @ st)" "commits (p @ st) \<le> 1"
    using handler_parts_ordered[of p] nsq_stored_ordered[of E cr st] by (auto intro: git_ordered_append)
  with 2 show ?case unfolding disciplined_def added_def by blast
qed

text \<open>The status of a request, by its method, its body and the decoder alone.\<close>

definition status_of :: "(string \<Rightarrow> 'q received) \<Rightarrow> string \<Rightarrow> string option \<Rightarrow> int" where
  "status_of decode httpMethod body =
     (if httpMethod \<noteq> ''POST'' then 405
      else case body of None \<Rightarrow> 400 | Some b \<Rightarrow> (case decode b of Undecodable \<Rightarrow> 400 | _ \<Rightarrow> 204))"

text \<open>
  What the endpoint needs of a handler: it keeps the discipline with at most one commit.
  Then the answer is 204 and the discipline is kept, whatever the handler returned.
\<close>

locale request_handler =
  fixes handle :: "'r \<Rightarrow> (('e, 'q) server, handled) state"
  assumes keeps_discipline: "wp (handle r) s (\<lambda>h s'. disciplined s s' 1)"

context request_handler begin

lemma answered:
  "wp (do { h \<leftarrow> handle r; State_Monad.return (204 :: int) }) s
     (\<lambda>st s'. st = 204 \<and> disciplined s s' (if st = 204 then 1 else 0))"
  using keeps_discipline by (simp add: wp_simps)

end

interpretation rq_handler: request_handler "\<lambda>(kind, rq). handleRQFromCluster E kind rq" for E
  by unfold_locales (use handleRQ_disciplined in auto)

interpretation nsq_handler: request_handler "handleNamespaceQuota E" for E
  by unfold_locales (rule handleNSQ_disciplined)

lemma endpoint_disciplined:
  "wp (scaling_endpoint E decode httpMethod body) s (\<lambda>st s'.
     st = status_of decode httpMethod body \<and> disciplined s s' (if st = 204 then 1 else 0))"
  using rq_handler.answered[of E _ s] nsq_handler.answered[of E _ s]
  by (auto simp: scaling_endpoint_def status_of_def wp_return disciplined_refl split: option.split received.split)

text \<open>Requests one after another, each a method and a body.\<close>

fun serve ::
  "('e, 'q, 'y) mgmt_ext_scheme \<Rightarrow> (string \<Rightarrow> 'q received) \<Rightarrow> (string \<times> string option) list \<Rightarrow>
   (('e, 'q) server, int list) state" where
  "serve E decode [] = State_Monad.return []"
| "serve E decode ((httpMethod, body) # rs) = do {
     st \<leftarrow> scaling_endpoint E decode httpMethod body;
     sts \<leftarrow> serve E decode rs;
     State_Monad.return (st # sts)
   }"

lemma serve_disciplined:
  "wp (serve E decode rs) s (\<lambda>sts s'.
     sts = map (\<lambda>(httpMethod, body). status_of decode httpMethod body) rs \<and>
     disciplined s s' (count_list sts 204))"
proof (induction rs arbitrary: s)
  case (Cons r rs)
  obtain m b where r: "r = (m, b)" by (cases r)
  have "disciplined s s2 (count_list (st # sts) 204)"
    if "disciplined s s1 (if st = 204 then 1 else 0)" "disciplined s1 s2 (count_list sts 204)"
    for s1 s2 and st :: int and sts
    using disciplined_trans[OF that] by (auto split: if_splits)
  then show ?case
    unfolding r serve.simps wp_bind wp_return
    by (intro wp_conseq[OF endpoint_disciplined] wp_conseq[OF Cons]) auto
qed (simp add: wp_simps disciplined_refl)

section \<open>Properties\<close>

text \<open>
  C12. What handleRQFromCluster does to the world, on every path: it may create the
  namespace, and then commits, pushes and syncs in that order or stops on the way. It
  commits only edits that went through without an error, of manifests a search found, and
  reports success only when it got to the sync.
\<close>

theorem handleRQ_pipeline:
  "wp (handleRQFromCluster E kind rq) s (\<lambda>h s'. \<exists>pre work. trace s' = trace s @ pre @ work \<and>
     pre \<in> ns_part (Namespace (rq_Meta rq)) \<and> rq_work E kind rq h work)"
  by (rule wp_conseq[OF handleRQ_ended]) (unfold ended_with_def added_def, blast)


text \<open>
  The server over any sequence of requests: the answer to each depends on its method,
  its body and the decoder alone, never on what its handler did, so 204 tells a client
  nothing about success. What the handlers did keeps the Git discipline: each push comes
  right after a commit, each sync right after a push, with at most one commit per request
  that was answered by 204, and nothing the workload controller does.
\<close>

theorem requests_disciplined:
  "wp (serve E decode rs) s (\<lambda>sts s'.
     sts = map (\<lambda>(httpMethod, body). status_of decode httpMethod body) rs \<and>
     (\<exists>as. trace s' = trace s @ as \<and> git_ordered None as \<and> commits as \<le> count_list sts 204))"
  using serve_disciplined[of E decode rs s] unfolding disciplined_def .

end
