(* ===== verification/Sample_Server.thy ===== *)
theory Sample_Server imports Management Sample_World begin

text \<open>
  A concrete outside of the management server, on which the witnesses evaluate: a Git
  repository with one manifest, a workload cluster named edge, and goroutines that run one
  after another. Nothing of the model depends on it.
\<close>

definition quota_header :: header where
  "quota_header = \<lparr>h_Kind = ''ResourceQuota'', h_Name = ''team-quota'', h_Namespace = ''team''\<rparr>"

definition sample_decode :: "string \<Rightarrow> header list \<times> string option" where
  "sample_decode c = (if c = ''rq-old'' \<or> c = ''rq-new'' then ([quota_header], None) else ([], Some ''yaml: bad''))"

definition sample_getenv :: "string \<Rightarrow> string" where
  "sample_getenv v = (if v = ''GIT_SERVER_URL'' then ''http://git'' else if v = ''SERVER_TYPE'' then ''MGMT'' else [])"

text \<open>A search in which the collecting loop takes the match before it sees the channel closed.\<close>

definition sample_search :: "mover list" where
  "sample_search = [Walker, Walker, Worker 0, Worker 0, Worker 0, Worker 0, Worker 0, Closer,
     Main OnMatch, Main OnMatch]"

definition ready_condition :: condition where
  "ready_condition = \<lparr>cond_Type = ''Ready'', cond_Status = ''True'', cond_Reason = [], cond_Message = [],
     cond_ObservedGeneration = 0, cond_LastTransitionTime = 0\<rparr>"

definition sample_mgmt :: "(sample_env, int) mgmt_ext" where
  "sample_mgmt = \<lparr>
     q_zero = q_zero (sample_ext sample_getenv),
     MilliValue = MilliValue (sample_ext sample_getenv),
     Value = Value (sample_ext sample_getenv),
     Add = Add (sample_ext sample_getenv),
     NewMilliQuantity = NewMilliQuantity (sample_ext sample_getenv),
     NewQuantity = NewQuantity (sample_ext sample_getenv),
     ParseQuantity = ParseQuantity (sample_ext sample_getenv),
     rl_Cpu = rl_Cpu (sample_ext sample_getenv),
     rl_Memory = rl_Memory (sample_ext sample_getenv),
     range_order = range_order (sample_ext sample_getenv),
     Getenv = sample_getenv,
     Now = Now (sample_ext sample_getenv),
     Marshal = Marshal (sample_ext sample_getenv),
     NewRequest = NewRequest (sample_ext sample_getenv),
     HttpDo = HttpDo (sample_ext sample_getenv),
     GetNSQ = GetNSQ (sample_ext sample_getenv),
     ListNSQ = ListNSQ (sample_ext sample_getenv),
     GetRQ = GetRQ (sample_ext sample_getenv),
     ListRQ = ListRQ (sample_ext sample_getenv),
     UpdateRQ = UpdateRQ (sample_ext sample_getenv),
     ListNodes = ListNodes (sample_ext sample_getenv),
     ListPods = ListPods (sample_ext sample_getenv),
     ListDeployments = ListDeployments (sample_ext sample_getenv),
     ListReplicaSets = ListReplicaSets (sample_ext sample_getenv),
     ListEvents = ListEvents (sample_ext sample_getenv),
     Yaml = sample_yaml,
     DecodeStream = sample_decode,
     QuantityString = (\<lambda>q. if q = 1000000000 then ''1'' else ''?''),
     NumCPU = 1,
     GetSecret = (\<lambda>ns nm e. (Inr [''username'' \<mapsto> ''bot'', ''password'' \<mapsto> ''pw'', ''value'' \<mapsto> ''kubeconfig''], e)),
     SelectDone = (\<lambda>e. (None, e\<lparr>se_now := se_now e + second\<rparr>)),
     NewGiteaClient = (\<lambda>_ e. (None, e)),
     MyUserInfo = (\<lambda>_ e. (None, e)),
     MkdirTemp = (\<lambda>_ e. (Inr ''/tmp/1'', e)),
     PlainClone = (\<lambda>_ _ _ e. (Inr (sample_fs ''rq-old'', [Regular ''a.yaml'']), e)),
     SearchSchedule = (\<lambda>e. (sample_search, e)),
     PoolSchedule = (\<lambda>e. ([0, 0, 0, 0], e)),
     OpenRepo = (\<lambda>_ e. (None, e)),
     GetWorktree = (\<lambda>_ e. (None, e)),
     AddAll = (\<lambda>_ e. (None, e)),
     Commit = (\<lambda>_ _ _ e. (None, e)),
     Push = (\<lambda>_ _ _ _ e. (None, e)),
     GetApp = (\<lambda>_ ns nm e. (Inr \<lparr>app_Name = nm, app_Namespace = ns, Operation = None\<rparr>, e)),
     UpdateApp = (\<lambda>_ _ e. (None, e)),
     GetNamespace = (\<lambda>_ e. (None, e)),
     CreateNamespace = (\<lambda>_ e. (None, e)),
     CreateNSQ = (\<lambda>nsq e. (Inr nsq, e)),
     UpdateNSQ = (\<lambda>_ e. (None, e)),
     ListClusters = (\<lambda>e. (Inr [''edge''], e)),
     GetClusterConditions = (\<lambda>_ _ e. (Inr [ready_condition], e)),
     RESTConfig = (\<lambda>_. Inr ''edge-config''),
     NewClusterClient = (\<lambda>_ e. (Inr ''edge-client'', e))\<rparr>"

definition sample_quota :: "int resource_quota" where
  "sample_quota = \<lparr>rq_Meta = \<lparr>Name = ''team-quota'', Namespace = ''team'',
       Labels = [''clusterName'' \<mapsto> ''edge''], Annotations = [''repositoryUrl'' \<mapsto> ''http://git/repo''],
       Generation = 0\<rparr>,
     SpecHard = Some [''limits.cpu'' \<mapsto> 1000000000], StatusHard = Map.empty, StatusUsed = Map.empty\<rparr>"

definition sample_server_state :: "(sample_env, int) server" where
  "sample_server_state = \<lparr>env = \<lparr>se_now = 0, se_nsqs = [], se_rqs = [], se_nodes = [], se_pods = [],
       se_deps = [], se_rss = [], se_events = [], se_status = 204\<rparr>,
     trace = [], singleInstance = None\<rparr>"

section \<open>The search and the pool of the sample\<close>

definition sample_clone :: clone where
  "sample_clone = \<lparr>clone_Dir = ''/tmp/1'', clone_fs = sample_fs ''rq-old'', clone_walk = [Regular ''a.yaml'']\<rparr>"

lemma sample_wanted: "wants_quota ''ResourceQuota'' sample_quota quota_header"
  by (simp add: wants_quota_def quota_header_def sample_quota_def)

lemma sample_cfg_sel:
  "wanted (search_cfg sample_mgmt w sample_clone) = w"
  "decode_stream (search_cfg sample_mgmt w sample_clone) = sample_decode"
  "tree (search_cfg sample_mgmt w sample_clone) = sample_fs ''rq-old''"
  "walk (search_cfg sample_mgmt w sample_clone) = [Regular ''a.yaml'']"
  "workerCount (search_cfg sample_mgmt w sample_clone) = 1"
  by (simp_all add: search_cfg_def sample_mgmt_def sample_clone_def)

lemma sample_search_found:
  "outcome (scan_run (search_cfg sample_mgmt (wants_quota ''ResourceQuota'' sample_quota) sample_clone)
     sample_search (scan_init (search_cfg sample_mgmt (wants_quota ''ResourceQuota'' sample_quota) sample_clone))) =
     Some (Found [''a.yaml''])"
  by (simp add: scan_eval sample_search_def sample_cfg_sel sample_decode_def sample_wanted)

lemma sample_quota_edit:
  "quota_edit sample_yaml (\<lambda>q. if q = 1000000000 then ''1'' else ''?'') sample_quota p ''rq-old'' = Inr (Some ''rq-new'')"
proof -
  have m: "parse_manifest sample_yaml p ''rq-old'' = Inr (rq_doc YNull, [''hard'' \<mapsto> YNull])"
    by (simp add: parse_manifest_def sample_yaml_def as_string_def as_map_def isSupportedKind_def)
  have h: "(\<lambda>k. map_option (\<lambda>q. if q = 1000000000 then ''1'' else ''?'') (mget (SpecHard sample_quota) k)) =
      [''limits.cpu'' \<mapsto> ''1'']"
    by (auto simp: sample_quota_def)
  show ?thesis
    by (simp add: quota_edit_def m h marshal_text_def) (simp add: sample_yaml_def)
qed

lemma sample_pool:
  "pool_run (quota_edit (Yaml sample_mgmt) (QuantityString sample_mgmt) sample_quota) [''a.yaml''] [0, 0, 0, 0]
     (pool_init [''a.yaml''] (sample_fs ''rq-old'')) =
     \<lparr>phases = [Done None], pool_fs = sample_fs ''rq-new'', errChan = []\<rparr>"
  by (simp add: sample_mgmt_def pool_next_def pool_init_def holding_def finish_edit_def sample_quota_edit
      sample_writes)

end
