(* ===== verification/Startup.thy ===== *)
theory Startup imports Prelude begin

text \<open>
  cmd/main.go: the options of the servers, made from the flags, and the order in which the
  process starts its parts or gives up. Every library call of main is made at most once,
  so its answer is a field of a record; the actions are listed in the order they happen.
\<close>

section \<open>Flags\<close>

record flags =
  metricsAddr :: string
  metricsCertPath :: string
  metricsCertName :: string
  metricsCertKey :: string
  webhookCertPath :: string
  webhookCertName :: string
  webhookCertKey :: string
  enableLeaderElection :: bool
  probeAddr :: string
  secureMetrics :: bool
  enableHTTP2 :: bool

text \<open>What flag.Parse leaves without arguments.\<close>

definition default_flags :: flags where
  "default_flags = \<lparr>metricsAddr = ''0'', metricsCertPath = [], metricsCertName = ''tls.crt'',
     metricsCertKey = ''tls.key'', webhookCertPath = [], webhookCertName = ''tls.crt'',
     webhookCertKey = ''tls.key'', enableLeaderElection = False, probeAddr = '':8081'',
     secureMetrics = True, enableHTTP2 = False\<rparr>"

section \<open>Options\<close>

text \<open>Of a TLS configuration the code touches the protocols it offers.\<close>

record tls_config =
  NextProtos :: "string list"

record webhook_options =
  wh_TLSOpts :: "(tls_config \<Rightarrow> tls_config) list"
  wh_CertDir :: string
  wh_CertName :: string
  wh_KeyName :: string

record metrics_options =
  BindAddress :: string
  SecureServing :: bool
  ms_TLSOpts :: "(tls_config \<Rightarrow> tls_config) list"
  FilterProvider :: "string option"
  ms_CertDir :: string
  ms_CertName :: string
  ms_KeyName :: string

record manager_options =
  Metrics :: metrics_options
  WebhookServer :: webhook_options
  HealthProbeBindAddress :: string
  LeaderElection :: bool
  LeaderElectionID :: string

definition disableHTTP2 :: "tls_config \<Rightarrow> tls_config" where
  "disableHTTP2 c = c\<lparr>NextProtos := [''http/1.1'']\<rparr>"

definition tlsOpts :: "flags \<Rightarrow> (tls_config \<Rightarrow> tls_config) list" where
  "tlsOpts fl = (if \<not> enableHTTP2 fl then [] @ [disableHTTP2] else [])"

definition webhookServerOptions :: "flags \<Rightarrow> webhook_options" where
  "webhookServerOptions fl =
     (let o1 = \<lparr>wh_TLSOpts = tlsOpts fl, wh_CertDir = [], wh_CertName = [], wh_KeyName = []\<rparr>
      in if 0 < length (webhookCertPath fl)
         then o1\<lparr>wh_CertDir := webhookCertPath fl, wh_CertName := webhookCertName fl,
           wh_KeyName := webhookCertKey fl\<rparr>
         else o1)"

definition metricsServerOptions :: "flags \<Rightarrow> metrics_options" where
  "metricsServerOptions fl =
     (let o1 = \<lparr>BindAddress = metricsAddr fl, SecureServing = secureMetrics fl, ms_TLSOpts = tlsOpts fl,
            FilterProvider = None, ms_CertDir = [], ms_CertName = [], ms_KeyName = []\<rparr>;
          o2 = (if secureMetrics fl
            then o1\<lparr>FilterProvider := Some ''WithAuthenticationAndAuthorization''\<rparr> else o1)
      in if 0 < length (metricsCertPath fl)
         then o2\<lparr>ms_CertDir := metricsCertPath fl, ms_CertName := metricsCertName fl,
           ms_KeyName := metricsCertKey fl\<rparr>
         else o2)"

definition manager_options_of :: "flags \<Rightarrow> manager_options" where
  "manager_options_of fl = \<lparr>Metrics = metricsServerOptions fl, WebhookServer = webhookServerOptions fl,
     HealthProbeBindAddress = probeAddr fl, LeaderElection = enableLeaderElection fl,
     LeaderElectionID = ''05658a5f.dcn.ssu.ac.kr''\<rparr>"

section \<open>The start\<close>

text \<open>The errors the library calls of main answer with, None being success.\<close>

record boot_answers =
  config_err :: "string option"
  manager_err :: "string option"
  setup_err :: "string option"
  healthz_err :: "string option"
  readyz_err :: "string option"
  run_err :: "string option"

datatype boot_action =
    NewManager manager_options
  | StartServer string
  | SetupReconciler
  | AddHealthzCheck
  | AddReadyzCheck
  | StartManager

datatype boot_end =
    Exited int
  | Crashed string
  | Ended

text \<open>The checks from line 208 on, each of which ends the process with status 1.\<close>

definition run_manager :: "boot_answers \<Rightarrow> boot_action list \<times> boot_end" where
  "run_manager a =
     (if setup_err a \<noteq> None then ([SetupReconciler], Exited 1)
      else if healthz_err a \<noteq> None then ([SetupReconciler, AddHealthzCheck], Exited 1)
      else if readyz_err a \<noteq> None then ([SetupReconciler, AddHealthzCheck, AddReadyzCheck], Exited 1)
      else ([SetupReconciler, AddHealthzCheck, AddReadyzCheck, StartManager],
        if run_err a \<noteq> None then Exited 1 else Ended))"

definition is_mgmt :: "(string \<Rightarrow> string) \<Rightarrow> bool" where
  "is_mgmt getenv \<longleftrightarrow> getenv ''SERVER_TYPE'' \<noteq> [] \<and> getenv ''SERVER_TYPE'' = ''MGMT''"

text \<open>
  GetConfigOrDie exits with 1. NewManager gives nil with an error, and the management
  server asks that nil manager for its client before the error is looked at.
\<close>

definition main_go :: "flags \<Rightarrow> (string \<Rightarrow> string) \<Rightarrow> boot_answers \<Rightarrow> boot_action list \<times> boot_end" where
  "main_go fl getenv a =
     (if config_err a \<noteq> None then ([], Exited 1)
      else if is_mgmt getenv \<and> manager_err a \<noteq> None
        then ([NewManager (manager_options_of fl)], Crashed ''nil pointer dereference'')
      else let served = [NewManager (manager_options_of fl)] @
             (if is_mgmt getenv then [StartServer '':8000''] else [])
           in if manager_err a \<noteq> None then (served, Exited 1)
              else case run_manager a of (as, r) \<Rightarrow> (served @ as, r))"

section \<open>Lemmas\<close>

text \<open>controller-runtime applies the functions of TLSOpts to a configuration in order.\<close>

definition offered :: "(tls_config \<Rightarrow> tls_config) list \<Rightarrow> tls_config \<Rightarrow> string list" where
  "offered fs c = NextProtos (foldl (\<lambda>c f. f c) c fs)"

definition all_starts :: "flags \<Rightarrow> bool \<Rightarrow> boot_action list" where
  "all_starts fl mgmt = [NewManager (manager_options_of fl)] @ (if mgmt then [StartServer '':8000''] else []) @
     [SetupReconciler, AddHealthzCheck, AddReadyzCheck, StartManager]"

definition no_answer_failed :: "boot_answers \<Rightarrow> bool" where
  "no_answer_failed a \<longleftrightarrow> config_err a = None \<and> manager_err a = None \<and> setup_err a = None \<and>
     healthz_err a = None \<and> readyz_err a = None \<and> run_err a = None"

lemma server_only_on_mgmt:
  "StartServer addr \<in> set (fst (main_go fl getenv a)) \<longleftrightarrow>
     addr = '':8000'' \<and> is_mgmt getenv \<and> config_err a = None \<and> manager_err a = None"
  by (auto simp: main_go_def run_manager_def Let_def)

section \<open>Properties\<close>

text \<open>
  The servers offer what the flags say: without enable-http2 both the webhook and the
  metrics server offer only HTTP/1.1 whatever the library's configuration was, with it they
  offer what it was; secure metrics are filtered by authentication and authorization, and
  each server has certificate files exactly if a directory was given.
\<close>

theorem servers_follow_flags:
  "(let m = manager_options_of fl; w = WebhookServer m; s = Metrics m
    in (\<forall>c. offered (wh_TLSOpts w) c = (if enableHTTP2 fl then NextProtos c else [''http/1.1'']) \<and>
            offered (ms_TLSOpts s) c = (if enableHTTP2 fl then NextProtos c else [''http/1.1''])) \<and>
       SecureServing s = secureMetrics fl \<and>
       (FilterProvider s = Some ''WithAuthenticationAndAuthorization'') = secureMetrics fl \<and>
       (wh_CertDir w, wh_CertName w, wh_KeyName w) = (if webhookCertPath fl = [] then ([], [], [])
          else (webhookCertPath fl, webhookCertName fl, webhookCertKey fl)) \<and>
       (ms_CertDir s, ms_CertName s, ms_KeyName s) = (if metricsCertPath fl = [] then ([], [], [])
          else (metricsCertPath fl, metricsCertName fl, metricsCertKey fl)))"
  by (simp add: manager_options_of_def webhookServerOptions_def metricsServerOptions_def tlsOpts_def
      disableHTTP2_def offered_def Let_def)

text \<open>
  C36. How the process starts: its actions are always an initial part of one fixed order,
  in which the management server, if there is one, comes before the controller and the
  manager runs last. It ends without an error exactly if no call fails, and it crashes
  instead of exiting with 1 exactly if it is a management server and no manager could be
  made.
\<close>

theorem start_order:
  "case main_go fl getenv a of (as, r) \<Rightarrow>
     prefix as (all_starts fl (is_mgmt getenv)) \<and>
     (r = Ended) = no_answer_failed a \<and>
     (as = all_starts fl (is_mgmt getenv)) = (r = Ended \<or> no_answer_failed (a\<lparr>run_err := None\<rparr>)) \<and>
     (r = Crashed ''nil pointer dereference'') = (is_mgmt getenv \<and> config_err a = None \<and> manager_err a \<noteq> None) \<and>
     r \<in> {Ended, Exited 1, Crashed ''nil pointer dereference''}"
  by (auto simp: main_go_def run_manager_def all_starts_def no_answer_failed_def Let_def)

end
