(* ===== verification/Composition.thy ===== *)
theory Composition imports Reconciler Sample_Server Startup begin

text \<open>
  What the components give together: a request to the management server as a whole, from
  the received object to the committed manifests, safely on every path and successfully
  when the outside works.
\<close>

section \<open>The committed manifests\<close>

text \<open>
  All listed manifests hold their old documents with spec.hard replaced by the quantities
  of the ResourceQuota, and all other files are what they were.
\<close>

definition hard_written :: "yaml_ops \<Rightarrow> ('q \<Rightarrow> string) \<Rightarrow> 'q resource_quota \<Rightarrow> string list \<Rightarrow> fs \<Rightarrow> fs \<Rightarrow> bool" where
  "hard_written Y String rq ms s t \<longleftrightarrow> (\<forall>p. if p \<in> set ms
     then (\<exists>doc spec. manifest_of Y p s = Some (doc, spec) \<and> manifest_of Y p t =
       (let spec' = spec(''hard'' \<mapsto> YMap (\<lambda>k. map_option (YStr \<circ> String) (mget (SpecHard rq) k)))
        in Some (doc(''spec'' \<mapsto> YMap spec'), spec')))
     else files t p = files s p)"

lemma manifest_of_cong:
  "read_fault t = read_fault s \<Longrightarrow> files t p = files s p \<Longrightarrow> manifest_of Y p t = manifest_of Y p s"
  unfolding manifest_of_def by (drule (1) ReadFile_cong) simp

lemma quota_update_parses:
  "fst (UpdateResourceQuota Y String rq p s) = None \<Longrightarrow> \<exists>doc spec. manifest_of Y p s = Some (doc, spec)"
  by (auto simp: UpdateResourceQuota_def manifest_of_def split: sum.splits)

text \<open>What any editor leaves in an edited clone: each file as its own successful edit leaves it.\<close>

context manifest_updater begin

lemma edited_files:
  assumes d: "distinct ms" and ed: "edited edit cl ms cl'"
  shows "q \<in> set ms \<Longrightarrow> upd q (clone_fs cl) = (None, snd (upd q (clone_fs cl)))"
    and "q \<in> set ms \<Longrightarrow> manifest_of Y q (clone_fs cl') = manifest_of Y q (snd (upd q (clone_fs cl)))"
    and "q \<notin> set ms \<Longrightarrow> files (clone_fs cl') q = files (clone_fs cl) q"
proof -
  from ed obtain p where r: "(pool_step edit ms)\<^sup>*\<^sup>* (pool_init ms (clone_fs cl)) p"
    and a: "all_done p" and e: "errChan p = []" and cl': "clone_fs cl' = pool_fs p"
    by (auto simp: edited_def)
  note clean = pool_clean[OF d r a e]
  show "upd q (clone_fs cl) = (None, snd (upd q (clone_fs cl)))" if "q \<in> set ms"
    using clean(1)[OF that] by (metis prod.collapse)
  show "manifest_of Y q (clone_fs cl') = manifest_of Y q (snd (upd q (clone_fs cl)))" if "q \<in> set ms"
    unfolding cl' using clean(1)[OF that] clean(3) by (intro manifest_of_cong) (simp_all add: frame)
  show "files (clone_fs cl') q = files (clone_fs cl) q" if "q \<notin> set ms"
    unfolding cl' by (rule clean(2)[OF that])
qed

end

lemma edited_quota:
  assumes Y: "yaml_laws Y" and d: "distinct ms" and ed: "edited (quota_edit Y String rq) cl ms cl'"
  shows "hard_written Y String rq ms (clone_fs cl) (clone_fs cl')"
proof -
  note e = quota_updater.edited_files[OF d ed]
  have "\<exists>doc spec. manifest_of Y q (clone_fs cl) = Some (doc, spec) \<and> manifest_of Y q (clone_fs cl') =
       (let spec' = spec(''hard'' \<mapsto> YMap (\<lambda>k. map_option (YStr \<circ> String) (mget (SpecHard rq) k)))
        in Some (doc(''spec'' \<mapsto> YMap spec'), spec'))" if q: "q \<in> set ms" for q
  proof -
    obtain doc spec where m: "manifest_of Y q (clone_fs cl) = Some (doc, spec)"
      using quota_update_parses e(1)[OF q] by (metis fst_conv)
    from quota_written[OF Y m e(1)[OF q]] m e(2)[OF q] show ?thesis by simp
  qed
  with e(3) show ?thesis unfolding hard_written_def by simp
qed

text \<open>
  The same for the node scale-up: all listed manifests hold their old documents with
  spec.replicas one step up, at most maxNodes, and 0 left at 0.
\<close>

definition replicas_written :: "yaml_ops \<Rightarrow> int \<Rightarrow> string list \<Rightarrow> fs \<Rightarrow> fs \<Rightarrow> bool" where
  "replicas_written Y limit ms s t \<longleftrightarrow> (\<forall>p. if p \<in> set ms
     then (\<exists>doc spec r. manifest_of Y p s = Some (doc, spec) \<and> spec ''replicas'' = Some (YInt r) \<and>
       (if - (2 ^ 63) \<le> r \<and> r < 2 ^ 63 - 1 then manifest_of Y p t =
         (let spec' = spec(''replicas'' \<mapsto> YInt (if r = 0 then 0 else if limit \<le> r then limit else r + 1))
          in Some (doc(''spec'' \<mapsto> YMap spec'), spec')) else True))
     else files t p = files s p)"

lemma deployment_update_parses:
  "fst (UpdateResourceReplicasMachineDeployment Y scaling p s) = None \<Longrightarrow>
    \<exists>doc spec r. manifest_of Y p s = Some (doc, spec) \<and> spec ''replicas'' = Some (YInt r)"
  by (auto simp: UpdateResourceReplicasMachineDeployment_def manifest_of_def as_int_def
      split: sum.splits option.splits yval.splits)

lemma edited_deployment:
  assumes Y: "yaml_laws Y" and d: "distinct ms" and m64: "in64 (MaxNodes scaling)"
    and ed: "edited (deployment_edit Y scaling) cl ms cl'"
  shows "replicas_written Y (MaxNodes scaling) ms (clone_fs cl) (clone_fs cl')"
proof -
  note e = deployment_updater.edited_files[OF d ed]
  have "\<exists>doc spec r. manifest_of Y q (clone_fs cl) = Some (doc, spec) \<and> spec ''replicas'' = Some (YInt r) \<and>
       (if - (2 ^ 63) \<le> r \<and> r < 2 ^ 63 - 1 then manifest_of Y q (clone_fs cl') =
         (let spec' = spec(''replicas'' \<mapsto> YInt (if r = 0 then 0 else if MaxNodes scaling \<le> r
             then MaxNodes scaling else r + 1))
          in Some (doc(''spec'' \<mapsto> YMap spec'), spec')) else True)" if q: "q \<in> set ms" for q
  proof -
    obtain doc spec r where m: "manifest_of Y q (clone_fs cl) = Some (doc, spec)" "spec ''replicas'' = Some (YInt r)"
      using deployment_update_parses e(1)[OF q] by (metis fst_conv)
    from deployment_scaled[OF Y m _ _ m64 e(1)[OF q]] m e(2)[OF q] show ?thesis by simp
  qed
  with e(3) show ?thesis unfolding replicas_written_def by simp
qed

lemma searched_paths: "searched E url want cl ms \<Longrightarrow> ms \<noteq> [] \<and> set ms \<subseteq> matching_paths (search_cfg E want cl)"
  by (auto simp: searched_def dest: found_matches)

lemma searched_clone: "searched E url want cl ms \<Longrightarrow>
    \<exists>e. fst (PlainClone E (clone_Dir cl) url ''refs/heads/main'' e) = Inr (clone_fs cl, clone_walk cl)"
  by (simp add: searched_def)

text \<open>What may be committed for a ResourceQuota.\<close>

definition commit_ok :: "('e, 'q, 'y) mgmt_ext_scheme \<Rightarrow> string \<Rightarrow> 'q resource_quota \<Rightarrow> 'q action \<Rightarrow> bool" where
  "commit_ok E kind rq a \<longleftrightarrow> (case a of
     GitCommitted msg fs \<Rightarrow> \<exists>cl ms t. fs = files t \<and> ms \<noteq> [] \<and>
       set ms \<subseteq> matching_paths (search_cfg E (wants_quota kind rq) cl) \<and>
       (if distinct ms then hard_written (Yaml E) (QuantityString E) rq ms (clone_fs cl) t else True)
   | _ \<Rightarrow> True)"

lemma git_work_commits:
  assumes "git_work E url want edit msg (syncs E C app) h as" and "as \<noteq> []"
  obtains cl ms cl' where "searched E url want cl ms" and "edited edit cl ms cl'"
    and "\<And>m fs. GitCommitted m fs \<in> set as \<Longrightarrow> fs = files (clone_fs cl')"
proof -
  from assms obtain cl ms cl' where w: "searched E url want cl ms" "edited edit cl ms cl'"
    and as: "prefix as [GitCommitted msg (files (clone_fs cl')), GitPushed ''main''] \<or>
      (\<exists>a. syncs E C app a \<and> as = [GitCommitted msg (files (clone_fs cl')), GitPushed ''main'', a])"
    unfolding git_work_def by blast
  from as have "fs = files (clone_fs cl')" if "GitCommitted m fs \<in> set as" for m fs
    using that by (auto simp: prefix_Cons syncs_def)
  with w that show ?thesis by blast
qed

lemma commit_okI:
  assumes "yaml_laws (Yaml E)" and "searched E url (wants_quota kind rq) cl ms"
    and "edited (quota_edit (Yaml E) (QuantityString E) rq) cl ms cl'"
  shows "commit_ok E kind rq (GitCommitted msg (files (clone_fs cl')))"
proof -
  have "if distinct ms then hard_written (Yaml E) (QuantityString E) rq ms (clone_fs cl) (clone_fs cl') else True"
    using edited_quota[OF assms(1) _ assms(3)] by simp
  with searched_paths[OF assms(2)] show ?thesis unfolding commit_ok_def action.case by blast
qed

lemma git_work_commit_ok:
  assumes "yaml_laws (Yaml E)"
    and "git_work E url (wants_quota kind rq) (quota_edit (Yaml E) (QuantityString E) rq) msg (syncs E C app) h as"
  shows "list_all (commit_ok E kind rq) as"
proof (cases "as = []")
  case False
  with assms(2) obtain cl ms cl' where "searched E url (wants_quota kind rq) cl ms"
    and "edited (quota_edit (Yaml E) (QuantityString E) rq) cl ms cl'"
    and c: "\<And>m fs. GitCommitted m fs \<in> set as \<Longrightarrow> fs = files (clone_fs cl')"
    by (rule git_work_commits) blast
  from commit_okI[OF assms(1) this(1,2)] have ok: "commit_ok E kind rq (GitCommitted m (files (clone_fs cl')))" for m .
  have "commit_ok E kind rq a" if "a \<in> set as" for a
    using ok c that by (cases a) (simp_all add: commit_ok_def)
  then show ?thesis by (simp add: list_all_iff)
qed simp

lemma handleRQ_commits:
  assumes "yaml_laws (Yaml E)"
  shows "wp (handleRQFromCluster E kind rq) s (\<lambda>h s'. \<exists>as. trace s' = trace s @ as \<and> list_all (commit_ok E kind rq) as)"
proof (rule wp_conseq[OF handleRQ_ended], unfold ended_with_def added_def, elim exE conjE, goal_cases)
  case (1 h s' p as)
  have "list_all (commit_ok E kind rq) p"
    using 1(2) by (auto simp: ns_part_def commit_ok_def)
  with git_work_commit_ok[OF assms 1(3)] 1(1) show ?case by (intro exI[of _ "p @ as"]) simp
qed

section \<open>A working outside\<close>

text \<open>
  Every call that the handlers make is answered without an error, and a push from a
  directory is accepted as long as \<open>ok\<close> holds of it: it does after a clone into it, and the
  handler's other calls leave it so. With pushes of others in between it would not.
\<close>

definition leaves :: "(string \<Rightarrow> 'e \<Rightarrow> bool) \<Rightarrow> ('e \<Rightarrow> 'a \<times> 'e) \<Rightarrow> bool" where
  "leaves ok f \<longleftrightarrow> (\<forall>d e. ok d e \<longrightarrow> ok d (snd (f e)))"

definition outside_works ::
  "('e, 'q, 'y) mgmt_ext_scheme \<Rightarrow> (string \<Rightarrow> 'e \<Rightarrow> bool) \<Rightarrow> string \<Rightarrow> bool" where
  "outside_works E ok cluster \<longleftrightarrow>
     Getenv E ''GIT_SERVER_URL'' \<noteq> [] \<and>
     (\<forall>ns e. fst (GetNamespace E ns e) = None) \<and>
     (\<forall>ns nm e x. fst (GetSecret E ns nm e) \<noteq> Inl x) \<and> (\<forall>ns nm. leaves ok (GetSecret E ns nm)) \<and>
     (\<forall>c e. fst (NewGiteaClient E c e) = None \<and> fst (MyUserInfo E c e) = None) \<and>
     (\<forall>p e x. fst (MkdirTemp E p e) \<noteq> Inl x) \<and>
     (\<forall>d url br e. ok d (snd (PlainClone E d url br e))) \<and>
     leaves ok (SearchSchedule E) \<and> leaves ok (PoolSchedule E) \<and>
     (\<forall>d e. fst (OpenRepo E d e) = None \<and> fst (GetWorktree E d e) = None \<and> fst (AddAll E d e) = None) \<and>
     (\<forall>d. leaves ok (OpenRepo E d) \<and> leaves ok (GetWorktree E d) \<and> leaves ok (AddAll E d)) \<and>
     (\<forall>d m u e. fst (Commit E d m u e) = None) \<and> (\<forall>d m u. leaves ok (Commit E d m u)) \<and>
     (\<forall>d b u pw e. ok d e \<longrightarrow> fst (Push E d b u pw e) = None) \<and>
     (\<forall>e x. fst (ListClusters E e) \<noteq> Inl x) \<and>
     (\<forall>e names. fst (ListClusters E e) = Inr names \<longrightarrow> cluster \<in> set names) \<and>
     (\<forall>ns nm e x. fst (GetClusterConditions E ns nm e) \<noteq> Inl x) \<and>
     (\<forall>ns nm e cs. fst (GetClusterConditions E ns nm e) = Inr cs \<longrightarrow> isReady cs) \<and>
     (\<forall>t x. RESTConfig E t \<noteq> Inl x) \<and> (\<forall>c e x. fst (NewClusterClient E c e) \<noteq> Inl x) \<and>
     (\<forall>q e x. fst (CreateNSQ E q e) \<noteq> Inl x) \<and> (\<forall>q e. fst (UpdateNSQ E q e) = None) \<and>
     (\<forall>c ns nm e x. fst (GetApp E c ns nm e) \<noteq> Inl x) \<and> (\<forall>c app e. fst (UpdateApp E c app e) = None)"

text \<open>
  Every clone has the same files, the search comes back with the paths ms, and the pool
  runs to its end.
\<close>

definition schedules_complete ::
  "('e, 'q, 'y) mgmt_ext_scheme \<Rightarrow> (header \<Rightarrow> bool) \<Rightarrow> (string \<Rightarrow> string \<Rightarrow> upd_err + string option) \<Rightarrow>
   fs \<Rightarrow> entry list \<Rightarrow> string list \<Rightarrow> bool" where
  "schedules_complete E want edit s walked ms \<longleftrightarrow>
     (\<forall>d url br e. fst (PlainClone E d url br e) = Inr (s, walked)) \<and>
     (\<forall>d e. let cfg = search_cfg E want \<lparr>clone_Dir = d, clone_fs = s, clone_walk = walked\<rparr>
        in outcome (scan_run cfg (fst (SearchSchedule E e)) (scan_init cfg)) = Some (Found ms)) \<and>
     (\<forall>e. all_done (pool_run edit ms (fst (PoolSchedule E e)) (pool_init ms s)))"

section \<open>Each step succeeds\<close>

text \<open>What a step that cannot fail adds to the trace; the instance it leaves is initialized.\<close>

definition git_client_ok :: "('e, 'q) server \<Rightarrow> bool" where
  "git_client_ok s \<longleftrightarrow> (case singleInstance s of None \<Rightarrow> True | Some r \<Rightarrow> IsInitialized r)"

lemma ensure_namespace_ok:
  assumes "outside_works E ok c"
    and "\<And>s'. trace s' = trace s \<Longrightarrow> singleInstance s' = singleInstance s \<Longrightarrow> wp (f ()) s' Q"
  shows "wp (on_value (ensure_namespace E ns) f) s Q"
  using assms by (simp add: on_value_wp ensure_namespace_def wp_simps outside_works_def)

lemma git_credentials_ok:
  assumes "outside_works E ok c"
    and "\<And>s' r. trace s' = trace s \<Longrightarrow> singleInstance s' = singleInstance s \<Longrightarrow>
      (\<And>d. ok d (env s) \<Longrightarrow> ok d (env s')) \<Longrightarrow> wp (f r) s' Q"
  shows "wp (on_value (git_credentials E) f) s Q"
  using assms
  by (auto simp: on_value_wp git_credentials_def GetGiteaSecretUserNamePassword_def wp_simps outside_works_def
      leaves_def Let_def split: sum.split dest: spec)

lemma gitea_ready_ok:
  assumes "outside_works E ok c" and "git_client_ok s"
    and "\<And>s'. trace s' = trace s \<Longrightarrow> wp (f ()) s' Q"
  shows "wp (on_value (gitea_ready E) f) s Q"
  using assms
  by (auto simp: on_value_wp gitea_ready_def GetClient_def Start_def wp_simps outside_works_def IsInitialized_def
      git_client_ok_def Let_def split: sum.split option.splits)

lemma find_manifests_ok:
  assumes "outside_works E ok c" and "schedules_complete E want edit s0 walked ms" and "ms \<noteq> []"
    and "\<And>s' cl. trace s' = trace s \<Longrightarrow> clone_fs cl = s0 \<Longrightarrow> ok (clone_Dir cl) (env s') \<Longrightarrow> wp (f (cl, ms)) s' Q"
  shows "wp (on_value (find_manifests (clone_and_scan E pattern url ''main'' want)) f) s Q"
  using assms
  by (auto simp: on_value_wp find_manifests_def clone_and_scan_def scan_clone_def wp_simps outside_works_def leaves_def schedules_complete_def Let_def
      split: sum.split)

lemma commit_step_ok:
  assumes "outside_works E ok c" and "ok (clone_Dir cl) (env s)"
    and "\<And>s'. trace s' = trace s @ [GitCommitted msg (files (clone_fs cl)), GitPushed ''main''] \<Longrightarrow> wp (f ()) s' Q"
  shows "wp (on_value (commit_step E cl cred msg) f) s Q"
  using assms by (auto simp: on_value_wp commit_step_def CommitAndPush_def wp_simps outside_works_def leaves_def)

lemma sync_step_ok:
  assumes "outside_works E ok c"
    and "\<And>s' a n. trace s' = trace s @ [AppSynced client a n] \<Longrightarrow> Q Synced s'"
  shows "wp (sync_step E client app) s Q"
  using assms
  by (auto simp: sync_step_def TriggerArgoCDSyncWithKubeClient_def wp_simps outside_works_def split: sum.split)

lemma workload_client_ok:
  assumes "outside_works E ok c" and "c \<noteq> []"
    and "\<And>s' client. trace s' = trace s \<Longrightarrow> Q (WClient 0 (Some client)) s'"
  shows "wp (GetWorkloadClusterClient E c) s Q"
  using assms
  by (auto simp: GetWorkloadClusterClient_def GetCapiClusterFromName_def GetCapiCluster_def
      GetClusterClient_def isCapiClusterReady_def getCapiClusterClient_def wp_simps list_ex_iff outside_works_def
      split: sum.split option.split)

lemma store_nsq_ok:
  assumes "outside_works E ok c"
    and "\<And>s' st. trace s' = trace s @ st \<Longrightarrow> singleInstance s' = singleInstance s \<Longrightarrow> wp (f ()) s' Q"
  shows "wp (on_value (store_nsq E cr) f) s Q"
  using assms
  by (auto simp: on_value_wp store_nsq_def wp_simps outside_works_def split: sum.split)

text \<open>The edits succeed, so the pool ends without errors and with the files of the sequence.\<close>

context manifest_updater begin

lemma edit_manifests_ok:
  assumes w: "outside_works E ok c" and sc: "schedules_complete E want edit (clone_fs cl) walked ms" and d: "distinct ms"
    and up: "list_all (\<lambda>p. fst (upd p (clone_fs cl)) = None) ms"
    and f: "\<And>s'. trace s' = trace s \<Longrightarrow> (\<And>d. ok d (env s) \<Longrightarrow> ok d (env s')) \<Longrightarrow>
      wp (f (cl\<lparr>clone_fs := snd (update_each upd ms (clone_fs cl))\<rparr>)) s' Q"
  shows "wp (on_value (edit_manifests E edit cl ms) f) s Q"
proof -
  let ?p = "pool_run edit ms (fst (PoolSchedule E (env s))) (pool_init ms (clone_fs cl))"
  have a: "all_done ?p" using sc by (simp add: schedules_complete_def)
  note c = pool_complete[OF d pool_run_reaches a]
  have "List.map_filter (\<lambda>p. fst (upd p (clone_fs cl))) ms = []"
    using up by (induction ms) (simp_all add: map_filter_simps)
  then have "errChan ?p = []" using c(2) by (simp add: each_errors[OF d])
  moreover from w have "ok d (snd (PoolSchedule E (env s)))" if "ok d (env s)" for d
    using that by (simp add: outside_works_def leaves_def)
  ultimately show ?thesis using a f by (simp add: on_value_wp edit_manifests_def wp_simps Let_def c(1))
qed

end

lemma request_served:
  assumes "outside_works E ok (map_index (Labels (rq_Meta rq)) ''clusterName'')"
    and "map_index (Labels (rq_Meta rq)) ''clusterName'' \<noteq> []"
    and "map_index (Annotations (rq_Meta rq)) ''repositoryUrl'' \<noteq> []"
    and "schedules_complete E (wants_quota kind rq) (quota_edit (Yaml E) (QuantityString E) rq) files0 walked ms"
    and "ms \<noteq> []" and "distinct ms"
    and "list_all (\<lambda>p. fst (UpdateResourceQuota (Yaml E) (QuantityString E) rq p files0) = None) ms"
    and "git_client_ok s"
  shows "wp (handleRQFromCluster E kind rq) s (\<lambda>h s'. h = Synced \<and> (\<exists>msg client app ns. trace s' = trace s @
     [GitCommitted msg (files (snd (update_each (UpdateResourceQuota (Yaml E) (QuantityString E) rq) ms files0))),
      GitPushed ''main'', AppSynced client app ns]))"
proof -
  note w = assms(1)
  have labels: "\<not> (map_index (Labels (rq_Meta rq)) ''clusterName'' = [] \<or>
      map_index (Annotations (rq_Meta rq)) ''repositoryUrl'' = [])" using assms(2,3) by simp
  show ?thesis
    unfolding handleRQFromCluster_def check_defs Let_def
  proof (rule ensure_namespace_ok[OF w], unfold if_not_P[OF labels], rule git_credentials_ok[OF w],
      rule gitea_ready_ok[OF w], goal_cases)
    case (1 s1 s2 r)
    with assms(8) show ?case by (simp add: git_client_ok_def)
  next
    case (2 s1 s2 r s3)
    note tr = 2(1,3,6)
    show ?case
    proof (rule find_manifests_ok[OF w assms(4,5)], unfold prod.case, goal_cases)
      case (1 s4 cl)
      note cl = 1(2)
      show ?case
      proof (rule quota_updater.edit_manifests_ok[OF w assms(4)[folded cl] assms(6) assms(7)[folded cl]], rule commit_step_ok[OF w],
          simp add: 1(3), unfold wp_bind, rule workload_client_ok[OF w assms(2)], unfold workload_result.case option.case,
          rule sync_step_ok[OF w], goal_cases)
        case (1 s5 s6 s7 client s8 app ns)
        with tr \<open>trace s4 = trace s3\<close> cl show ?case by simp
      qed
    qed
  qed
qed

lemma nodes_served:
  assumes "outside_works E ok c"
    and "schedules_complete E (wants_deployment cr)
      (deployment_edit (Yaml E) (NodeScaling (Behavior (nsq_Spec cr)))) files0 walked ms"
    and "ms \<noteq> []" and "distinct ms"
    and "list_all (\<lambda>p. fst (UpdateResourceReplicasMachineDeployment (Yaml E) (NodeScaling (Behavior (nsq_Spec cr)))
      p files0) = None) ms"
    and "git_client_ok s"
  shows "wp (handleNamespaceQuota E cr) s (\<lambda>h s'. h = Synced)"
proof -
  note w = assms(1)
  show ?thesis
    unfolding handleNamespaceQuota_def check_defs Let_def
  proof (rule ensure_namespace_ok[OF w], rule store_nsq_ok[OF w], rule git_credentials_ok[OF w],
      rule gitea_ready_ok[OF w], goal_cases)
    case (1 s1 s2 st s3 r)
    with assms(6) show ?case by (simp add: git_client_ok_def)
  next
    case (2 s1 s2 st s3 r s4)
    show ?case
    proof (rule find_manifests_ok[OF w assms(2,3)], unfold prod.case, goal_cases)
      case (1 s5 cl)
      note cl = 1(2)
      show ?case
        by (rule deployment_updater.edit_manifests_ok[OF w assms(2)[folded cl] assms(4) assms(5)[folded cl]],
            rule git_credentials_ok[OF w], rule commit_step_ok[OF w], simp add: 1(3), rule sync_step_ok[OF w])
           (rule refl)
    qed
  qed
qed

section \<open>The sample\<close>

text \<open>The sample: a clone with one manifest, all calls answered.\<close>

lemma sample_outside_works: "outside_works sample_mgmt (\<lambda>d e. True) ''edge''"
  by (simp add: outside_works_def leaves_def sample_mgmt_def sample_getenv_def isReady_def ready_condition_def)

lemma sample_schedules:
  "schedules_complete sample_mgmt (wants_quota ''ResourceQuota'' sample_quota)
     (quota_edit (Yaml sample_mgmt) (QuantityString sample_mgmt) sample_quota) (sample_fs ''rq-old'')
     [Regular ''a.yaml''] [''a.yaml'']"
proof -
  have cfg: "search_cfg sample_mgmt w \<lparr>clone_Dir = d, clone_fs = sample_fs ''rq-old'', clone_walk = [Regular ''a.yaml'']\<rparr> =
      search_cfg sample_mgmt w sample_clone" for w d
    by (simp add: search_cfg_def sample_clone_def)
  have sch: "fst (SearchSchedule sample_mgmt e) = sample_search" "fst (PoolSchedule sample_mgmt e) = [0, 0, 0, 0]"
    "fst (PlainClone sample_mgmt d url br e) = Inr (sample_fs ''rq-old'', [Regular ''a.yaml''])" for e d url br
    by (simp_all add: sample_mgmt_def)
  show ?thesis
    unfolding schedules_complete_def sch sample_pool cfg Let_def sample_search_found by (simp add: all_done_def)
qed

lemma sample_edit_ok:
  "UpdateResourceQuota (Yaml sample_mgmt) (QuantityString sample_mgmt) sample_quota ''a.yaml'' (sample_fs ''rq-old'') =
     (None, sample_fs ''rq-new'')"
proof -
  have y: "Yaml sample_mgmt = sample_yaml"
    "QuantityString sample_mgmt = (\<lambda>q. if q = 1000000000 then ''1'' else ''?'')"
    by (simp_all add: sample_mgmt_def)
  show ?thesis
    unfolding quota_updater.reads_edits_writes y by (simp add: sample_quota_edit sample_writes)
qed

lemma sample_labels:
  "map_index (Labels (rq_Meta sample_quota)) ''clusterName'' = ''edge''"
  "map_index (Annotations (rq_Meta sample_quota)) ''repositoryUrl'' = ''http://git/repo''"
  by (simp_all add: sample_quota_def map_index_def)

lemma sample_client: "git_client_ok sample_server_state" "trace sample_server_state = []"
  by (simp_all add: git_client_ok_def sample_server_state_def)

lemma sample_each:
  "snd (update_each (UpdateResourceQuota (Yaml sample_mgmt) (QuantityString sample_mgmt) sample_quota) [''a.yaml'']
     (sample_fs ''rq-old'')) = sample_fs ''rq-new''"
  by (simp add: sample_edit_ok)

lemma sample_run:
  "wp (handleRQFromCluster sample_mgmt ''ResourceQuota'' sample_quota) sample_server_state (\<lambda>h s'.
     h = Synced \<and> (\<exists>msg client app ns. trace s' =
       [GitCommitted msg (files (sample_fs ''rq-new'')), GitPushed ''main'', AppSynced client app ns]))"
  using request_served[where E = sample_mgmt and rq = sample_quota and s = sample_server_state,
      unfolded sample_labels, OF sample_outside_works _ _ sample_schedules _ _ _ sample_client(1)]
  unfolding sample_each sample_client(2) by (simp add: sample_edit_ok)

text \<open>The sample with a MachineDeployment of two replicas, and a request for up to five.\<close>

definition sample_nodes :: "(sample_env, int) mgmt_ext" where
  "sample_nodes = sample_mgmt\<lparr>
     DecodeStream := (\<lambda>c. if c = ''md2'' then ([md_header], None) else ([], Some ''yaml: bad'')),
     PlainClone := (\<lambda>_ _ _ e. (Inr (sample_fs ''md2'', [Regular ''a.yaml'']), e))\<rparr>"

definition node_nsq :: namespace_quota where
  "node_nsq = example_nsq\<lparr>nsq_Spec := (nsq_Spec example_nsq)
     \<lparr>Behavior := (Behavior (nsq_Spec example_nsq))\<lparr>NodeScaling := up_to 5\<rparr>\<rparr>\<rparr>"

lemma sample_nodes_yaml: "Yaml sample_nodes = sample_yaml"
  by (simp add: sample_nodes_def sample_mgmt_def)

lemma sample_nodes_search:
  "outcome (scan_run (search_cfg sample_nodes (wants_deployment node_nsq) (sample_clone\<lparr>clone_fs := sample_fs ''md2''\<rparr>))
     sample_search (scan_init (search_cfg sample_nodes (wants_deployment node_nsq)
       (sample_clone\<lparr>clone_fs := sample_fs ''md2''\<rparr>)))) = Some (Found [''a.yaml''])"
proof -
  have w: "wants_deployment node_nsq md_header" using wanted_md by (simp add: wants_deployment_def node_nsq_def)
  show ?thesis
    by (simp add: scan_eval sample_search_def search_cfg_def sample_nodes_def sample_mgmt_def sample_clone_def w)
qed

lemma sample_nodes_pool:
  "pool_run (deployment_edit sample_yaml (up_to 5)) [''a.yaml''] [0, 0, 0, 0] (pool_init [''a.yaml''] (sample_fs ''md2'')) =
     \<lparr>phases = [Done None], pool_fs = sample_fs ''md3'', errChan = []\<rparr>"
proof -
  have m: "parse_manifest sample_yaml p ''md2'' = Inr (md_doc 2, [''replicas'' \<mapsto> YInt 2])" for p
    by (simp add: parse_manifest_def sample_yaml_def as_string_def as_map_def isSupportedKind_def)
  have n: "next_replicas 5 2 = 3" by (simp add: next_replicas_def add64_def in64_def)
  have e: "deployment_edit sample_yaml (up_to 5) p ''md2'' = Inr (Some ''md3'')" for p
    by (simp add: deployment_edit_def m n marshal_text_def as_int_def) (simp add: sample_yaml_def)
  show ?thesis
    by (simp add: pool_next_def pool_init_def holding_def finish_edit_def e sample_writes)
qed

lemma sample_nodes_work: "outside_works sample_nodes (\<lambda>d e. True) ''edge''"
  using sample_outside_works by (simp add: outside_works_def leaves_def sample_nodes_def)

lemma sample_nodes_schedules:
  "schedules_complete sample_nodes (wants_deployment node_nsq)
     (deployment_edit (Yaml sample_nodes) (NodeScaling (Behavior (nsq_Spec node_nsq)))) (sample_fs ''md2'')
     [Regular ''a.yaml''] [''a.yaml'']"
proof -
  have cfg: "search_cfg sample_nodes w \<lparr>clone_Dir = d, clone_fs = sample_fs ''md2'', clone_walk = [Regular ''a.yaml'']\<rparr> =
      search_cfg sample_nodes w (sample_clone\<lparr>clone_fs := sample_fs ''md2''\<rparr>)" for w d
    by (simp add: search_cfg_def sample_clone_def)
  have sch: "fst (SearchSchedule sample_nodes e) = sample_search" "fst (PoolSchedule sample_nodes e) = [0, 0, 0, 0]"
    "fst (PlainClone sample_nodes d url br e) = Inr (sample_fs ''md2'', [Regular ''a.yaml''])" for e d url br
    by (simp_all add: sample_nodes_def sample_mgmt_def)
  have up: "NodeScaling (Behavior (nsq_Spec node_nsq)) = up_to 5" by (simp add: node_nsq_def)
  show ?thesis
    unfolding schedules_complete_def sch sample_nodes_yaml up sample_nodes_pool cfg Let_def sample_nodes_search
    by (simp add: all_done_def)
qed

lemma sample_nodes_run:
  "wp (handleNamespaceQuota sample_nodes node_nsq) sample_server_state (\<lambda>h s'. h = Synced)"
proof (rule nodes_served[OF sample_nodes_work sample_nodes_schedules _ _ _ sample_client(1)])
  have up: "NodeScaling (Behavior (nsq_Spec node_nsq)) = up_to 5" by (simp add: node_nsq_def)
  show "list_all (\<lambda>p. fst (UpdateResourceReplicasMachineDeployment (Yaml sample_nodes)
      (NodeScaling (Behavior (nsq_Spec node_nsq))) p (sample_fs ''md2'')) = None) [''a.yaml'']"
    unfolding sample_nodes_yaml up by (simp add: sample_up)
qed simp_all

section \<open>Properties\<close>



text \<open>
  C7. A quota request is served when the outside works: with an initialized client or
  none yet, every call answered without an error, a push accepted if nothing has come
  between it and the clone, goroutines that run to their ends, and a search that comes back
  with distinct manifests each of which can be edited, the handler gets to its end, and
  what it commits are these manifests edited one after another.
\<close>

theorem quota_request_served:
  assumes "outside_works E ok (map_index (Labels (rq_Meta rq)) ''clusterName'')"
    and "map_index (Labels (rq_Meta rq)) ''clusterName'' \<noteq> []"
    and "map_index (Annotations (rq_Meta rq)) ''repositoryUrl'' \<noteq> []"
    and "schedules_complete E (wants_quota kind rq) (quota_edit (Yaml E) (QuantityString E) rq) files0 walked ms"
    and "ms \<noteq> []" and "distinct ms"
    and "list_all (\<lambda>p. fst (UpdateResourceQuota (Yaml E) (QuantityString E) rq p files0) = None) ms"
    and "git_client_ok s"
  shows "wp (handleRQFromCluster E kind rq) s (\<lambda>h s'. h = Synced \<and> (\<exists>msg client app ns. trace s' = trace s @
     [GitCommitted msg (files (snd (update_each (UpdateResourceQuota (Yaml E) (QuantityString E) rq) ms files0))),
      GitPushed ''main'', AppSynced client app ns]))"
  using assms by (rule request_served)

theorem quota_request_served_witness:
  "wp (handleRQFromCluster sample_mgmt ''ResourceQuota'' sample_quota) sample_server_state (\<lambda>h s'.
     h = Synced \<and> (\<exists>msg client app ns. trace s' =
       [GitCommitted msg (files (sample_fs ''rq-new'')), GitPushed ''main'', AppSynced client app ns]))"
  using quota_request_served[where E = sample_mgmt and rq = sample_quota and s = sample_server_state,
      unfolded sample_labels, OF sample_outside_works _ _ sample_schedules _ _ _ sample_client(1)]
  unfolding sample_each sample_client(2) by (simp add: sample_edit_ok)






end
