(* ===== verification/Remote.thy ===== *)
theory Remote imports Composition begin

text \<open>
  A Git repository that others write to meanwhile: other requests to the same server, other
  servers, people. Every call of a handler to the outside may come with commits of others;
  what is assumed of Git is that a clone is a copy of a branch and that a push is accepted
  only as a continuation of the branch.
\<close>

section \<open>Others at work\<close>

text \<open>
  A relation between an outside before and after that any time may bring about; code that
  only makes calls which stay within it stays within it.
\<close>

definition stays :: "('e \<Rightarrow> 'e \<Rightarrow> bool) \<Rightarrow> (('e, 'q, 'z) world_scheme, 'a) state \<Rightarrow> bool" where
  "stays R m \<longleftrightarrow> (\<forall>s. wp m s (\<lambda>_ s'. R (env s) (env s')))"

locale interference =
  fixes R :: "'e \<Rightarrow> 'e \<Rightarrow> bool"
  assumes still: "R e e"
    and longer: "R a b \<Longrightarrow> R b c \<Longrightarrow> R a c"

context interference begin

lemma returns: "stays R (State_Monad.return x)"
  by (simp add: stays_def wp_return still)

lemma asks: "(\<And>e. R e (snd (f e))) \<Longrightarrow> stays R (ask f)"
  by (simp add: stays_def wp_ask)

lemma emits: "stays R (emit a)"
  by (simp add: stays_def wp_emit still)

lemma binds:
  fixes m :: "(('e, 'q, 'z) world_scheme, 'a) state"
  assumes "stays R m" and "\<And>x. stays R (f x)"
  shows "stays R (State_Monad.bind m f)"
  unfolding stays_def wp_bind
proof
  fix s :: "('e, 'q, 'z) world_scheme"
  from assms(1) have "wp m s (\<lambda>_ s'. R (env s) (env s'))" by (simp add: stays_def)
  then show "wp m s (\<lambda>x s'. wp (f x) s' (\<lambda>_ s''. R (env s) (env s'')))"
  proof (rule wp_conseq)
    fix x and s' :: "('e, 'q, 'z) world_scheme" assume r: "R (env s) (env s')"
    from assms(2) have "wp (f x) s' (\<lambda>_ s''. R (env s') (env s''))" by (simp add: stays_def)
    then show "wp (f x) s' (\<lambda>_ s''. R (env s) (env s''))" by (rule wp_conseq) (rule longer[OF r])
  qed
qed

lemmas steps = returns asks emits binds

end

section \<open>The remote branch\<close>

text \<open>
  \<open>hist e\<close> are the trees of the commits on the remote branch, oldest first, and
  \<open>base d e\<close> is how many of them the clone in the directory d has. Time adds commits and
  leaves a clone as it is.
\<close>

definition remote_later ::
  "('e \<Rightarrow> (string \<rightharpoonup> string) list) \<Rightarrow> (string \<Rightarrow> 'e \<Rightarrow> nat) \<Rightarrow> 'e \<Rightarrow> 'e \<Rightarrow> bool" where
  "remote_later hist base e e' \<longleftrightarrow> prefix (hist e) (hist e') \<and> (\<forall>d. base d e' = base d e)"

interpretation remote: interference "remote_later hist base" for hist base
  by unfold_locales (auto simp: remote_later_def)

text \<open>
  What a handler may rely on. A clone of the branch has all of its commits at some time
  and the files of the last of them. A push that succeeds has added the next commit after
  those that the clone has, so nobody else can have added one. All other calls only take
  time.
\<close>

definition git_remote ::
  "('e, 'q, 'y) mgmt_ext_scheme \<Rightarrow> string \<Rightarrow> ('e \<Rightarrow> (string \<rightharpoonup> string) list) \<Rightarrow> (string \<Rightarrow> 'e \<Rightarrow> nat) \<Rightarrow> bool" where
  "git_remote E url hist base \<longleftrightarrow>
     (\<forall>d e s w. let e' = snd (PlainClone E d url ''refs/heads/main'' e) in
        fst (PlainClone E d url ''refs/heads/main'' e) = Inr (s, w) \<longrightarrow>
        0 < base d e' \<and> base d e' \<le> length (hist e') \<and> hist e' ! (base d e' - 1) = files s) \<and>
     (\<forall>d u pw e. let e' = snd (Push E d ''main'' u pw e) in remote_later hist base e e' \<and>
        (fst (Push E d ''main'' u pw e) = None \<longrightarrow> length (hist e) \<le> base d e \<and> base d e < length (hist e'))) \<and>
     (\<forall>ns nm e. remote_later hist base e (snd (GetSecret E ns nm e))) \<and>
     (\<forall>e. remote_later hist base e (snd (PoolSchedule E e))) \<and>
     (\<forall>e. remote_later hist base e (snd (SearchSchedule E e))) \<and>
     (\<forall>d e. remote_later hist base e (snd (OpenRepo E d e))) \<and>
     (\<forall>d e. remote_later hist base e (snd (GetWorktree E d e))) \<and>
     (\<forall>d e. remote_later hist base e (snd (AddAll E d e))) \<and>
     (\<forall>d m u e. remote_later hist base e (snd (Commit E d m u e))) \<and>
     (\<forall>c ns nm e. remote_later hist base e (snd (GetApp E c ns nm e))) \<and>
     (\<forall>c app e. remote_later hist base e (snd (UpdateApp E c app e))) \<and>
     (\<forall>e. remote_later hist base e (snd (ListClusters E e))) \<and>
     (\<forall>ns nm e. remote_later hist base e (snd (GetClusterConditions E ns nm e))) \<and>
     (\<forall>c e. remote_later hist base e (snd (NewClusterClient E c e)))"

lemma git_remote_clone:
  assumes "git_remote E url hist base" and "fst (PlainClone E d url ''refs/heads/main'' e) = Inr (s, w)"
    and "e' = snd (PlainClone E d url ''refs/heads/main'' e)"
  shows "0 < base d e'" and "base d e' \<le> length (hist e')" and "hist e' ! (base d e' - 1) = files s"
  using assms by (auto simp: git_remote_def Let_def)

lemma git_remote_push:
  assumes "git_remote E url hist base"
  shows "remote_later hist base e (snd (Push E d ''main'' u pw e))"
    and "fst (Push E d ''main'' u pw e) = None \<Longrightarrow>
      length (hist e) \<le> base d e \<and> base d e < length (hist (snd (Push E d ''main'' u pw e)))"
  using assms by (auto simp: git_remote_def Let_def)

lemma git_remote_calls:
  assumes "git_remote E url hist base"
  shows "remote_later hist base e (snd (GetSecret E ns nm e))"
    and "remote_later hist base e (snd (PoolSchedule E e))"
    and "remote_later hist base e (snd (SearchSchedule E e))"
    and "remote_later hist base e (snd (OpenRepo E d e))"
    and "remote_later hist base e (snd (GetWorktree E d e))"
    and "remote_later hist base e (snd (AddAll E d e))"
    and "remote_later hist base e (snd (Commit E d m u e))"
    and "remote_later hist base e (snd (GetApp E c ns nm e))"
    and "remote_later hist base e (snd (UpdateApp E c app e))"
    and "remote_later hist base e (snd (ListClusters E e))"
    and "remote_later hist base e (snd (GetClusterConditions E ns nm e))"
    and "remote_later hist base e (snd (NewClusterClient E c e))"
  using assms by (simp_all add: git_remote_def)

lemma credentials_stays:
  assumes "git_remote E url hist base"
  shows "stays (remote_later hist base) (GetGiteaSecretUserNamePassword E)"
  unfolding GetGiteaSecretUserNamePassword_def Let_def
  by (auto intro!: remote.steps git_remote_calls[OF assms] split: sum.split)

lemma workload_stays:
  assumes "git_remote E url hist base"
  shows "stays (remote_later hist base) (GetWorkloadClusterClient E n)"
  unfolding GetWorkloadClusterClient_def GetCapiClusterFromName_def GetClusterClient_def isCapiClusterReady_def
    getCapiClusterClient_def
  by (auto intro!: remote.steps git_remote_calls[OF assms] split: sum.split option.split)

lemma sync_stays:
  assumes "git_remote E url hist base"
  shows "stays (remote_later hist base) (sync_step E client app)"
  unfolding sync_step_def TriggerArgoCDSyncWithKubeClient_def
  by (auto intro!: remote.steps git_remote_calls[OF assms] split: sum.split)

section \<open>The handlers on it\<close>

text \<open>The clone in d is of the branch when its last tree was fs.\<close>

definition cloned ::
  "('e \<Rightarrow> (string \<rightharpoonup> string) list) \<Rightarrow> (string \<Rightarrow> 'e \<Rightarrow> nat) \<Rightarrow> string \<Rightarrow> (string \<rightharpoonup> string) \<Rightarrow> 'e \<Rightarrow> bool" where
  "cloned hist base d fs e \<longleftrightarrow> 0 < base d e \<and> base d e \<le> length (hist e) \<and> hist e ! (base d e - 1) = fs"

lemma cloned_later: "cloned hist base d fs e \<Longrightarrow> remote_later hist base e e' \<Longrightarrow> cloned hist base d fs e'"
  by (auto simp: cloned_def remote_later_def prefix_def nth_append)

text \<open>A push from d was accepted on a branch whose last tree was fs, and has extended it.\<close>

definition put_on ::
  "('e, 'q, 'y) mgmt_ext_scheme \<Rightarrow> ('e \<Rightarrow> (string \<rightharpoonup> string) list) \<Rightarrow> string \<Rightarrow> (string \<rightharpoonup> string) \<Rightarrow> 'e \<Rightarrow> bool" where
  "put_on E hist d fs e' \<longleftrightarrow> (\<exists>u pw e. fst (Push E d ''main'' u pw e) = None \<and> hist e \<noteq> [] \<and> last (hist e) = fs \<and>
     strict_prefix (hist e) (hist e'))"

lemma put_on_later: "put_on E hist d fs e \<Longrightarrow> remote_later hist base e e' \<Longrightarrow> put_on E hist d fs e'"
  unfolding put_on_def remote_later_def by (blast intro: prefix_order.less_le_trans)

lemma push_put_on:
  assumes r: "git_remote E url hist base" and c: "cloned hist base d fs e"
    and p: "fst (Push E d ''main'' u pw e) = None"
  shows "put_on E hist d fs (snd (Push E d ''main'' u pw e))"
proof -
  let ?e = "snd (Push E d ''main'' u pw e)"
  from git_remote_push(2)[OF r p] have b: "length (hist e) \<le> base d e" "base d e < length (hist ?e)" by simp_all
  with c have l: "base d e = length (hist e)" "hist e \<noteq> []" by (auto simp: cloned_def)
  with c have "last (hist e) = fs" by (simp add: cloned_def last_conv_nth)
  moreover from git_remote_push(1)[OF r, of e d u pw] b l have "strict_prefix (hist e) (hist ?e)"
    by (auto simp: remote_later_def strict_prefix_def)
  ultimately show ?thesis unfolding put_on_def using p l by blast
qed

text \<open>The steps of the handlers from the clone on, by what becomes of the clone and the branch.\<close>

lemma stays_rule: "stays R m \<Longrightarrow> (\<And>x s'. R (env s) (env s') \<Longrightarrow> P x s' \<Longrightarrow> Q x s') \<Longrightarrow> wp m s P \<Longrightarrow> wp m s Q"
  by (simp add: stays_def wp_run)

lemma find_remote:
  assumes "git_remote E url hist base"
    and "\<And>s' cl ms. trace s' = trace s \<Longrightarrow> searched E url want cl ms \<Longrightarrow>
      cloned hist base (clone_Dir cl) (files (clone_fs cl)) (env s') \<Longrightarrow> wp (f (cl, ms)) s' Q"
    and "\<And>h s'. h \<noteq> Synced \<Longrightarrow> Q h s'"
  shows "wp (on_value (find_manifests (clone_and_scan E pattern url ''main'' want)) f) s Q"
  unfolding on_value_wp find_manifests_def clone_and_scan_def
  using cloned_later[OF _ git_remote_calls(3)[OF assms(1)]] git_remote_clone[OF assms(1)]
  by (auto simp: wp_simps searched_def cloned_def intro!: assms(2,3) dest!: scan_clone_Checked
      split: sum.split check_result.split)

lemma edit_remote:
  assumes "git_remote E url hist base"
    and "\<And>s' cl'. trace s' = trace s \<Longrightarrow> edited edit cl ms cl' \<Longrightarrow> remote_later hist base (env s) (env s') \<Longrightarrow>
      wp (f cl') s' Q"
    and "\<And>h s'. h \<noteq> Synced \<Longrightarrow> Q h s'"
  shows "wp (on_value (edit_manifests E edit cl ms) f) s Q"
  unfolding on_value_wp edit_manifests_def
  by (auto simp: wp_simps Let_def edited_def intro!: assms(2,3) pool_run_reaches git_remote_calls[OF assms(1)])

lemma credentials_remote:
  assumes "git_remote E url hist base"
    and "\<And>s' c. trace s' = trace s \<Longrightarrow> remote_later hist base (env s) (env s') \<Longrightarrow> wp (f c) s' Q"
    and "\<And>h s'. h \<noteq> Synced \<Longrightarrow> Q h s'"
  shows "wp (on_value (git_credentials E) f) s Q"
  unfolding on_value_wp git_credentials_def wp_bind
  by (rule stays_rule[OF credentials_stays[OF assms(1)] _ credentials_wp[where Q = "\<lambda>r s'. trace s' = trace s"]])
     (auto simp: wp_simps intro!: assms(2,3) split: prod.split option.split)

lemma commit_remote:
  assumes r: "git_remote E url hist base" and c: "cloned hist base (clone_Dir cl) fs (env s)"
    and "\<And>s'. trace s' = trace s @ [GitCommitted msg (files (clone_fs cl)), GitPushed ''main''] \<Longrightarrow>
      put_on E hist (clone_Dir cl) fs (env s') \<Longrightarrow> wp (f ()) s' Q"
    and "\<And>h s'. h \<noteq> Synced \<Longrightarrow> Q h s'"
  shows "wp (on_value (commit_step E cl cred msg) f) s Q"
  unfolding on_value_wp commit_step_def CommitAndPush_def
  by (auto simp: wp_simps intro!: assms(3,4) push_put_on[OF r] cloned_later[OF _ git_remote_calls(4)[OF r]]
      cloned_later[OF _ git_remote_calls(5)[OF r]] cloned_later[OF _ git_remote_calls(6)[OF r]]
      cloned_later[OF _ git_remote_calls(7)[OF r]] c)

text \<open>How a handler ends with the branch in view.\<close>

definition ended_on_tip ::
  "('e, 'q, 'y) mgmt_ext_scheme \<Rightarrow> ('e \<Rightarrow> (string \<rightharpoonup> string) list) \<Rightarrow> string \<Rightarrow> (header \<Rightarrow> bool) \<Rightarrow>
   (string \<Rightarrow> string \<Rightarrow> upd_err + string option) \<Rightarrow> handled \<Rightarrow> ('e, 'q) server \<Rightarrow> bool" where
  "ended_on_tip E hist url want edit h s' \<longleftrightarrow> (case h of
     Synced \<Rightarrow> \<exists>pre cl ms cl' msg a. trace s' = pre @ [GitCommitted msg (files (clone_fs cl')), GitPushed ''main'', a] \<and>
       searched E url want cl ms \<and> edited edit cl ms cl' \<and>
       put_on E hist (clone_Dir cl) (files (clone_fs cl)) (env s')
   | _ \<Rightarrow> True)"

lemma ended_on_tip_early: "h \<noteq> Synced \<Longrightarrow> ended_on_tip E hist url want edit h s'"
  by (cases h) (simp_all add: ended_on_tip_def)

lemma commit_on_tip:
  fixes s :: "('e, 'q) server" and E :: "('e, 'q, 'y) mgmt_ext_scheme"
  assumes r: "git_remote E url hist base" and w: "searched E url want cl ms" "edited edit cl ms cl'"
    and c: "cloned hist base (clone_Dir cl) (files (clone_fs cl)) (env s)"
    and st: "stays (remote_later hist base) final"
    and fin: "\<And>s' as. added [] s' as \<Longrightarrow> wp final s' (\<lambda>h s''. \<exists>p. ends_with_sync sync h p \<and> added [] s'' (as @ p))"
  shows "wp (on_value (commit_step E cl' cred msg) (\<lambda>_. final)) s (ended_on_tip E hist url want edit)"
proof -
  from w(2) have d: "clone_Dir cl' = clone_Dir cl" by (auto simp: edited_def)
  show ?thesis
  proof (rule commit_remote[OF r, of cl' "files (clone_fs cl)"], unfold d, rule c, goal_cases)
    case (1 s')
    note tip = 1(2)
    from 1 have "added [] s' (trace s @ [GitCommitted msg (files (clone_fs cl')), GitPushed ''main''])"
      by (simp add: added_def)
    from fin[OF this] show ?case
    proof (rule stays_rule[OF st, rotated], goal_cases)
      case (1 h s'')
      then obtain p where p: "ends_with_sync sync h p"
        "trace s'' = trace s @ [GitCommitted msg (files (clone_fs cl')), GitPushed ''main''] @ p"
        by (auto simp: added_def)
      show ?case
      proof (cases h)
        case Synced
        with p obtain a where "trace s'' = trace s @ [GitCommitted msg (files (clone_fs cl')), GitPushed ''main'', a]"
          by (auto simp: ends_with_sync_def)
        with w put_on_later[OF tip 1(1)] show ?thesis
          unfolding ended_on_tip_def Synced handled.case by blast
      qed (simp_all add: ended_on_tip_def)
    qed
  qed (rule ended_on_tip_early)
qed

text \<open>Both handlers from the clone on; between the edits and the commit there may be more calls.\<close>

lemma git_part_on_tip:
  fixes s :: "('e, 'q) server" and E :: "('e, 'q, 'y) mgmt_ext_scheme"
  assumes r: "git_remote E url hist base"
    and rest: "\<And>s' cl ms cl'. searched E url want cl ms \<Longrightarrow> edited edit cl ms cl' \<Longrightarrow>
      cloned hist base (clone_Dir cl) (files (clone_fs cl)) (env s') \<Longrightarrow>
      wp (rest cl') s' (ended_on_tip E hist url want edit)"
  shows "wp (on_value (find_manifests (clone_and_scan E pattern url ''main'' want)) (\<lambda>(cl, ms). on_value (edit_manifests E edit cl ms) rest)) s
    (ended_on_tip E hist url want edit)"
proof (rule find_remote[OF r], goal_cases)
  case (1 s1 cl ms)
  note w = 1(2,3)
  show ?case unfolding prod.case
  proof (rule edit_remote[OF r], goal_cases)
    case (1 s2 cl')
    from rest[OF w(1) 1(2) cloned_later[OF w(2) 1(3)]] show ?case .
  qed (rule ended_on_tip_early)
qed (rule ended_on_tip_early)

lemma handleRQ_on_tip:
  assumes r: "git_remote E (map_index (Annotations (rq_Meta rq)) ''repositoryUrl'') hist base"
  shows "wp (handleRQFromCluster E kind rq) s (ended_on_tip E hist
    (map_index (Annotations (rq_Meta rq)) ''repositoryUrl'') (wants_quota kind rq)
    (quota_edit (Yaml E) (QuantityString E) rq))"
proof -
  have a: "added [] s (trace s)" by (simp add: added_def)
  show ?thesis unfolding handleRQFromCluster_def check_defs Let_def
  proof (rule ensure_namespace_rule[OF a], goal_cases)
    case (1 s1)
    then obtain p where p: "added [] s1 p" by blast
    show ?case
    proof (split if_split, intro conjI impI, goal_cases)
      case 2
      show ?case
      proof (rule git_credentials_rule[OF p], rule gitea_ready_rule, assumption, goal_cases)
        case (1 s2 c s3)
        show ?case
          by (rule git_part_on_tip[OF r], rule commit_on_tip[OF r], assumption+)
             (auto intro!: remote.steps workload_stays[OF r] sync_stays[OF r] workload_sync_final
               split: workload_result.split option.split)
      qed (rule ended_on_tip_early, assumption)+
    qed (simp add: wp_return ended_on_tip_early)
  qed (rule ended_on_tip_early)
qed

lemma handleNSQ_on_tip:
  assumes r: "git_remote E (mc_RepositoryURL (ManagementCluster (ClusterRef (nsq_Spec cr)))) hist base"
  shows "wp (handleNamespaceQuota E cr) s (ended_on_tip E hist
    (mc_RepositoryURL (ManagementCluster (ClusterRef (nsq_Spec cr)))) (wants_deployment cr)
    (deployment_edit (Yaml E) (NodeScaling (Behavior (nsq_Spec cr)))))"
proof -
  have a: "added [] s (trace s)" by (simp add: added_def)
  show ?thesis unfolding handleNamespaceQuota_def check_defs Let_def
  proof (rule ensure_namespace_rule[OF a], goal_cases)
    case (1 s1)
    then obtain p where p: "added [] s1 p" by blast
    show ?case
    proof (rule store_nsq_rule[OF p], rule git_credentials_rule, assumption, rule gitea_ready_rule, assumption, goal_cases)
      case (1 s2 st s3 c s4)
      show ?case
      proof (rule git_part_on_tip[OF r], rule credentials_remote[OF r], goal_cases)
        case (1 s5 cl ms cl' s6 c)
        from cloned_later[OF 1(3,5)] show ?case
          by (rule commit_on_tip[OF r 1(1,2) _ sync_stays[OF r] sync_final[of _ _ _ "\<lambda>client. client = []"]]) (assumption, rule refl)
      qed (rule ended_on_tip_early)
    qed (rule ended_on_tip_early, assumption)+
  qed (rule ended_on_tip_early)
qed

section \<open>A sample remote\<close>

text \<open>
  The sample's repository with one commit, to which a push adds the second if there is
  none yet; the field \<open>se_status\<close> of the environment tells which.
\<close>

definition with_remote :: "(sample_env, int) mgmt_ext \<Rightarrow> (sample_env, int) mgmt_ext" where
  "with_remote E = E\<lparr>Push := (\<lambda>_ _ _ _ e. if se_status e = 204 then (None, e\<lparr>se_status := 205\<rparr>)
     else (Some ''non-fast-forward update'', e))\<rparr>"

definition sample_hist :: "string \<Rightarrow> string \<Rightarrow> sample_env \<Rightarrow> (string \<rightharpoonup> string) list" where
  "sample_hist old new e = (if se_status e = 204 then [files (sample_fs old)]
     else [files (sample_fs old), files (sample_fs new)])"

definition sample_base :: "string \<Rightarrow> sample_env \<Rightarrow> nat" where
  "sample_base d e = 1"

lemma sample_git_remote:
  "git_remote (with_remote sample_mgmt) url (sample_hist ''rq-old'' ''rq-new'') sample_base"
  "git_remote (with_remote sample_nodes) url (sample_hist ''md2'' ''md3'') sample_base"
  unfolding git_remote_def remote_later_def sample_hist_def sample_base_def with_remote_def sample_nodes_def
    sample_mgmt_def Let_def
  by simp_all

text \<open>What the two samples answer alike, and what a handler is run with.\<close>

definition answers :: "(sample_env, int) mgmt_ext \<Rightarrow> string \<Rightarrow> bool" where
  "answers E content \<longleftrightarrow> Getenv E = sample_getenv \<and> GetNamespace E = (\<lambda>ns e. (None, e)) \<and>
     GetSecret E = (\<lambda>ns nm e.
       (Inr [''username'' \<mapsto> ''bot'', ''password'' \<mapsto> ''pw'', ''value'' \<mapsto> ''kubeconfig''], e)) \<and>
     NewGiteaClient E = (\<lambda>c e. (None, e)) \<and> MyUserInfo E = (\<lambda>c e. (None, e)) \<and>
     MkdirTemp E = (\<lambda>p e. (Inr ''/tmp/1'', e)) \<and>
     PlainClone E = (\<lambda>d u r e. (Inr (sample_fs content, [Regular ''a.yaml'']), e)) \<and>
     SearchSchedule E = (\<lambda>e. (sample_search, e)) \<and> PoolSchedule E = (\<lambda>e. ([0, 0, 0, 0], e)) \<and>
     OpenRepo E = (\<lambda>d e. (None, e)) \<and> GetWorktree E = (\<lambda>d e. (None, e)) \<and>
     AddAll E = (\<lambda>d e. (None, e)) \<and> Commit E = (\<lambda>d m u e. (None, e)) \<and>
     Push E = (\<lambda>_ _ _ _ e. if se_status e = 204 then (None, e\<lparr>se_status := 205\<rparr>)
       else (Some ''non-fast-forward update'', e)) \<and>
     ListClusters E = (\<lambda>e. (Inr [''edge''], e)) \<and>
     GetClusterConditions E = (\<lambda>ns nm e. (Inr [ready_condition], e)) \<and>
     RESTConfig E = (\<lambda>_. Inr ''edge-config'') \<and> NewClusterClient E = (\<lambda>c e. (Inr ''edge-client'', e)) \<and>
     GetApp E = (\<lambda>c ns nm e. (Inr \<lparr>app_Name = nm, app_Namespace = ns, Operation = None\<rparr>, e)) \<and>
     UpdateApp E = (\<lambda>c a e. (None, e))"

lemma sample_answers: "answers (with_remote sample_mgmt) ''rq-old''" "answers (with_remote sample_nodes) ''md2''"
  unfolding answers_def with_remote_def sample_nodes_def sample_mgmt_def by simp_all

lemma answersD:
  assumes "answers E content"
  shows "Getenv E = sample_getenv" "GetNamespace E ns e = (None, e)"
    "GetSecret E ns nm e = (Inr [''username'' \<mapsto> ''bot'', ''password'' \<mapsto> ''pw'', ''value'' \<mapsto> ''kubeconfig''], e)"
    "NewGiteaClient E c e = (None, e)" "MyUserInfo E c e = (None, e)" "MkdirTemp E p e = (Inr ''/tmp/1'', e)"
    "PlainClone E d u r e = (Inr (sample_fs content, [Regular ''a.yaml'']), e)"
    "SearchSchedule E e = (sample_search, e)" "PoolSchedule E e = ([0, 0, 0, 0], e)"
    "OpenRepo E d e = (None, e)" "GetWorktree E d e = (None, e)" "AddAll E d e = (None, e)"
    "Commit E d m us e = (None, e)"
    "Push E d b us p e = (if se_status e = 204 then (None, e\<lparr>se_status := 205\<rparr>)
       else (Some ''non-fast-forward update'', e))"
    "ListClusters E e = (Inr [''edge''], e)" "GetClusterConditions E ns nm e = (Inr [ready_condition], e)"
    "RESTConfig E t = Inr ''edge-config''" "NewClusterClient E t e = (Inr ''edge-client'', e)"
    "GetApp E t ns nm e = (Inr \<lparr>app_Name = nm, app_Namespace = ns, Operation = None\<rparr>, e)"
    "UpdateApp E t a e = (None, e)"
  using assms unfolding answers_def by simp_all

lemma sample_ready: "isReady [ready_condition]" "sample_getenv ''GIT_SERVER_URL'' \<noteq> []"
  "HasSuffix (''edge'' @ kubeConfigSuffix) kubeConfigSuffix" "se_status (env sample_server_state) = 204"
  "singleInstance sample_server_state = None"
  by (simp add: isReady_def ready_condition_def, simp add: sample_getenv_def, rule HasSuffix_append,
      simp_all add: sample_server_state_def)

lemma sample_quota_search:
  "search_cfg (with_remote sample_mgmt) w
     \<lparr>clone_Dir = ''/tmp/1'', clone_fs = sample_fs ''rq-old'', clone_walk = [Regular ''a.yaml'']\<rparr> =
   search_cfg sample_mgmt w sample_clone"
  by (simp add: search_cfg_def with_remote_def sample_clone_def)

lemmas handler_defs = Let_def on_value_wp ensure_namespace_def git_credentials_def
  GetGiteaSecretUserNamePassword_def gitea_ready_def GetClient_def Start_def find_manifests_def clone_and_scan_def scan_clone_def edit_manifests_def
  commit_step_def CommitAndPush_def sync_step_def TriggerArgoCDSyncWithKubeClient_def GetWorkloadClusterClient_def
  GetCapiClusterFromName_def GetClusterClient_def isCapiClusterReady_def getCapiClusterClient_def

lemma remote_quota_run:
  "wp (handleRQFromCluster (with_remote sample_mgmt) ''ResourceQuota'' sample_quota) sample_server_state
     (\<lambda>h s'. h = Synced)"
proof -
  have E: "Yaml (with_remote sample_mgmt) = Yaml sample_mgmt"
    "QuantityString (with_remote sample_mgmt) = QuantityString sample_mgmt"
    by (simp_all add: with_remote_def)
  show ?thesis
    unfolding handleRQFromCluster_def check_defs handler_defs sample_labels
    by (simp add: on_value_wp wp_simps E answersD[OF sample_answers(1)] sample_ready sample_ready(3)[simplified]
        sample_quota_search sample_search_found sample_pool all_done_def GetCapiCluster_def IsInitialized_def
        del: pool_run.simps)
qed

lemma sample_nodes_cfg:
  "search_cfg (with_remote sample_nodes) w
     \<lparr>clone_Dir = ''/tmp/1'', clone_fs = sample_fs ''md2'', clone_walk = [Regular ''a.yaml'']\<rparr> =
   search_cfg sample_nodes w (sample_clone\<lparr>clone_fs := sample_fs ''md2''\<rparr>)"
  by (simp add: search_cfg_def with_remote_def sample_clone_def)

lemma remote_nodes_run:
  "wp (handleNamespaceQuota (with_remote sample_nodes) node_nsq) sample_server_state (\<lambda>h s'. h = Synced)"
proof -
  have E: "Yaml (with_remote sample_nodes) = sample_yaml"
    "GetNSQ (with_remote sample_nodes) ns nm (env sample_server_state) = (Inl NotFound, env sample_server_state)"
    "CreateNSQ (with_remote sample_nodes) q e = (Inr q, e)" "UpdateNSQ (with_remote sample_nodes) q e = (None, e)"
    for ns nm q e
    by (simp_all add: with_remote_def sample_nodes_def sample_mgmt_def sample_ext_def sample_server_state_def found_def)
  have up: "NodeScaling (Behavior (nsq_Spec node_nsq)) = up_to 5" by (simp add: node_nsq_def)
  show ?thesis
    unfolding handleNamespaceQuota_def check_defs handler_defs store_nsq_def up
    by (simp add: on_value_wp wp_simps E answersD[OF sample_answers(2)] sample_ready
        sample_nodes_cfg sample_nodes_search sample_nodes_pool all_done_def IsInitialized_def
        del: pool_run.simps)
qed

section \<open>Properties\<close>





end
