(* ===== verification/Heartbeats.thy ===== *)
theory Heartbeats imports Prelude begin

text \<open>
  The in-memory store of heartbeats of restapi/restapi_server.go and the endpoint that
  lists it. Every method holds the store's lock for its whole body, so each is one step.
\<close>

section \<open>The store\<close>

record heartbeat =
  NodeId :: string
  IPAddress :: string
  OS :: string
  Arch :: string
  CPUCount :: int
  MemoryMB :: "64 word"
  Extra :: "string \<rightharpoonup> string"
  ReceivedAt :: int
  ClusterName :: string
  ClusterNS :: string
  Machine :: string
  OwnerKind :: string
  OwnerName :: string
  ProvidedIP :: string
  CRISocket :: string
  MissCount :: int

text \<open>The store, behind a lock; All visits the map in an order Go does not fix.\<close>

type_synonym store = "string \<rightharpoonup> heartbeat"

definition NewHeartbeatStore :: store where
  "NewHeartbeatStore = Map.empty"

definition store_Update :: "int \<Rightarrow> heartbeat \<Rightarrow> store \<Rightarrow> store" where
  "store_Update now hb s = (let hb' = hb\<lparr>ReceivedAt := now, MissCount := 0\<rparr> in s(NodeId hb' \<mapsto> hb'))"

definition store_Get :: "store \<Rightarrow> string \<Rightarrow> heartbeat option" where
  "store_Get s n = s n"

definition store_All :: "string list \<Rightarrow> store \<Rightarrow> heartbeat list" where
  "store_All order s = List.map_filter s order"

text \<open>The endpoint /quota-based-scaling: its content type, and what is encoded as JSON.\<close>

definition list_endpoint :: "string list \<Rightarrow> store \<Rightarrow> string \<times> heartbeat list" where
  "list_endpoint order s = (let nodes = store_All order s in (''application/yaml'', nodes))"

section \<open>Lemmas\<close>

text \<open>The store after a history of heartbeats, each with the time it is received at.\<close>

definition received_all :: "(int \<times> heartbeat) list \<Rightarrow> store" where
  "received_all us = fold (\<lambda>(now, hb). store_Update now hb) us NewHeartbeatStore"

definition stamped :: "int \<times> heartbeat \<Rightarrow> heartbeat" where
  "stamped u = (snd u)\<lparr>ReceivedAt := fst u, MissCount := 0\<rparr>"

lemma store_Update_stamped: "store_Update now hb s = s(NodeId hb \<mapsto> stamped (now, hb))"
  by (simp add: store_Update_def stamped_def Let_def)

lemma received_all_last:
  "received_all us n = map_option stamped (find (\<lambda>u. NodeId (snd u) = n) (rev us))"
  by (induction us rule: rev_induct)
     (auto simp: received_all_def NewHeartbeatStore_def store_Update_stamped split: prod.split)

lemma find_found: "find P xs = Some x \<Longrightarrow> P x"
  by (induction xs) (auto split: if_splits)

lemma stamped_key: "received_all us n = Some hb \<Longrightarrow> NodeId hb = n \<and> MissCount hb = 0"
  by (auto simp: received_all_last stamped_def dest!: find_found)

lemma listed_keys:
  "(\<And>n hb. s n = Some hb \<Longrightarrow> NodeId hb = n) \<Longrightarrow> set order \<subseteq> dom s \<Longrightarrow> map NodeId (store_All order s) = order"
  by (induction order) (auto simp: store_All_def List.map_filter_def)

section \<open>Properties\<close>

text \<open>
  C37. The store holds the last heartbeat of each node: after any history, Get gives the
  latest heartbeat of that name with the time the server received it, whatever time the
  agent sent, and a miss counter of 0; and the list endpoint answers with exactly one
  heartbeat per node that ever sent one, in whatever order Go visits the map.
\<close>

theorem store_keeps_last:
  assumes "distinct order" and "set order = dom (received_all us)"
  shows "store_Get (received_all us) n =
      map_option (\<lambda>(now, hb). hb\<lparr>ReceivedAt := now, MissCount := 0\<rparr>) (find (\<lambda>u. NodeId (snd u) = n) (rev us)) \<and>
    map NodeId (snd (list_endpoint order (received_all us))) = order \<and>
    set order = (NodeId \<circ> snd) ` set us"
proof (intro conjI)
  show "store_Get (received_all us) n =
      map_option (\<lambda>(now, hb). hb\<lparr>ReceivedAt := now, MissCount := 0\<rparr>) (find (\<lambda>u. NodeId (snd u) = n) (rev us))"
    by (auto simp: store_Get_def received_all_last stamped_def intro!: option.map_cong)
  show "map NodeId (snd (list_endpoint order (received_all us))) = order"
    using assms(2) stamped_key listed_keys[of "received_all us" order] by (simp add: list_endpoint_def Let_def)
  show "set order = (NodeId \<circ> snd) ` set us"
    unfolding assms(2) by (force simp: dom_def received_all_last find_None_iff)
qed

definition beat :: "string \<Rightarrow> int \<Rightarrow> heartbeat" where
  "beat n t = \<lparr>NodeId = n, IPAddress = [], OS = [], Arch = [], CPUCount = 2, MemoryMB = 4096,
     Extra = Map.empty, ReceivedAt = t, ClusterName = [], ClusterNS = [], Machine = [], OwnerKind = [],
     OwnerName = [], ProvidedIP = [], CRISocket = [], MissCount = 3\<rparr>"

definition beats :: "(int \<times> heartbeat) list" where
  "beats = [(5, beat ''a'' 1), (6, beat ''b'' 2), (7, beat ''a'' 3)]"

theorem store_keeps_last_witness:
  "store_Get (received_all beats) ''a'' = Some ((beat ''a'' 3)\<lparr>ReceivedAt := 7, MissCount := 0\<rparr>) \<and>
   map NodeId (snd (list_endpoint [''b'', ''a''] (received_all beats))) = [''b'', ''a'']"
proof -
  have d: "distinct [''b'', ''a'']" "set [''b'', ''a''] = dom (received_all beats)"
    by (auto simp: beats_def received_all_def NewHeartbeatStore_def store_Update_stamped stamped_def beat_def dom_def)
  show ?thesis
    using store_keeps_last[OF d, of "''a''"] by (simp add: beats_def beat_def)
qed

end
