(* ===== verification/Rest_Server.thy ===== *)
theory Rest_Server imports Management Heartbeats begin

text \<open>
  The HTTP server of restapi/restapi_server.go as a whole: its two patterns and the store
  of heartbeats that its handlers share, from StartServer on.
\<close>

section \<open>The server\<close>

text \<open>A request: its path, its method and its body, which may be unreadable.\<close>

record request =
  Path :: string
  Method :: string
  Body :: "string option"

datatype response =
    Status int
  | Listing string "heartbeat list"

text \<open>
  The multiplexer: the two patterns are whole paths, any other clean path is not found. The
  second handler looks at no method. \<open>order\<close> is the order in which Go visits the map.
\<close>

definition mux ::
  "('e, 'q, 'y) mgmt_ext_scheme \<Rightarrow> (string \<Rightarrow> 'q received) \<Rightarrow> (store \<Rightarrow> string list) \<Rightarrow> store \<Rightarrow> request \<Rightarrow>
   (('e, 'q) server, response) state" where
  "mux E decode order store r =
     (if Path r = ''/quotabased-scaling''
      then do { st \<leftarrow> scaling_endpoint E decode (Method r) (Body r); State_Monad.return (Status st) }
      else if Path r = ''/quota-based-scaling''
      then State_Monad.return (case list_endpoint (order store) store of (t, nodes) \<Rightarrow> Listing t nodes)
      else State_Monad.return (Status 404))"

text \<open>
  The server in its goroutine: if it cannot listen it logs that and ends, and the process
  goes on; otherwise it answers requests.
\<close>

primrec RunQuotaBasedScalingServer ::
  "('e, 'q, 'y) mgmt_ext_scheme \<Rightarrow> (string \<Rightarrow> 'q received) \<Rightarrow> (store \<Rightarrow> string list) \<Rightarrow> string option \<Rightarrow> store \<Rightarrow>
   request list \<Rightarrow> (('e, 'q) server, response list) state" where
  "RunQuotaBasedScalingServer E decode order listen_err store [] = State_Monad.return []"
| "RunQuotaBasedScalingServer E decode order listen_err store (r # rs) =
     (if listen_err \<noteq> None then State_Monad.return []
      else do {
        a \<leftarrow> mux E decode order store r;
        as \<leftarrow> RunQuotaBasedScalingServer E decode order listen_err store rs;
        State_Monad.return (a # as)
      })"

definition start_server ::
  "('e, 'q, 'y) mgmt_ext_scheme \<Rightarrow> (string \<Rightarrow> 'q received) \<Rightarrow> (store \<Rightarrow> string list) \<Rightarrow> string option \<Rightarrow>
   request list \<Rightarrow> (('e, 'q) server, response list) state" where
  "start_server E decode order listen_err rs =
     RunQuotaBasedScalingServer E decode order listen_err NewHeartbeatStore rs"

section \<open>Lemmas\<close>

text \<open>What a request is answered with: its path, method, body, the decoder and the store decide.\<close>

definition answer_of :: "(string \<Rightarrow> 'q received) \<Rightarrow> (store \<Rightarrow> string list) \<Rightarrow> store \<Rightarrow> request \<Rightarrow> response" where
  "answer_of decode order store r =
     (if Path r = ''/quotabased-scaling'' then Status (status_of decode (Method r) (Body r))
      else if Path r = ''/quota-based-scaling'' then Listing ''application/yaml'' (store_All (order store) store)
      else Status 404)"

lemma disciplined_mono: "disciplined s s' m \<Longrightarrow> m \<le> n \<Longrightarrow> disciplined s s' n"
  by (auto simp: disciplined_def intro: le_trans)

lemma mux_disciplined:
  "wp (mux E decode order store r) s (\<lambda>a s'. a = answer_of decode order store r \<and>
     disciplined s s' (if a = Status 204 then 1 else 0))"
proof (cases "Path r = ''/quotabased-scaling''")
  case True
  then show ?thesis
    unfolding mux_def wp_bind if_P[OF True]
    by (intro wp_conseq[OF endpoint_disciplined]) (simp add: wp_return answer_of_def)
next
  case False
  then show ?thesis
    by (simp add: mux_def wp_return answer_of_def list_endpoint_def disciplined_refl)
qed

lemma server_disciplined:
  "wp (RunQuotaBasedScalingServer E decode order None store rs) s (\<lambda>as s'.
     as = map (answer_of decode order store) rs \<and> disciplined s s' (count_list as (Status 204)))"
proof (induction rs arbitrary: s)
  case (Cons r rs)
  have "disciplined s s2 (count_list (a # as) (Status 204))"
    if "disciplined s s1 (if a = Status 204 then 1 else 0)" "disciplined s1 s2 (count_list as (Status 204))"
    for s1 s2 a as
    using disciplined_trans[OF that] by (auto split: if_splits)
  then show ?case
    by (simp add: wp_bind wp_return)
       (intro wp_conseq[OF mux_disciplined] wp_conseq[OF Cons], auto)
qed (simp add: wp_return disciplined_refl)

section \<open>Properties\<close>

text \<open>
  C25. The server over any sequence of requests, to any path: each answer depends on the
  path, the method, the body and the decoder alone, never on what a handler did, so 204
  tells a client nothing about success; a listing of the heartbeats is always empty, since
  nothing that is served stores one. What the handlers did keeps the Git discipline: each
  push right after a commit, each sync right after a push, at most one commit for each 204.
  A server that cannot listen answers nothing and does nothing.
\<close>

theorem server_answers:
  "wp (start_server E decode order None rs) s (\<lambda>as s'.
     as = map (\<lambda>r. if Path r = ''/quotabased-scaling'' then Status (status_of decode (Method r) (Body r))
       else if Path r = ''/quota-based-scaling'' then Listing ''application/yaml'' [] else Status 404) rs \<and>
     (\<exists>tr. trace s' = trace s @ tr \<and> git_ordered None tr \<and> commits tr \<le> count_list as (Status 204))) \<and>
   wp (start_server E decode order (Some e) rs) s (\<lambda>as s'. as = [] \<and> s' = s)"
proof
  have empty: "store_All os NewHeartbeatStore = []" for os
    by (induction os) (simp_all add: store_All_def NewHeartbeatStore_def List.map_filter_def)
  show "wp (start_server E decode order None rs) s (\<lambda>as s'.
     as = map (\<lambda>r. if Path r = ''/quotabased-scaling'' then Status (status_of decode (Method r) (Body r))
       else if Path r = ''/quota-based-scaling'' then Listing ''application/yaml'' [] else Status 404) rs \<and>
     (\<exists>tr. trace s' = trace s @ tr \<and> git_ordered None tr \<and> commits tr \<le> count_list as (Status 204)))"
    using server_disciplined[of E decode order NewHeartbeatStore rs s]
    unfolding start_server_def disciplined_def answer_of_def empty .
  show "wp (start_server E decode order (Some e) rs) s (\<lambda>as s'. as = [] \<and> s' = s)"
    by (cases rs) (simp_all add: start_server_def wp_return)
qed

end
