(* ===== verification/Schemes.thy ===== *)
theory Schemes imports Sample_Server begin

text \<open>
  The schemes: which Go types each client may be asked for. They are built by init of
  cmd/main.go for the manager's client, by init of restapi/restapi_server.go for the
  decoder of the endpoint, and by reconcilers/capi/cluster.go for the clients of workload
  clusters; api/v1/groupversion_info.go says how the program's own types get in.
\<close>

section \<open>Building schemes\<close>

text \<open>A type by its API group and its kind. A scheme is what has been added to it.\<close>

type_synonym api_type = "string \<times> string"

type_synonym scheme = "api_type list"

text \<open>AddToScheme of a library package: an error or nil, and the scheme afterwards. Parameters.\<close>

type_synonym adder = "scheme \<Rightarrow> string option \<times> scheme"

record packages =
  clientgo :: adder
  clientgo_scale :: adder
  argov1alpha1 :: adder
  capiv1beta1 :: adder
  velerov1 :: adder
  corev1 :: adder
  appsv1 :: adder
  batchv1 :: adder
  rbacv1 :: adder
  autoscalingv1 :: adder
  networkingv1 :: adder
  policyv1 :: adder
  storagev1 :: adder
  apiextensionsv1 :: adder
  AddToGroupVersion :: "string \<Rightarrow> scheme \<Rightarrow> scheme"

text \<open>utilruntime.Must panics on an error; an assignment to the blank identifier drops it.\<close>

definition Must :: "adder \<Rightarrow> scheme \<Rightarrow> scheme go" where
  "Must f s = (case f s of (None, s') \<Rightarrow> Ret s' | (Some e, s') \<Rightarrow> Panic e)"

definition ignoring :: "adder \<Rightarrow> scheme \<Rightarrow> scheme" where
  "ignoring f s = snd (f s)"

primrec Must_all :: "adder list \<Rightarrow> scheme \<Rightarrow> scheme go" where
  "Must_all [] s = Ret s"
| "Must_all (f # fs) s = (case Must f s of Panic e \<Rightarrow> Panic e | Ret s' \<Rightarrow> Must_all fs s')"

text \<open>
  The program's own group: SchemeBuilder is a list of types that init fills, and adding it
  to a scheme adds them and, with the group version, the options of the API.
\<close>

definition scaling_group :: string where
  "scaling_group = ''scaling.dcn.ssu.ac.kr''"

definition Register :: "string list \<Rightarrow> scheme \<Rightarrow> scheme" where
  "Register kinds builder = builder @ map (Pair scaling_group) kinds"

definition SchemeBuilder :: scheme where
  "SchemeBuilder = Register [''NamespaceQuota'', ''NamespaceQuotaList''] []"

definition scaling_AddToScheme :: "packages \<Rightarrow> adder" where
  "scaling_AddToScheme P s = (None, AddToGroupVersion P scaling_group (s @ SchemeBuilder))"

definition main_scheme :: "packages \<Rightarrow> scheme go" where
  "main_scheme P = (case Must_all [clientgo P, argov1alpha1 P, corev1 P, scaling_AddToScheme P] [] of
     Panic e \<Rightarrow> Panic e
   | Ret s \<Rightarrow> Ret (ignoring (capiv1beta1 P) s))"

definition apiScheme :: "packages \<Rightarrow> scheme" where
  "apiScheme P = AddToGroupVersion P [] (ignoring (scaling_AddToScheme P) (ignoring (corev1 P) []))"

definition GetDefaultKubeScheme :: "packages \<Rightarrow> scheme go" where
  "GetDefaultKubeScheme P = Must_all [corev1 P, appsv1 P, batchv1 P, rbacv1 P, autoscalingv1 P, networkingv1 P,
     policyv1 P, storagev1 P, apiextensionsv1 P, clientgo_scale P] []"

definition GetSchemeWithVelero :: "packages \<Rightarrow> string + scheme" where
  "GetSchemeWithVelero P = (case corev1 P [] of
     (Some e, s) \<Rightarrow> Inl e
   | (None, s) \<Rightarrow> (case velerov1 P s of (Some e, s') \<Rightarrow> Inl e | (None, s') \<Rightarrow> Inr s'))"

text \<open>The scheme of getCapiClusterClient, which it makes before it looks at the kubeconfig.\<close>

definition workload_scheme :: "packages \<Rightarrow> scheme go" where
  "workload_scheme P = (case GetDefaultKubeScheme P of
     Panic e \<Rightarrow> Panic e
   | Ret s \<Rightarrow> (case Must (velerov1 P) s of
       Panic e \<Rightarrow> Panic e
     | Ret s' \<Rightarrow> Ret (ignoring (argov1alpha1 P) s')))"

section \<open>The packages\<close>

text \<open>
  The documented behaviour of the packages: adding removes nothing, and without an error
  the types that the package has are there. Only the types that the program asks a client
  for are named.
\<close>

definition adds :: "adder \<Rightarrow> api_type list \<Rightarrow> bool" where
  "adds f ts \<longleftrightarrow> (\<forall>s. set s \<subseteq> set (snd (f s)) \<and> (fst (f s) = None \<longrightarrow> set ts \<subseteq> set (snd (f s))))"

definition core_types :: "api_type list" where
  "core_types = map (Pair []) [''Namespace'', ''Secret'', ''ResourceQuota'', ''ResourceQuotaList'', ''PodList'',
     ''NodeList'', ''Event'', ''EventList'', ''Node'']"

definition apps_types :: "api_type list" where
  "apps_types = map (Pair ''apps'') [''DeploymentList'', ''ReplicaSetList'']"

definition argo_types :: "api_type list" where
  "argo_types = [(''argoproj.io'', ''Application'')]"

definition capi_types :: "api_type list" where
  "capi_types = [(''cluster.x-k8s.io'', ''ClusterList'')]"

definition scaling_types :: "api_type list" where
  "scaling_types = map (Pair scaling_group) [''NamespaceQuota'', ''NamespaceQuotaList'']"

definition packages_laws :: "packages \<Rightarrow> bool" where
  "packages_laws P \<longleftrightarrow> adds (clientgo P) (core_types @ apps_types) \<and> adds (clientgo_scale P) [] \<and>
     adds (argov1alpha1 P) argo_types \<and> adds (capiv1beta1 P) capi_types \<and> adds (velerov1 P) [] \<and>
     adds (corev1 P) core_types \<and> adds (appsv1 P) apps_types \<and> adds (batchv1 P) [] \<and> adds (rbacv1 P) [] \<and>
     adds (autoscalingv1 P) [] \<and> adds (networkingv1 P) [] \<and> adds (policyv1 P) [] \<and> adds (storagev1 P) [] \<and>
     adds (apiextensionsv1 P) [] \<and> (\<forall>g s. set s \<subseteq> set (AddToGroupVersion P g s))"

lemma scaling_adds:
  assumes "packages_laws P"
  shows "adds (scaling_AddToScheme P) scaling_types"
proof -
  have g: "set s \<subseteq> set (AddToGroupVersion P g s)" for g s using assms by (simp add: packages_laws_def)
  have "set (s @ SchemeBuilder) \<subseteq> set (snd (scaling_AddToScheme P s))" for s
    unfolding scaling_AddToScheme_def snd_conv by (rule g)
  then show ?thesis
    unfolding adds_def by (simp add: SchemeBuilder_def Register_def scaling_types_def)
qed

lemma Must_adds:
  assumes "adds f ts" and "Must f s = Ret s'"
  shows "set s \<subseteq> set s'" and "set ts \<subseteq> set s'"
proof -
  from assms(2) have "f s = (None, s')" by (auto simp: Must_def split: prod.splits option.splits)
  with assms(1) have "set s \<subseteq> set s' \<and> set ts \<subseteq> set s'" unfolding adds_def by (metis fst_conv snd_conv)
  then show "set s \<subseteq> set s'" and "set ts \<subseteq> set s'" by simp_all
qed

lemma ignoring_adds:
  assumes "adds f ts"
  shows "set s \<subseteq> set (ignoring f s)" and "fst (f s) = None \<Longrightarrow> set ts \<subseteq> set (ignoring f s)"
  using assms by (simp_all add: adds_def ignoring_def)

lemma Must_all_adds:
  assumes "list_all2 adds fs tss" and "Must_all fs s = Ret s'"
  shows "set s \<subseteq> set s' \<and> set (concat tss) \<subseteq> set s'"
  using assms
proof (induction fs tss arbitrary: s rule: list_all2_induct)
  case (Cons f fs ts tss)
  then obtain s1 where s1: "Must f s = Ret s1" "Must_all fs s1 = Ret s'" by (auto split: go.splits)
  from Must_adds[OF Cons(1) s1(1)] Cons.IH[OF s1(2)] show ?case by auto
qed simp

lemma main_scheme_types:
  assumes P: "packages_laws P" and m: "main_scheme P = Ret s"
  shows "set (core_types @ apps_types @ argo_types @ scaling_types) \<subseteq> set s"
    and "(\<forall>s. fst (capiv1beta1 P s) = None) \<Longrightarrow> set capi_types \<subseteq> set s"
proof -
  from m obtain s1 where s1: "Must_all [clientgo P, argov1alpha1 P, corev1 P, scaling_AddToScheme P] [] = Ret s1"
    and s: "s = ignoring (capiv1beta1 P) s1" by (auto simp: main_scheme_def split: go.splits)
  have "list_all2 adds [clientgo P, argov1alpha1 P, corev1 P, scaling_AddToScheme P]
      [core_types @ apps_types, argo_types, core_types, scaling_types]"
    using P scaling_adds[OF P] by (simp add: packages_laws_def)
  from Must_all_adds[OF this s1]
  have t: "set (core_types @ apps_types @ argo_types @ scaling_types) \<subseteq> set s1" by auto
  from P have c: "adds (capiv1beta1 P) capi_types" by (simp add: packages_laws_def)
  from t ignoring_adds(1)[OF c, of s1] show "set (core_types @ apps_types @ argo_types @ scaling_types) \<subseteq> set s"
    unfolding s by blast
  show "set capi_types \<subseteq> set s" if "\<forall>s. fst (capiv1beta1 P s) = None"
    unfolding s by (rule ignoring_adds(2)[OF c]) (use that in simp)
qed

lemma workload_scheme_types:
  assumes P: "packages_laws P" and m: "workload_scheme P = Ret s" and "\<forall>s. fst (argov1alpha1 P s) = None"
  shows "set argo_types \<subseteq> set s"
proof -
  from m obtain s1 where s: "s = ignoring (argov1alpha1 P) s1" by (auto simp: workload_scheme_def split: go.splits)
  from P have c: "adds (argov1alpha1 P) argo_types" by (simp add: packages_laws_def)
  show ?thesis unfolding s by (rule ignoring_adds(2)[OF c]) (use assms(3) in simp)
qed

lemma apiScheme_types:
  assumes P: "packages_laws P"
  shows "set scaling_types \<subseteq> set (apiScheme P)"
    and "fst (corev1 P []) = None \<Longrightarrow> set core_types \<subseteq> set (apiScheme P)"
proof -
  have g: "set s \<subseteq> set (AddToGroupVersion P [] s)" for s using P by (simp add: packages_laws_def)
  have c: "adds (corev1 P) core_types" using P by (simp add: packages_laws_def)
  note a = ignoring_adds[OF scaling_adds[OF P], of "ignoring (corev1 P) []"]
  have "fst (scaling_AddToScheme P x) = None" for x by (simp add: scaling_AddToScheme_def)
  from order_trans[OF a(2)[OF this] g]
  show "set scaling_types \<subseteq> set (apiScheme P)" unfolding apiScheme_def .
  show "set core_types \<subseteq> set (apiScheme P)" if "fst (corev1 P []) = None"
    using ignoring_adds(2)[OF c that] a(1) g[of "ignoring (scaling_AddToScheme P) (ignoring (corev1 P) [])"]
    unfolding apiScheme_def by blast
qed

section \<open>Typed clients\<close>

text \<open>
  A client that is asked for a type its scheme does not know answers with an error and
  does nothing. \<open>typed_outside sch wsch E\<close> is the outside E behind the manager's client,
  with the scheme sch, and clients of workload clusters, with wsch. The Cluster object is
  read as an unstructured object, for which a scheme is not asked.
\<close>

definition typed :: "scheme \<Rightarrow> api_type \<Rightarrow> ('e \<Rightarrow> (api_error + 'a) \<times> 'e) \<Rightarrow> 'e \<Rightarrow> (api_error + 'a) \<times> 'e" where
  "typed sch t f = (if t \<in> set sch then f else (\<lambda>e. (Inl (ApiError (''no kind is registered for the type '' @ snd t)), e)))"

definition typed_write :: "scheme \<Rightarrow> api_type \<Rightarrow> ('e \<Rightarrow> api_error option \<times> 'e) \<Rightarrow> 'e \<Rightarrow> api_error option \<times> 'e" where
  "typed_write sch t f =
     (if t \<in> set sch then f else (\<lambda>e. (Some (ApiError (''no kind is registered for the type '' @ snd t)), e)))"

definition typed_outside :: "scheme \<Rightarrow> scheme \<Rightarrow> ('e, 'q, 'y) mgmt_ext_scheme \<Rightarrow> ('e, 'q, 'y) mgmt_ext_scheme" where
  "typed_outside sch wsch E = E\<lparr>
     GetNSQ := (\<lambda>ns nm. typed sch (scaling_group, ''NamespaceQuota'') (GetNSQ E ns nm)),
     ListNSQ := (\<lambda>ns. typed sch (scaling_group, ''NamespaceQuotaList'') (ListNSQ E ns)),
     GetRQ := (\<lambda>ns nm. typed sch ([], ''ResourceQuota'') (GetRQ E ns nm)),
     ListRQ := (\<lambda>ns. typed sch ([], ''ResourceQuotaList'') (ListRQ E ns)),
     UpdateRQ := (\<lambda>rq. typed_write sch ([], ''ResourceQuota'') (UpdateRQ E rq)),
     ListNodes := typed sch ([], ''NodeList'') (ListNodes E),
     ListPods := (\<lambda>ns. typed sch ([], ''PodList'') (ListPods E ns)),
     ListDeployments := (\<lambda>ns. typed sch (''apps'', ''DeploymentList'') (ListDeployments E ns)),
     ListReplicaSets := (\<lambda>ns. typed sch (''apps'', ''ReplicaSetList'') (ListReplicaSets E ns)),
     ListEvents := (\<lambda>ns. typed sch ([], ''EventList'') (ListEvents E ns)),
     GetSecret := (\<lambda>ns nm. typed sch ([], ''Secret'') (GetSecret E ns nm)),
     GetApp := (\<lambda>c ns nm. typed (if c = [] then sch else wsch) (''argoproj.io'', ''Application'') (GetApp E c ns nm)),
     UpdateApp := (\<lambda>c app. typed_write (if c = [] then sch else wsch) (''argoproj.io'', ''Application'') (UpdateApp E c app)),
     GetNamespace := (\<lambda>ns. typed_write sch ([], ''Namespace'') (GetNamespace E ns)),
     CreateNamespace := (\<lambda>ns. typed_write sch ([], ''Namespace'') (CreateNamespace E ns)),
     CreateNSQ := (\<lambda>q. typed sch (scaling_group, ''NamespaceQuota'') (CreateNSQ E q)),
     UpdateNSQ := (\<lambda>q. typed_write sch (scaling_group, ''NamespaceQuota'') (UpdateNSQ E q)),
     ListClusters := typed sch (''cluster.x-k8s.io'', ''ClusterList'') (ListClusters E)\<rparr>"

lemma typed_outside_same:
  assumes "set (core_types @ apps_types @ argo_types @ scaling_types @ capi_types) \<subseteq> set sch"
    and "set argo_types \<subseteq> set wsch"
  shows "typed_outside sch wsch E = E"
proof -
  have t: "typed s t = (\<lambda>f. f)" "typed_write s t = (\<lambda>f. f)" if "t \<in> set s" for s t
    using that by (simp_all add: typed_def typed_write_def fun_eq_iff)
  have a: "(''argoproj.io'', ''Application'') \<in> set (if c then sch else wsch)" for c
    using assms by (simp add: argo_types_def)
  show ?thesis
    unfolding typed_outside_def
    using assms(1)
    by (simp add: t a core_types_def apps_types_def scaling_types_def capi_types_def)
qed

text \<open>
  An error of the Cluster API package is dropped, so the process starts; then no workload
  cluster is ever found.
\<close>

theorem unregistered_clusters_unreachable:
  assumes "(''cluster.x-k8s.io'', ''ClusterList'') \<notin> set sch"
  shows "wp (GetWorkloadClusterClient (typed_outside sch wsch E) n) s (\<lambda>r s'. (\<exists>e. r = WErr e) \<and> s' = s)"
  using assms
  by (simp add: GetWorkloadClusterClient_def wp_simps typed_outside_def typed_def)

section \<open>Properties\<close>

text \<open>
  C26. Clients are only asked for types they know: with the scheme that main builds, in the
  manager's client, and the one that getCapiClusterClient builds, in the clients of
  workload clusters, the outside behind these clients is the outside itself, so no call of
  the program fails for a type that is not registered; and the scheme of the endpoint
  knows both kinds of objects that agents send. Building the schemes panics or not; the
  packages of Cluster API and Argo CD, whose errors are dropped somewhere, must have none.
\<close>

theorem well_typed_calls:
  assumes "packages_laws P" and "\<forall>s. fst (capiv1beta1 P s) = None" and "\<forall>s. fst (argov1alpha1 P s) = None"
  shows "(case (main_scheme P, workload_scheme P) of
      (Ret sch, Ret wsch) \<Rightarrow> typed_outside sch wsch E = E
    | _ \<Rightarrow> True) \<and>
    set scaling_types \<subseteq> set (apiScheme P) \<and>
    (if fst (corev1 P []) = None then set core_types \<subseteq> set (apiScheme P) else True)"
proof -
  have "typed_outside sch wsch E = E" if "main_scheme P = Ret sch" "workload_scheme P = Ret wsch" for sch wsch
    using main_scheme_types[OF assms(1) that(1)] assms(2) workload_scheme_types[OF assms(1) that(2) assms(3)]
    by (intro typed_outside_same) auto
  with apiScheme_types[OF assms(1)] show ?thesis by (simp split: go.split)
qed

definition sample_packages :: packages where
  "sample_packages = \<lparr>clientgo = (\<lambda>s. (None, s @ core_types @ apps_types)), clientgo_scale = Pair None,
     argov1alpha1 = (\<lambda>s. (None, s @ argo_types)), capiv1beta1 = (\<lambda>s. (None, s @ capi_types)),
     velerov1 = Pair None, corev1 = (\<lambda>s. (None, s @ core_types)), appsv1 = (\<lambda>s. (None, s @ apps_types)),
     batchv1 = Pair None, rbacv1 = Pair None, autoscalingv1 = Pair None, networkingv1 = Pair None,
     policyv1 = Pair None, storagev1 = Pair None, apiextensionsv1 = Pair None, AddToGroupVersion = (\<lambda>g s. s)\<rparr>"

lemma sample_packages_laws: "packages_laws sample_packages"
  by (simp add: packages_laws_def sample_packages_def adds_def)

theorem well_typed_calls_witness:
  "\<exists>sch wsch. main_scheme sample_packages = Ret sch \<and> workload_scheme sample_packages = Ret wsch \<and>
     typed_outside sch wsch sample_mgmt = sample_mgmt"
proof -
  have "\<exists>sch. main_scheme sample_packages = Ret sch"
    by (simp add: main_scheme_def sample_packages_def Must_def scaling_AddToScheme_def)
  moreover have "\<exists>wsch. workload_scheme sample_packages = Ret wsch"
    by (simp add: workload_scheme_def GetDefaultKubeScheme_def sample_packages_def Must_def)
  ultimately obtain sch wsch where r: "main_scheme sample_packages = Ret sch" "workload_scheme sample_packages = Ret wsch"
    by blast
  from well_typed_calls[OF sample_packages_laws, where E = sample_mgmt] r show ?thesis by (simp add: sample_packages_def)
qed

end
