(* ===== verification/Command_Line.thy ===== *)
theory Command_Line imports Startup begin

text \<open>
  The command line of cmd/main.go: the flags that main declares, and flag.Parse of the
  standard library, which fills them and ends the process on a bad argument.
\<close>

section \<open>Splitting arguments\<close>

text \<open>The text before the first equals sign after the first character, and the one after it.\<close>

fun split_eq :: "string \<Rightarrow> string \<times> string option" where
  "split_eq [] = ([], None)"
| "split_eq (c # cs) = (if c = CHR ''='' then ([], Some cs) else (case split_eq cs of (n, v) \<Rightarrow> (c # n, v)))"

text \<open>
  One argument: the flags end before one that has no dash or is a dash alone, and after
  two dashes alone; otherwise it is a name with or without a value, or bad syntax.
\<close>

datatype arg =
    NoFlag
  | EndOfFlags
  | BadSyntax
  | Named string "string option"

definition named_arg :: "string \<Rightarrow> arg" where
  "named_arg name =
     (if name = [] \<or> hd name = CHR ''-'' \<or> hd name = CHR ''='' then BadSyntax
      else case split_eq (tl name) of (n, v) \<Rightarrow> Named (hd name # n) v)"

definition read_arg :: "string \<Rightarrow> arg" where
  "read_arg s =
     (if length s < 2 \<or> hd s \<noteq> CHR ''-'' then NoFlag
      else if s ! 1 = CHR ''-'' then (if length s = 2 then EndOfFlags else named_arg (drop 2 s))
      else named_arg (tl s))"

definition ParseBool :: "string \<Rightarrow> bool option" where
  "ParseBool s =
     (if s \<in> {''1'', ''t'', ''T'', ''TRUE'', ''true'', ''True''} then Some True
      else if s \<in> {''0'', ''f'', ''F'', ''FALSE'', ''false'', ''False''} then Some False
      else None)"

section \<open>The flags of main\<close>

datatype flag =
    StringFlag "string \<Rightarrow> flags \<Rightarrow> flags"
  | BoolFlag "bool \<Rightarrow> flags \<Rightarrow> flags"

definition declared :: "(string \<times> flag) list" where
  "declared = [
     (''metrics-bind-address'', StringFlag (\<lambda>v fl. fl\<lparr>metricsAddr := v\<rparr>)),
     (''health-probe-bind-address'', StringFlag (\<lambda>v fl. fl\<lparr>probeAddr := v\<rparr>)),
     (''leader-elect'', BoolFlag (\<lambda>b fl. fl\<lparr>enableLeaderElection := b\<rparr>)),
     (''metrics-secure'', BoolFlag (\<lambda>b fl. fl\<lparr>secureMetrics := b\<rparr>)),
     (''webhook-cert-path'', StringFlag (\<lambda>v fl. fl\<lparr>webhookCertPath := v\<rparr>)),
     (''webhook-cert-name'', StringFlag (\<lambda>v fl. fl\<lparr>webhookCertName := v\<rparr>)),
     (''webhook-cert-key'', StringFlag (\<lambda>v fl. fl\<lparr>webhookCertKey := v\<rparr>)),
     (''metrics-cert-path'', StringFlag (\<lambda>v fl. fl\<lparr>metricsCertPath := v\<rparr>)),
     (''metrics-cert-name'', StringFlag (\<lambda>v fl. fl\<lparr>metricsCertName := v\<rparr>)),
     (''metrics-cert-key'', StringFlag (\<lambda>v fl. fl\<lparr>metricsCertKey := v\<rparr>)),
     (''enable-http2'', BoolFlag (\<lambda>b fl. fl\<lparr>enableHTTP2 := b\<rparr>))]"

text \<open>
  Flags that packages declare (of zap's options, of the kubeconfig): whether one of that
  name is boolean, and whether it takes the value. A parameter; they set nothing here.
\<close>

record package_flags =
  pf_bool :: "string \<Rightarrow> bool option"
  pf_accepts :: "string \<Rightarrow> string \<Rightarrow> bool"

text \<open>Setting a flag to a value: the changed settings, or none if the value is invalid.\<close>

definition set_flag :: "flag \<Rightarrow> string \<Rightarrow> flags \<Rightarrow> flags option" where
  "set_flag f v fl = (case f of
     StringFlag g \<Rightarrow> Some (g v fl)
   | BoolFlag g \<Rightarrow> map_option (\<lambda>b. g b fl) (ParseBool v))"

definition lookup :: "package_flags \<Rightarrow> string \<Rightarrow> (bool \<times> (string \<Rightarrow> flags \<Rightarrow> flags option)) option" where
  "lookup X n = (case map_of declared n of
     Some f \<Rightarrow> Some (case f of StringFlag _ \<Rightarrow> False | BoolFlag _ \<Rightarrow> True, set_flag f)
   | None \<Rightarrow> map_option (\<lambda>b. (b, \<lambda>v fl. if pf_accepts X n v then Some fl else None)) (pf_bool X n))"

section \<open>flag.Parse\<close>

text \<open>
  The settings and the arguments that are left, or the status that the process exits with:
  0 after a call for help, 2 after an error.
\<close>

datatype parsed =
    Parsed flags "string list"
  | ExitWith int

fun Parse :: "package_flags \<Rightarrow> string list \<Rightarrow> flags \<Rightarrow> parsed" where
  "Parse X [] fl = Parsed fl []"
| "Parse X (s # args) fl = (case read_arg s of
     NoFlag \<Rightarrow> Parsed fl (s # args)
   | EndOfFlags \<Rightarrow> Parsed fl args
   | BadSyntax \<Rightarrow> ExitWith 2
   | Named n v \<Rightarrow> (case lookup X n of
       None \<Rightarrow> ExitWith (if n = ''help'' \<or> n = ''h'' then 0 else 2)
     | Some (True, put) \<Rightarrow> (case put (case v of Some x \<Rightarrow> x | None \<Rightarrow> ''true'') fl of
           None \<Rightarrow> ExitWith 2
         | Some fl' \<Rightarrow> Parse X args fl')
     | Some (False, put) \<Rightarrow> (case v of
           Some x \<Rightarrow> (case put x fl of None \<Rightarrow> ExitWith 2 | Some fl' \<Rightarrow> Parse X args fl')
         | None \<Rightarrow> (case args of
             [] \<Rightarrow> ExitWith 2
           | x # args' \<Rightarrow> (case put x fl of None \<Rightarrow> ExitWith 2 | Some fl' \<Rightarrow> Parse X args' fl')))))"

text \<open>main as a whole, from the arguments of the process.\<close>

definition main_of_args ::
  "package_flags \<Rightarrow> string list \<Rightarrow> (string \<Rightarrow> string) \<Rightarrow> boot_answers \<Rightarrow> boot_action list \<times> boot_end" where
  "main_of_args X args getenv a = (case Parse X args default_flags of
     ExitWith c \<Rightarrow> ([], Exited c)
   | Parsed fl rest \<Rightarrow> main_go fl getenv a)"

section \<open>Writing a command line\<close>

definition write_bool :: "bool \<Rightarrow> string" where
  "write_bool b = (if b then ''true'' else ''false'')"

definition write_flag :: "string \<times> string \<Rightarrow> string" where
  "write_flag nv = ''--'' @ fst nv @ ''='' @ snd nv"

definition flag_values :: "flags \<Rightarrow> (string \<times> string) list" where
  "flag_values fl = [
     (''metrics-bind-address'', metricsAddr fl), (''health-probe-bind-address'', probeAddr fl),
     (''leader-elect'', write_bool (enableLeaderElection fl)), (''metrics-secure'', write_bool (secureMetrics fl)),
     (''webhook-cert-path'', webhookCertPath fl), (''webhook-cert-name'', webhookCertName fl),
     (''webhook-cert-key'', webhookCertKey fl), (''metrics-cert-path'', metricsCertPath fl),
     (''metrics-cert-name'', metricsCertName fl), (''metrics-cert-key'', metricsCertKey fl),
     (''enable-http2'', write_bool (enableHTTP2 fl))]"

definition write_flags :: "flags \<Rightarrow> string list" where
  "write_flags fl = map write_flag (flag_values fl)"

text \<open>What is written for one flag is read as it; setting a declared flag to a written value.\<close>

lemma split_eq_append: "CHR ''='' \<notin> set n \<Longrightarrow> split_eq (n @ ''='' @ v) = (n, Some v)"
  by (induction n) auto

lemma read_written:
  assumes "CHR ''='' \<notin> set (c # n)" and "c \<noteq> CHR ''-''"
  shows "read_arg (write_flag (c # n, v)) = Named (c # n) (Some v)"
  using assms by (auto simp: read_arg_def write_flag_def named_arg_def split_eq_append[simplified])

lemma ParseBool_written [simp]: "ParseBool (write_bool b) = Some b"
  by (cases b) (simp_all add: ParseBool_def write_bool_def)

text \<open>Names that main declares are plain: no equals sign, no leading dash.\<close>

definition plain_name :: "string \<Rightarrow> bool" where
  "plain_name n \<longleftrightarrow> n \<noteq> [] \<and> hd n \<noteq> CHR ''-'' \<and> CHR ''='' \<notin> set n"

lemma read_plain: "plain_name n \<Longrightarrow> read_arg (write_flag (n, v)) = Named n (Some v)"
  using read_written[of "hd n" "tl n" v] by (simp add: plain_name_def)

lemma Parse_string:
  assumes "map_of declared n = Some (StringFlag g)" and "plain_name n" and "Parse X args (g v fl) = r"
  shows "Parse X (write_flag (n, v) # args) fl = r"
  using assms by (simp add: read_plain lookup_def set_flag_def)

lemma Parse_bool:
  assumes "map_of declared n = Some (BoolFlag g)" and "plain_name n" and "Parse X args (g b fl) = r"
  shows "Parse X (write_flag (n, write_bool b) # args) fl = r"
  using assms by (simp add: read_plain lookup_def set_flag_def)

lemma declared_plain: "list_all (\<lambda>(n, f). plain_name n) declared"
  by (simp add: declared_def plain_name_def)

lemma declared_name: "map_of declared n = Some f \<Longrightarrow> plain_name n"
  using declared_plain by (auto simp: list_all_iff dest: map_of_SomeD)

lemmas Parse_declared = Parse_bool[OF _ declared_name] Parse_string[OF _ declared_name]

lemma map_of_declared:
  "map_of declared ''metrics-bind-address'' = Some (StringFlag (\<lambda>v fl. fl\<lparr>metricsAddr := v\<rparr>))"
  "map_of declared ''health-probe-bind-address'' = Some (StringFlag (\<lambda>v fl. fl\<lparr>probeAddr := v\<rparr>))"
  "map_of declared ''leader-elect'' = Some (BoolFlag (\<lambda>b fl. fl\<lparr>enableLeaderElection := b\<rparr>))"
  "map_of declared ''metrics-secure'' = Some (BoolFlag (\<lambda>b fl. fl\<lparr>secureMetrics := b\<rparr>))"
  "map_of declared ''webhook-cert-path'' = Some (StringFlag (\<lambda>v fl. fl\<lparr>webhookCertPath := v\<rparr>))"
  "map_of declared ''webhook-cert-name'' = Some (StringFlag (\<lambda>v fl. fl\<lparr>webhookCertName := v\<rparr>))"
  "map_of declared ''webhook-cert-key'' = Some (StringFlag (\<lambda>v fl. fl\<lparr>webhookCertKey := v\<rparr>))"
  "map_of declared ''metrics-cert-path'' = Some (StringFlag (\<lambda>v fl. fl\<lparr>metricsCertPath := v\<rparr>))"
  "map_of declared ''metrics-cert-name'' = Some (StringFlag (\<lambda>v fl. fl\<lparr>metricsCertName := v\<rparr>))"
  "map_of declared ''metrics-cert-key'' = Some (StringFlag (\<lambda>v fl. fl\<lparr>metricsCertKey := v\<rparr>))"
  "map_of declared ''enable-http2'' = Some (BoolFlag (\<lambda>b fl. fl\<lparr>enableHTTP2 := b\<rparr>))"
  by (simp_all add: declared_def)

lemma written_back: "Parse X (write_flags fl @ args) fl0 = Parse X args fl"
  unfolding write_flags_def flag_values_def list.map append_Cons append_Nil
  by (rule Parse_declared map_of_declared)+ (cases fl, cases fl0, simp)

section \<open>Properties\<close>

text \<open>
  C39. The command line loses nothing: whatever settings are written as arguments, whatever
  packages declare, parsing them gives these settings back, over any earlier ones, and
  leaves the arguments after two dashes; so every configuration of main can be asked for.
  An argument with an unknown name ends the process, before it has done anything, with
  status 2, or 0 for help.
\<close>

theorem command_line_roundtrip:
  "Parse X (write_flags fl @ ''--'' # args) fl0 = Parsed fl args \<and>
   main_of_args X (write_flags fl) getenv a = main_go fl getenv a \<and>
   (if lookup X n = None \<and> plain_name n
    then main_of_args X (write_flags fl @ write_flag (n, v) # args) getenv a =
      ([], Exited (if n = ''help'' \<or> n = ''h'' then 0 else 2)) else True)"
proof -
  have e: "Parse X (''--'' # args) fl = Parsed fl args" by (simp add: read_arg_def)
  have "Parse X (write_flags fl) default_flags = Parsed fl []"
    using written_back[of X fl "[]" default_flags] by simp
  then show ?thesis
    by (simp add: written_back e main_of_args_def read_plain del: Parse.simps(2)) (simp add: read_plain)
qed

end
