(* ===== verification/Gitea_Wait.thy ===== *)
theory Gitea_Wait imports Sample_Server begin

text \<open>
  WaitForInitialization of giteaclient.go: a loop that polls once a second. The client of
  an instance is set, if at all, before the instance is published, so it does not change
  while somebody waits; the loop may run forever, and None says that it does.
\<close>

section \<open>The loop\<close>

partial_function (option) wait_loop ::
  "('e, 'q, 'y) mgmt_ext_scheme \<Rightarrow> gc \<Rightarrow> int \<Rightarrow> int \<Rightarrow> 'e \<Rightarrow> (string option \<times> 'e) option" where
  "wait_loop E r start timeout e =
     (if IsInitialized r then Some (None, e)
      else let (now, e1) = Now E e
           in if timeout < time_sub now start
              then Some (Some ''timeout waiting for gitea client initialization'', e1)
              else (case SelectDone E e1 of
                 (Some err, e2) \<Rightarrow> Some (Some err, e2)
               | (None, e2) \<Rightarrow> wait_loop E r start timeout e2))"

definition WaitForInitialization ::
  "('e, 'q, 'y) mgmt_ext_scheme \<Rightarrow> gc \<Rightarrow> int \<Rightarrow> 'e \<Rightarrow> (string option \<times> 'e) option" where
  "WaitForInitialization E r timeout e = (let (start, e1) = Now E e in wait_loop E r start timeout e1)"

section \<open>Lemmas\<close>

text \<open>
  The clock of an environment: Now reads it, and waiting for a second on a context that is
  not cancelled moves it by at least one.
\<close>

definition clocked :: "('e, 'q, 'y) mgmt_ext_scheme \<Rightarrow> ('e \<Rightarrow> int) \<Rightarrow> bool" where
  "clocked E clock \<longleftrightarrow> (\<forall>e. fst (Now E e) = clock e \<and> clock e \<le> clock (snd (Now E e)) \<and>
     clock e + (if fst (SelectDone E e) = None then second else 0) \<le> clock (snd (SelectDone E e)))"

lemma clockedD:
  assumes "clocked E clock"
  shows "fst (Now E e) = clock e" "clock e \<le> clock (snd (Now E e))"
    and "fst (SelectDone E e) = None \<Longrightarrow> clock e + second \<le> clock (snd (SelectDone E e))"
  using assms[unfolded clocked_def, rule_format, of e] by auto

lemma second_pos: "0 < second"
  by (simp add: second_def)

lemma wait_loop_returns:
  assumes "clocked E clock" and "timeout < 2 ^ 63 - 1"
  shows "\<exists>res e'. wait_loop E r start timeout e = Some (res, e') \<and> (res = None) = IsInitialized r"
proof (induction "nat (timeout + 1 - (clock e - start))" arbitrary: e rule: less_induct)
  case less
  let ?e1 = "snd (Now E e)" and ?e2 = "snd (SelectDone E (snd (Now E e)))"
  show ?case
  proof (cases "IsInitialized r \<or> timeout < time_sub (clock e) start \<or> fst (SelectDone E ?e1) \<noteq> None")
    case True
    then show ?thesis
      using clockedD(1)[OF assms(1), of e] by (subst wait_loop.simps) (auto simp: case_prod_beta Let_def split: option.split)
  next
    case False
    then have "clock e - start \<le> timeout" using assms(2) by (auto simp: time_sub_def)
    moreover have "clock e + second \<le> clock ?e2"
      using clockedD(2)[OF assms(1), of e] clockedD(3)[OF assms(1), of ?e1] False by simp
    ultimately have "nat (timeout + 1 - (clock ?e2 - start)) < nat (timeout + 1 - (clock e - start))"
      using second_pos by linarith
    from less[OF this] False clockedD(1)[OF assms(1), of e] show ?thesis
      by (subst wait_loop.simps) (auto simp: case_prod_beta Let_def split: option.split)
  qed
qed

section \<open>Properties\<close>

text \<open>
  C35. Waiting ends: with a clock that a second's wait moves by a second, and a timeout
  below the largest duration, WaitForInitialization returns, and it returns without an
  error exactly if the instance was initialized all along; on one that was not, it can
  only run into the timeout or the context's end.
\<close>

theorem waiting_ends:
  assumes "clocked E clock" and "timeout < 2 ^ 63 - 1"
  shows "\<exists>res e'. WaitForInitialization E r timeout e = Some (res, e') \<and> (res = None) = IsInitialized r"
  unfolding WaitForInitialization_def case_prod_beta Let_def by (rule wait_loop_returns[OF assms])

theorem waiting_ends_witness:
  "\<exists>res e'. WaitForInitialization sample_mgmt \<lparr>giteaClient = None\<rparr> (5 * second) (env sample_server_state) =
     Some (res, e') \<and> res \<noteq> None"
proof -
  have "clocked sample_mgmt se_now"
    by (simp add: clocked_def sample_mgmt_def)
  moreover have "5 * second < 2 ^ 63 - 1" by (simp add: second_def)
  ultimately show ?thesis
    using waiting_ends[of sample_mgmt se_now "5 * second" "\<lparr>giteaClient = None\<rparr>" "env sample_server_state"]
    by (auto simp: IsInitialized_def)
qed

end
