(* ===== verification/Quota_Upload.thy ===== *)
theory Quota_Upload imports Git_Access "HOL-Library.Char_ord" "HOL-Library.List_Lexorder"
  "HOL-Library.Product_Lexorder" begin

text \<open>
  restapi/helper.go: creating a file with a NamespaceQuota in a Gitea repository. The
  standard base64 encoding and the layout of the timestamp in the file name are written
  out; marshalling and the Gitea client are parameters.
\<close>

section \<open>Package base64\<close>

definition b64_alphabet :: string where
  "b64_alphabet = ''ABCDEFGHIJKLMNOPQRSTUVWXYZabcdefghijklmnopqrstuvwxyz0123456789+/''"

definition byte :: "char \<Rightarrow> nat" where
  "byte c = of_char c"

text \<open>The character for the six bits of n that start at bit k.\<close>

definition b64_digit :: "nat \<Rightarrow> nat \<Rightarrow> char" where
  "b64_digit n k = b64_alphabet ! (n div 2 ^ k mod 64)"

fun EncodeToString :: "string \<Rightarrow> string" where
  "EncodeToString [] = []"
| "EncodeToString [a] =
     (let n = byte a * 65536 in [b64_digit n 18, b64_digit n 12, CHR ''='', CHR ''=''])"
| "EncodeToString [a, b] =
     (let n = byte a * 65536 + byte b * 256
      in [b64_digit n 18, b64_digit n 12, b64_digit n 6, CHR ''=''])"
| "EncodeToString (a # b # c # r) =
     (let n = byte a * 65536 + byte b * 256 + byte c
      in [b64_digit n 18, b64_digit n 12, b64_digit n 6, b64_digit n 0] @ EncodeToString r)"

text \<open>What a reader of the encoding does, by the alphabet and the padding.\<close>

definition b64_value :: "char \<Rightarrow> nat option" where
  "b64_value c = (let i = length (takeWhile (\<lambda>d. d \<noteq> c) b64_alphabet)
     in if i < 64 then Some i else None)"

definition group_value :: "char \<Rightarrow> char \<Rightarrow> char \<Rightarrow> char \<Rightarrow> nat option" where
  "group_value w x y z = (case (b64_value w, b64_value x, b64_value y, b64_value z) of
     (Some i, Some j, Some k, Some l) \<Rightarrow> Some (i * 262144 + j * 4096 + k * 64 + l)
   | _ \<Rightarrow> None)"

fun DecodeString :: "string \<Rightarrow> string option" where
  "DecodeString [] = Some []"
| "DecodeString (w # x # y # z # r) =
     (if y = CHR ''='' \<and> z = CHR ''='' \<and> r = []
      then map_option (\<lambda>n. [char_of (n div 65536)]) (group_value w x CHR ''A'' CHR ''A'')
      else if z = CHR ''='' \<and> r = []
      then map_option (\<lambda>n. [char_of (n div 65536), char_of (n div 256)]) (group_value w x y CHR ''A'')
      else case (group_value w x y z, DecodeString r) of
        (Some n, Some s) \<Rightarrow> Some (char_of (n div 65536) # char_of (n div 256) # char_of n # s)
      | _ \<Rightarrow> None)"
| "DecodeString _ = None"

section \<open>The timestamp\<close>

text \<open>The local time, to the second, as the layout 20060102-150405 shows it.\<close>

record civil =
  year :: nat
  month :: nat
  day :: nat
  hour :: nat
  minute_of :: nat
  second_of :: nat

text \<open>Times are ordered as their fields are, from the year down.\<close>

definition civil_fields :: "('a::linorder) civil_scheme \<Rightarrow> nat \<times> nat \<times> nat \<times> nat \<times> nat \<times> nat \<times> 'a" where
  "civil_fields t = (year t, month t, day t, hour t, minute_of t, second_of t, civil.more t)"

lemma civil_fields_eq: "civil_fields t = civil_fields u \<longleftrightarrow> t = u"
  by (auto simp: civil_fields_def)

instantiation civil_ext :: (linorder) linorder
begin

definition less_civil_ext :: "('a::linorder) civil_scheme \<Rightarrow> 'a civil_scheme \<Rightarrow> bool" where
  "less_civil_ext t u \<longleftrightarrow> civil_fields t < civil_fields u"

definition less_eq_civil_ext :: "('a::linorder) civil_scheme \<Rightarrow> 'a civil_scheme \<Rightarrow> bool" where
  "less_eq_civil_ext t u \<longleftrightarrow> civil_fields t \<le> civil_fields u"

instance
  by standard (auto simp: less_civil_ext_def less_eq_civil_ext_def civil_fields_eq dest: order.antisym)

end

definition digit :: "nat \<Rightarrow> char" where
  "digit d = char_of (48 + d mod 10)"

definition pad2 :: "nat \<Rightarrow> string" where
  "pad2 n = [digit (n div 10), digit n]"

definition pad4 :: "nat \<Rightarrow> string" where
  "pad4 n = pad2 (n div 100) @ pad2 (n mod 100)"

definition Format :: "civil \<Rightarrow> string" where
  "Format t = pad4 (year t) @ pad2 (month t) @ pad2 (day t) @ ''-'' @
     pad2 (hour t) @ pad2 (minute_of t) @ pad2 (second_of t)"

text \<open>Years of four digits, months from 1, days of the Gregorian calendar at most 31.\<close>

definition valid_civil :: "civil \<Rightarrow> bool" where
  "valid_civil t \<longleftrightarrow> year t < 10000 \<and> 1 \<le> month t \<and> month t \<le> 12 \<and> 1 \<le> day t \<and> day t \<le> 31 \<and>
     hour t < 24 \<and> minute_of t < 60 \<and> second_of t < 60"

section \<open>Creating the file\<close>

record ('e, 'q) upload_ext = "('e, 'q) mgmt_ext" +
  MarshalNSQ :: "namespace_quota \<Rightarrow> string + string"
  LocalNow :: "'e \<Rightarrow> civil \<times> 'e"
  CreateFile :: "gitea_client \<Rightarrow> string \<Rightarrow> string \<Rightarrow> string \<Rightarrow> string \<Rightarrow> string \<Rightarrow> string \<Rightarrow> 'e \<Rightarrow> string option \<times> 'e"

definition quota_filename :: "string \<Rightarrow> civil \<Rightarrow> string" where
  "quota_filename folder t = folder @ ''/namespace-quota-'' @ Format t @ ''.yaml''"

definition CreateAndPushNamespaceQuotaCR ::
  "('e, 'q, 'y) upload_ext_scheme \<Rightarrow> gitea_client \<Rightarrow> string \<Rightarrow> string \<Rightarrow> string \<Rightarrow> namespace_quota \<Rightarrow>
   (('e, 'q, 'z) world_scheme, string + string) state" where
  "CreateAndPushNamespaceQuotaCR E client username repoName folder nsq =
     (case MarshalNSQ E nsq of
        Inl e \<Rightarrow> State_Monad.return (Inl e)
      | Inr yamlData \<Rightarrow> do {
          t \<leftarrow> ask (LocalNow E);
          (let filename = quota_filename folder t;
               message = ''NamespaceQuota CR: '' @ Namespace (nsq_Meta nsq) @ ''/'' @ Name (nsq_Meta nsq);
               encodedContent = EncodeToString yamlData
           in do {
             emit (FileCreated username repoName filename encodedContent message);
             r \<leftarrow> ask (CreateFile E client username repoName filename encodedContent message ''main'');
             State_Monad.return (case r of Some e \<Rightarrow> Inl e | None \<Rightarrow> Inr filename)
           })
        })"

section \<open>Lemmas\<close>

lemma byte_less [simp]: "byte c < 256"
  unfolding byte_def by (metis of_char_mod_256 mod_less_divisor zero_less_numeral)

lemma char_of_byte [simp]: "char_of (byte c) = c"
  by (simp add: byte_def)

lemma b64_value_nth:
  assumes "i < 64" shows "b64_value (b64_alphabet ! i) = Some i"
proof -
  have "\<forall>i \<in> set [0..<64]. b64_value (b64_alphabet ! i) = Some i"
    by code_simp
  with assms show ?thesis by simp
qed

lemma b64_value_digit [simp]: "b64_value (b64_digit n k) = Some (n div 2 ^ k mod 64)"
  by (simp add: b64_digit_def b64_value_nth)

lemma digit_not_pad [simp]: "b64_digit n k \<noteq> CHR ''=''"
proof
  assume "b64_digit n k = CHR ''=''"
  then have "b64_value CHR ''='' = Some (n div 2 ^ k mod 64)" by (metis b64_value_digit)
  moreover have "b64_value CHR ''='' = None" by code_simp
  ultimately show False by simp
qed

lemma b64_value_A [simp]: "b64_value CHR ''A'' = Some 0"
  by code_simp

text \<open>The four sixes of a group give the group back.\<close>

lemma sixes:
  assumes "(n::nat) < 16777216"
  shows "n div 262144 * 262144 + (n div 4096 mod 64) * 4096 + (n div 64 mod 64) * 64 + n mod 64 = n"
    and "n div 262144 mod 64 = n div 262144"
proof -
  have "n div 64 div 64 = n div 4096" "n div 4096 div 64 = n div 262144"
    by (simp_all add: div_mult2_eq[symmetric])
  moreover have "n = n div 64 * 64 + n mod 64" by simp
  moreover have "n div 64 = n div 64 div 64 * 64 + n div 64 mod 64" by (rule div_mult_mod_eq[symmetric])
  moreover have "n div 4096 = n div 4096 div 64 * 64 + n div 4096 mod 64" by (rule div_mult_mod_eq[symmetric])
  ultimately show "n div 262144 * 262144 + (n div 4096 mod 64) * 4096 + (n div 64 mod 64) * 64 + n mod 64 = n"
    by linarith
  show "n div 262144 mod 64 = n div 262144"
    using assms by (simp add: div_less_iff_less_mult)
qed

lemma group_value_digits:
  assumes "n < 16777216"
  shows "group_value (b64_digit n 18) (b64_digit n 12) (b64_digit n 6) (b64_digit n 0) = Some n"
    and "n mod 64 = 0 \<Longrightarrow> group_value (b64_digit n 18) (b64_digit n 12) (b64_digit n 6) CHR ''A'' = Some n"
    and "n mod 4096 = 0 \<Longrightarrow> group_value (b64_digit n 18) (b64_digit n 12) CHR ''A'' CHR ''A'' = Some n"
proof -
  show "group_value (b64_digit n 18) (b64_digit n 12) (b64_digit n 6) (b64_digit n 0) = Some n"
    using sixes[OF assms] by (simp add: group_value_def)
  show "group_value (b64_digit n 18) (b64_digit n 12) (b64_digit n 6) CHR ''A'' = Some n" if "n mod 64 = 0"
    using sixes[OF assms] that by (simp add: group_value_def)
  show "group_value (b64_digit n 18) (b64_digit n 12) CHR ''A'' CHR ''A'' = Some n" if m: "n mod 4096 = 0"
  proof -
    from m obtain k where "n = 4096 * k" by (meson dvd_eq_mod_eq_0 dvd_def)
    then have "n div 64 mod 64 = 0" "n mod 64 = 0" by simp_all
    then show ?thesis using sixes[OF assms] by (simp add: group_value_def)
  qed
qed

lemma three_bytes:
  assumes "a < 256" "b < 256" "c < 256"
  shows "(a * 65536 + b * 256 + c) div 65536 = (a::nat)"
    and "char_of ((a * 65536 + b * 256 + c) div 256) = (char_of b :: char)"
    and "char_of (a * 65536 + b * 256 + c) = (char_of c :: char)"
    and "a * 65536 + b * 256 + c < 16777216"
proof -
  show "(a * 65536 + b * 256 + c) div 65536 = a" using assms by simp
  have "(a * 65536 + b * 256 + c) div 256 = a * 256 + b" using assms by simp
  moreover have "char_of (a * 256 + b) = (char_of b :: char)"
    by (simp add: char_of_eq_iff take_bit_eq_mod)
  ultimately show "char_of ((a * 65536 + b * 256 + c) div 256) = (char_of b :: char)" by simp
  have "a * 65536 + b * 256 + c = c + 256 * (a * 256 + b)" by simp
  then have "(a * 65536 + b * 256 + c) mod 256 = c mod 256" by (metis mod_mult_self2)
  then show "char_of (a * 65536 + b * 256 + c) = (char_of c :: char)"
    by (simp add: char_of_eq_iff take_bit_eq_mod)
  show "a * 65536 + b * 256 + c < 16777216" using assms by simp
qed

lemma base64_roundtrip: "DecodeString (EncodeToString s) = Some s"
proof (induction s rule: EncodeToString.induct)
  case (2 a)
  then show ?case
    using group_value_digits(3)[of "byte a * 65536"] three_bytes[of "byte a" 0 0] by (simp add: Let_def)
next
  case (3 a b)
  then show ?case
    using group_value_digits(2)[of "byte a * 65536 + byte b * 256"] three_bytes[of "byte a" "byte b" 0]
    by (simp add: Let_def)
next
  case (4 a b c r)
  then show ?case
    using group_value_digits(1)[of "byte a * 65536 + byte b * 256 + byte c"]
      three_bytes[of "byte a" "byte b" "byte c"]
    by (simp add: Let_def)
qed simp

lemma digit_eq [simp]: "digit m = digit n \<longleftrightarrow> m mod 10 = n mod 10"
proof -
  have "digit m = digit n \<longleftrightarrow> (of_char (digit m) :: nat) = of_char (digit n)" by simp
  then show ?thesis by (simp add: digit_def take_bit_eq_mod)
qed

lemma pad2_eq: "m < 100 \<Longrightarrow> n < 100 \<Longrightarrow> pad2 m = pad2 n \<longleftrightarrow> m = n"
  by (auto simp: pad2_def) (metis div_less_iff_less_mult div_mult_mod_eq mod_less mult_numeral_1_right numeral_times_numeral zero_less_numeral)

lemma pad2_length [simp]: "length (pad2 n) = 2"
  by (simp add: pad2_def)

lemma pad4_eq: "m < 10000 \<Longrightarrow> n < 10000 \<Longrightarrow> pad4 m = pad4 n \<longleftrightarrow> m = n"
  by (auto simp: pad4_def pad2_eq div_less_iff_less_mult) (metis div_mult_mod_eq)

lemma pad4_length [simp]: "length (pad4 n) = 4"
  by (simp add: pad4_def)

lemma Format_eq:
  assumes "valid_civil t" "valid_civil u"
  shows "Format t = Format u \<longleftrightarrow> t = u"
proof
  assume "Format t = Format u"
  then have "year t = year u" "month t = month u" "day t = day u" "hour t = hour u"
    "minute_of t = minute_of u" "second_of t = second_of u"
    using assms by (auto simp: Format_def valid_civil_def pad4_eq pad2_eq)
  then show "t = u" by simp
qed simp

text \<open>Digits of equal places are ordered as the numbers are.\<close>

lemma digit_less [simp]: "digit m < digit n \<longleftrightarrow> m mod 10 < n mod 10"
  by (simp add: digit_def less_char_def take_bit_eq_mod)

lemma append_less:
  "length xs = length ys \<Longrightarrow> xs @ u < ys @ v \<longleftrightarrow> xs < ys \<or> xs = ys \<and> u < (v :: ('a::linorder) list)"
  by (induction xs ys rule: list_induct2) auto

lemma places_less: "(m::nat) div k < n div k \<or> m div k = n div k \<and> m mod k < n mod k \<longleftrightarrow> m < n"
proof
  assume "m div k < n div k \<or> m div k = n div k \<and> m mod k < n mod k"
  then show "m < n"
  proof
    assume "m div k < n div k"
    then show ?thesis using div_le_mono[of n m k] by (meson not_le)
  next
    assume "m div k = n div k \<and> m mod k < n mod k"
    then show ?thesis by (metis div_mult_mod_eq nat_add_left_cancel_less)
  qed
next
  assume less: "m < n"
  then have "m div k \<le> n div k" by (simp add: div_le_mono)
  moreover have "m mod k < n mod k" if "m div k = n div k"
    using less that by (metis div_mult_mod_eq nat_add_left_cancel_less)
  ultimately show "m div k < n div k \<or> m div k = n div k \<and> m mod k < n mod k" by linarith
qed

lemma pad2_less: "m < 100 \<Longrightarrow> n < 100 \<Longrightarrow> pad2 m < pad2 n \<longleftrightarrow> m < n"
  using places_less[of m 10 n] by (simp add: pad2_def div_less_iff_less_mult)

lemma pad4_less: "m < 10000 \<Longrightarrow> n < 10000 \<Longrightarrow> pad4 m < pad4 n \<longleftrightarrow> m < n"
  using places_less[of m 100 n] by (simp add: pad4_def append_less pad2_less pad2_eq div_less_iff_less_mult)

lemma Format_length [simp]: "length (Format t) = 15"
  by (simp add: Format_def)

lemma Format_less:
  assumes "valid_civil t" "valid_civil u"
  shows "Format t < Format u \<longleftrightarrow> t < u"
  using assms
  by (simp add: Format_def valid_civil_def append_less pad4_less pad4_eq pad2_less pad2_eq less_civil_ext_def
      civil_fields_def less_prod_def' del: less_prod_simp)

section \<open>Properties\<close>


text \<open>
  Uploads are listed in the order in which they were made: of two files in a folder, the name
  of the one made at an earlier second comes first in the order of bytes, and two names are
  the same exactly for the same second, since nothing else distinguishes them.
\<close>

theorem upload_names_in_time_order:
  assumes "valid_civil t" and "valid_civil u"
  shows "(quota_filename folder t < quota_filename folder u \<longleftrightarrow> t < u) \<and>
    (quota_filename folder t = quota_filename folder u \<longleftrightarrow> t = u)"
  using Format_less[OF assms] Format_eq[OF assms] by (auto simp: quota_filename_def append_less)

definition noon :: civil where
  "noon = \<lparr>year = 2026, month = 5, day = 11, hour = 12, minute_of = 0, second_of = 0\<rparr>"

theorem upload_names_in_time_order_witness:
  "quota_filename ''cr'' noon < quota_filename ''cr'' (noon\<lparr>second_of := 1\<rparr>) \<and>
   quota_filename ''cr'' noon = ''cr/namespace-quota-20260511-120000.yaml''"
proof -
  have "valid_civil noon" "valid_civil (noon\<lparr>second_of := 1\<rparr>)" "noon < noon\<lparr>second_of := 1\<rparr>"
    by (simp_all add: valid_civil_def noon_def less_civil_ext_def civil_fields_def)
  moreover have "quota_filename ''cr'' noon = ''cr/namespace-quota-20260511-120000.yaml''" by code_simp
  ultimately show ?thesis using upload_names_in_time_order[of noon "noon\<lparr>second_of := 1\<rparr>" "''cr''"] by blast
qed

end
