(* ===== verification/Deep_Copy.thy ===== *)
theory Deep_Copy imports Api_Types begin

text \<open>
  api/v1/zz_generated.deepcopy.go. Everywhere else the API objects are values; here they
  are what Go has, structs that refer to maps, slices and times in a store, because what a
  deep copy is for is that the copy and the original share nothing.
\<close>

section \<open>Objects in a store\<close>

text \<open>
  A reference is an address or nil. TypeMeta is fixed by the type; of ListMeta the two
  strings are kept (its RemainingItemCount, a pointer that a partial list has, is left out).
\<close>

type_synonym ref = "nat option"

record meta_m =
  mm_Name :: string
  mm_Namespace :: string
  mm_Labels :: ref
  mm_Annotations :: ref
  mm_Generation :: int

record quota_scaling_m =
  qm_Enabled :: bool
  qm_MinQuota :: ref
  qm_MaxQuota :: ref
  qm_ScaleStep :: ref
  qm_TargetQuotaUtilization :: int
  qm_Mode :: string

record api_resource_quota =
  arq_CPU :: string
  arq_Memory :: string

record behavior_m =
  bm_QuotaScaling :: quota_scaling_m
  bm_NodeScaling :: node_scaling

record spec_m =
  sm_ClusterRef :: cluster_ref
  sm_AppliedQuotaRef :: applied_quota_ref
  sm_Behavior :: behavior_m

record status_m =
  tm_Conditions :: ref
  tm_LastUpdated :: ref

record nsq_m =
  nm_ObjectMeta :: meta_m
  nm_Spec :: spec_m
  nm_Status :: status_m

record nsq_list_m =
  lm_ResourceVersion :: string
  lm_Continue :: string
  lm_Items :: ref

text \<open>The store: what is at each address below \<open>next_addr\<close>; each address is used for one kind.\<close>

record heap =
  next_addr :: nat
  maps_at :: "nat \<Rightarrow> (string \<rightharpoonup> string)"
  conditions_at :: "nat \<Rightarrow> condition list"
  time_at :: "nat \<Rightarrow> int"
  items_at :: "nat \<Rightarrow> nsq_m list"

definition set_map :: "nat \<Rightarrow> (string \<rightharpoonup> string) \<Rightarrow> heap \<Rightarrow> heap" where
  "set_map b m h = h\<lparr>maps_at := (maps_at h)(b := m)\<rparr>"

definition set_conditions :: "nat \<Rightarrow> condition list \<Rightarrow> heap \<Rightarrow> heap" where
  "set_conditions b cs h = h\<lparr>conditions_at := (conditions_at h)(b := cs)\<rparr>"

definition set_items :: "nat \<Rightarrow> nsq_m list \<Rightarrow> heap \<Rightarrow> heap" where
  "set_items b xs h = h\<lparr>items_at := (items_at h)(b := xs)\<rparr>"

text \<open>make and new: the next address.\<close>

definition fresh :: "(heap, nat) state" where
  "fresh = State (\<lambda>h. (next_addr h, h\<lparr>next_addr := next_addr h + 1\<rparr>))"

text \<open>The library's copiers, of k8s.io/apimachinery: parameters.\<close>

record metav1 =
  ObjectMeta_DeepCopyInto :: "meta_m \<Rightarrow> (heap, meta_m) state"
  Condition_DeepCopyInto :: "condition \<Rightarrow> (heap, condition) state"
  Time_DeepCopy :: "nat \<Rightarrow> (heap, nat) state"

section \<open>The functions\<close>

text \<open>The test for nil that stands before every copy of something a reference leads to.\<close>

definition if_not_nil :: "('x \<Rightarrow> (heap, 'y) state) \<Rightarrow> 'x option \<Rightarrow> (heap, 'y option) state" where
  "if_not_nil f r = (case r of
     None \<Rightarrow> State_Monad.return None
   | Some x \<Rightarrow> do { y \<leftarrow> f x; State_Monad.return (Some y) })"

text \<open>A map: a new one, to which the range over the old adds every key and value.\<close>

definition copy_map :: "nat \<Rightarrow> (heap, nat) state" where
  "copy_map a = do {
     h \<leftarrow> State_Monad.get;
     b \<leftarrow> fresh;
     State_Monad.update (set_map b (maps_at h a));
     State_Monad.return b
   }"

text \<open>A slice: a new one of the same length, each element copied into its place.\<close>

primrec copy_each :: "('x \<Rightarrow> (heap, 'x) state) \<Rightarrow> 'x list \<Rightarrow> (heap, 'x list) state" where
  "copy_each cp [] = State_Monad.return []"
| "copy_each cp (x # xs) = do { y \<leftarrow> cp x; ys \<leftarrow> copy_each cp xs; State_Monad.return (y # ys) }"

definition copy_slice ::
  "(heap \<Rightarrow> nat \<Rightarrow> 'x list) \<Rightarrow> (nat \<Rightarrow> 'x list \<Rightarrow> heap \<Rightarrow> heap) \<Rightarrow> ('x \<Rightarrow> (heap, 'x) state) \<Rightarrow>
    nat \<Rightarrow> (heap, nat) state" where
  "copy_slice get_at set_at cp a = do {
     h \<leftarrow> State_Monad.get;
     b \<leftarrow> fresh;
     ys \<leftarrow> copy_each cp (get_at h a);
     State_Monad.update (set_at b ys);
     State_Monad.return b
   }"

text \<open>The types without references: an assignment of the whole struct.\<close>

definition AppliedQuotaRef_DeepCopyInto :: "applied_quota_ref \<Rightarrow> (heap, applied_quota_ref) state" where
  "AppliedQuotaRef_DeepCopyInto inp = State_Monad.return inp"

definition ManagementCluster_DeepCopyInto :: "management_cluster \<Rightarrow> (heap, management_cluster) state" where
  "ManagementCluster_DeepCopyInto inp = State_Monad.return inp"

definition ClusterRef_DeepCopyInto :: "cluster_ref \<Rightarrow> (heap, cluster_ref) state" where
  "ClusterRef_DeepCopyInto inp = State_Monad.return (inp\<lparr>ManagementCluster := ManagementCluster inp\<rparr>)"

definition NodeScaling_DeepCopyInto :: "node_scaling \<Rightarrow> (heap, node_scaling) state" where
  "NodeScaling_DeepCopyInto inp = State_Monad.return inp"

definition ResourceQuota_DeepCopyInto :: "api_resource_quota \<Rightarrow> (heap, api_resource_quota) state" where
  "ResourceQuota_DeepCopyInto inp = State_Monad.return inp"

definition QuotaScaling_DeepCopyInto :: "quota_scaling_m \<Rightarrow> (heap, quota_scaling_m) state" where
  "QuotaScaling_DeepCopyInto inp = do {
     mi \<leftarrow> if_not_nil copy_map (qm_MinQuota inp);
     ma \<leftarrow> if_not_nil copy_map (qm_MaxQuota inp);
     st \<leftarrow> if_not_nil copy_map (qm_ScaleStep inp);
     State_Monad.return (inp\<lparr>qm_MinQuota := mi, qm_MaxQuota := ma, qm_ScaleStep := st\<rparr>)
   }"

definition Behavior_DeepCopyInto :: "behavior_m \<Rightarrow> (heap, behavior_m) state" where
  "Behavior_DeepCopyInto inp = do {
     q \<leftarrow> QuotaScaling_DeepCopyInto (bm_QuotaScaling inp);
     State_Monad.return (inp\<lparr>bm_QuotaScaling := q, bm_NodeScaling := bm_NodeScaling inp\<rparr>)
   }"

definition NamespaceQuotaSpec_DeepCopyInto :: "spec_m \<Rightarrow> (heap, spec_m) state" where
  "NamespaceQuotaSpec_DeepCopyInto inp = do {
     b \<leftarrow> Behavior_DeepCopyInto (sm_Behavior inp);
     State_Monad.return (inp\<lparr>sm_ClusterRef := sm_ClusterRef inp, sm_AppliedQuotaRef := sm_AppliedQuotaRef inp,
       sm_Behavior := b\<rparr>)
   }"

definition NamespaceQuotaStatus_DeepCopyInto :: "metav1 \<Rightarrow> status_m \<Rightarrow> (heap, status_m) state" where
  "NamespaceQuotaStatus_DeepCopyInto lib inp = do {
     c \<leftarrow> if_not_nil (copy_slice conditions_at set_conditions (Condition_DeepCopyInto lib)) (tm_Conditions inp);
     t \<leftarrow> if_not_nil (Time_DeepCopy lib) (tm_LastUpdated inp);
     State_Monad.return (inp\<lparr>tm_Conditions := c, tm_LastUpdated := t\<rparr>)
   }"

definition NamespaceQuota_DeepCopyInto :: "metav1 \<Rightarrow> nsq_m \<Rightarrow> (heap, nsq_m) state" where
  "NamespaceQuota_DeepCopyInto lib inp = do {
     m \<leftarrow> ObjectMeta_DeepCopyInto lib (nm_ObjectMeta inp);
     sp \<leftarrow> NamespaceQuotaSpec_DeepCopyInto (nm_Spec inp);
     st \<leftarrow> NamespaceQuotaStatus_DeepCopyInto lib (nm_Status inp);
     State_Monad.return (inp\<lparr>nm_ObjectMeta := m, nm_Spec := sp, nm_Status := st\<rparr>)
   }"

definition NamespaceQuotaList_DeepCopyInto :: "metav1 \<Rightarrow> nsq_list_m \<Rightarrow> (heap, nsq_list_m) state" where
  "NamespaceQuotaList_DeepCopyInto lib inp = do {
     r \<leftarrow> if_not_nil (copy_slice items_at set_items (NamespaceQuota_DeepCopyInto lib)) (lm_Items inp);
     State_Monad.return (inp\<lparr>lm_Items := r\<rparr>)
   }"

text \<open>DeepCopy of a pointer is nil for nil and otherwise a copy behind a new pointer.\<close>

definition AppliedQuotaRef_DeepCopy :: "applied_quota_ref option \<Rightarrow> (heap, applied_quota_ref option) state" where
  "AppliedQuotaRef_DeepCopy inp = if_not_nil AppliedQuotaRef_DeepCopyInto inp"

definition ManagementCluster_DeepCopy :: "management_cluster option \<Rightarrow> (heap, management_cluster option) state" where
  "ManagementCluster_DeepCopy inp = if_not_nil ManagementCluster_DeepCopyInto inp"

definition ClusterRef_DeepCopy :: "cluster_ref option \<Rightarrow> (heap, cluster_ref option) state" where
  "ClusterRef_DeepCopy inp = if_not_nil ClusterRef_DeepCopyInto inp"

definition NodeScaling_DeepCopy :: "node_scaling option \<Rightarrow> (heap, node_scaling option) state" where
  "NodeScaling_DeepCopy inp = if_not_nil NodeScaling_DeepCopyInto inp"

definition ResourceQuota_DeepCopy :: "api_resource_quota option \<Rightarrow> (heap, api_resource_quota option) state" where
  "ResourceQuota_DeepCopy inp = if_not_nil ResourceQuota_DeepCopyInto inp"

definition QuotaScaling_DeepCopy :: "quota_scaling_m option \<Rightarrow> (heap, quota_scaling_m option) state" where
  "QuotaScaling_DeepCopy inp = if_not_nil QuotaScaling_DeepCopyInto inp"

definition Behavior_DeepCopy :: "behavior_m option \<Rightarrow> (heap, behavior_m option) state" where
  "Behavior_DeepCopy inp = if_not_nil Behavior_DeepCopyInto inp"

definition NamespaceQuotaSpec_DeepCopy :: "spec_m option \<Rightarrow> (heap, spec_m option) state" where
  "NamespaceQuotaSpec_DeepCopy inp = if_not_nil NamespaceQuotaSpec_DeepCopyInto inp"

definition NamespaceQuotaStatus_DeepCopy :: "metav1 \<Rightarrow> status_m option \<Rightarrow> (heap, status_m option) state" where
  "NamespaceQuotaStatus_DeepCopy lib inp = if_not_nil (NamespaceQuotaStatus_DeepCopyInto lib) inp"

definition NamespaceQuota_DeepCopy :: "metav1 \<Rightarrow> nsq_m option \<Rightarrow> (heap, nsq_m option) state" where
  "NamespaceQuota_DeepCopy lib inp = if_not_nil (NamespaceQuota_DeepCopyInto lib) inp"

definition NamespaceQuotaList_DeepCopy :: "metav1 \<Rightarrow> nsq_list_m option \<Rightarrow> (heap, nsq_list_m option) state" where
  "NamespaceQuotaList_DeepCopy lib inp = if_not_nil (NamespaceQuotaList_DeepCopyInto lib) inp"

text \<open>DeepCopyObject, what the client library calls on a runtime.Object, as an interface value.\<close>

definition NamespaceQuota_DeepCopyObject :: "metav1 \<Rightarrow> nsq_m option \<Rightarrow> (heap, nsq_m option) state" where
  "NamespaceQuota_DeepCopyObject lib inp = do {
     c \<leftarrow> NamespaceQuota_DeepCopy lib inp;
     State_Monad.return (if c \<noteq> None then c else None)
   }"

definition NamespaceQuotaList_DeepCopyObject :: "metav1 \<Rightarrow> nsq_list_m option \<Rightarrow> (heap, nsq_list_m option) state" where
  "NamespaceQuotaList_DeepCopyObject lib inp = do {
     c \<leftarrow> NamespaceQuotaList_DeepCopy lib inp;
     State_Monad.return (if c \<noteq> None then c else None)
   }"

section \<open>What a deep copy promises\<close>

text \<open>Two stores agree at some addresses; and a store has only grown.\<close>

definition same_at :: "nat set \<Rightarrow> heap \<Rightarrow> heap \<Rightarrow> bool" where
  "same_at A h h' \<longleftrightarrow> (\<forall>a\<in>A. maps_at h' a = maps_at h a \<and> conditions_at h' a = conditions_at h a \<and>
     time_at h' a = time_at h a \<and> items_at h' a = items_at h a)"

definition grows :: "heap \<Rightarrow> heap \<Rightarrow> bool" where
  "grows h h' \<longleftrightarrow> next_addr h \<le> next_addr h' \<and> same_at {..< next_addr h} h h'"

lemma same_at_mono: "same_at B h h' \<Longrightarrow> A \<subseteq> B \<Longrightarrow> same_at A h h'"
  by (auto simp: same_at_def)

lemma same_at_Un: "same_at (A \<union> B) h h' \<longleftrightarrow> same_at A h h' \<and> same_at B h h'"
  by (auto simp: same_at_def)

lemma grows_refl [simp]: "grows h h"
  by (simp add: grows_def same_at_def)

lemma grows_trans: "grows h1 h2 \<Longrightarrow> grows h2 h3 \<Longrightarrow> grows h1 h3"
  by (auto simp: grows_def same_at_def)

lemma grows_next: "grows h h' \<Longrightarrow> next_addr h \<le> next_addr h'"
  by (simp add: grows_def)

lemma grows_same: "grows h h' \<Longrightarrow> A \<subseteq> {..< next_addr h} \<Longrightarrow> same_at A h h'"
  unfolding grows_def by (blast intro: same_at_mono)

text \<open>
  The contract of a copier, for a kind of object with the addresses it reaches and what it
  holds in a store: the copy holds the same, reaches only new addresses, and the store has
  only grown; and what an object reaches and holds depends only on what is there.
\<close>

locale deep_copier =
  fixes reach :: "heap \<Rightarrow> 'x \<Rightarrow> nat set" and holds :: "heap \<Rightarrow> 'x \<Rightarrow> 'v" and cp :: "'x \<Rightarrow> (heap, 'x) state"
  assumes copies: "reach h x \<subseteq> {..< next_addr h} \<Longrightarrow> wp (cp x) h (\<lambda>y h'. grows h h' \<and>
      holds h' y = holds h x \<and> reach h' y \<subseteq> {next_addr h ..< next_addr h'})"
    and local: "same_at (reach h x) h h' \<Longrightarrow> holds h' x = holds h x \<and> reach h' x = reach h x"

context deep_copier begin

lemma rule:
  assumes "reach h x \<subseteq> {..< next_addr h}"
    and "\<And>y h'. grows h h' \<Longrightarrow> holds h' y = holds h x \<Longrightarrow> reach h' y \<subseteq> {next_addr h ..< next_addr h'} \<Longrightarrow> Q y h'"
  shows "wp (cp x) h Q"
  using copies[OF assms(1)] by (rule wp_conseq) (use assms(2) in blast)

lemma later: "reach h x \<subseteq> {..< next_addr h} \<Longrightarrow> grows h h' \<Longrightarrow> holds h' x = holds h x \<and> reach h' x = reach h x"
  by (rule local) (rule grows_same)

text \<open>The original is untouched, and no write through the copy reaches it.\<close>

lemma separate:
  assumes "reach h x \<subseteq> {..< next_addr h}"
  shows "wp (cp x) h (\<lambda>y h'. holds h' y = holds h x \<and> holds h' x = holds h x \<and> reach h' y \<inter> reach h' x = {} \<and>
    (\<forall>h''. if same_at (- reach h' y) h' h'' then holds h'' x = holds h x else True))"
proof (rule rule[OF assms], intro conjI allI)
  fix y h' h'' assume g: "grows h h'" and e: "holds h' y = holds h x" and r: "reach h' y \<subseteq> {next_addr h ..< next_addr h'}"
  from later[OF assms g] have l: "holds h' x = holds h x" "reach h' x = reach h x" by simp_all
  then show "holds h' y = holds h x" "holds h' x = holds h x" using e by simp_all
  from l r assms show d: "reach h' y \<inter> reach h' x = {}" by fastforce
  have "same_at (reach h' x) h' h''" if "same_at (- reach h' y) h' h''"
    using that by (rule same_at_mono) (use d in blast)
  then show "if same_at (- reach h' y) h' h'' then holds h'' x = holds h x else True"
    using local[of h' x h''] l by auto
qed

end

section \<open>The copiers keep it\<close>

lemma wp_fresh [wp_simps]: "wp fresh h Q \<longleftrightarrow> Q (next_addr h) (h\<lparr>next_addr := next_addr h + 1\<rparr>)"
  by (simp add: fresh_def wp_def)

lemma wp_update [wp_simps]: "wp (State_Monad.update f) s Q \<longleftrightarrow> Q () (f s)"
  by (simp add: State_Monad.update_def wp_simps)

definition addr_reach :: "heap \<Rightarrow> nat \<Rightarrow> nat set" where
  "addr_reach h a = {a}"

interpretation map_copier: deep_copier addr_reach maps_at copy_map
  by unfold_locales (auto simp: addr_reach_def copy_map_def set_map_def wp_simps grows_def same_at_def)

text \<open>What has no references is its own copy.\<close>

interpretation applied_quota_ref_copier: deep_copier "\<lambda>h x. {}" "\<lambda>h x. x" AppliedQuotaRef_DeepCopyInto
  by unfold_locales (simp_all add: AppliedQuotaRef_DeepCopyInto_def wp_return)

interpretation management_cluster_copier: deep_copier "\<lambda>h x. {}" "\<lambda>h x. x" ManagementCluster_DeepCopyInto
  by unfold_locales (simp_all add: ManagementCluster_DeepCopyInto_def wp_return)

interpretation cluster_ref_copier: deep_copier "\<lambda>h x. {}" "\<lambda>h x. x" ClusterRef_DeepCopyInto
  by unfold_locales (simp_all add: ClusterRef_DeepCopyInto_def wp_return)

interpretation node_scaling_copier: deep_copier "\<lambda>h x. {}" "\<lambda>h x. x" NodeScaling_DeepCopyInto
  by unfold_locales (simp_all add: NodeScaling_DeepCopyInto_def wp_return)

interpretation resource_quota_copier: deep_copier "\<lambda>h x. {}" "\<lambda>h x. x" ResourceQuota_DeepCopyInto
  by unfold_locales (simp_all add: ResourceQuota_DeepCopyInto_def wp_return)

text \<open>What may be nil.\<close>

definition ref_reach :: "(heap \<Rightarrow> 'x \<Rightarrow> nat set) \<Rightarrow> heap \<Rightarrow> 'x option \<Rightarrow> nat set" where
  "ref_reach r h x = (case x of None \<Rightarrow> {} | Some y \<Rightarrow> r h y)"

definition ref_holds :: "(heap \<Rightarrow> 'x \<Rightarrow> 'v) \<Rightarrow> heap \<Rightarrow> 'x option \<Rightarrow> 'v option" where
  "ref_holds v h x = map_option (v h) x"

lemma ref_copier:
  assumes "deep_copier r v c"
  shows "deep_copier (ref_reach r) (ref_holds v) (if_not_nil c)"
proof (rule deep_copier.intro)
  fix h x assume x: "ref_reach r h x \<subseteq> {..< next_addr h}"
  show "wp (if_not_nil c x) h (\<lambda>y h'. grows h h' \<and> ref_holds v h' y = ref_holds v h x \<and>
      ref_reach r h' y \<subseteq> {next_addr h ..< next_addr h'})"
  proof (cases x)
    case None
    then show ?thesis by (simp add: if_not_nil_def wp_return ref_holds_def ref_reach_def)
  next
    case (Some y)
    with x have "r h y \<subseteq> {..< next_addr h}" by (simp add: ref_reach_def)
    then show ?thesis unfolding if_not_nil_def Some option.case wp_bind wp_return
      by (rule deep_copier.rule[OF assms]) (simp add: ref_holds_def ref_reach_def)
  qed
next
  fix h x h' assume "same_at (ref_reach r h x) h h'"
  then show "ref_holds v h' x = ref_holds v h x \<and> ref_reach r h' x = ref_reach r h x"
    using deep_copier.local[OF assms, of h "the x" h'] by (cases x) (simp_all add: ref_holds_def ref_reach_def)
qed

text \<open>One object after another, all the elements of a list, and a slice of them.\<close>

definition copy_pair ::
  "('x \<Rightarrow> (heap, 'x) state) \<Rightarrow> ('y \<Rightarrow> (heap, 'y) state) \<Rightarrow> 'x \<times> 'y \<Rightarrow> (heap, 'x \<times> 'y) state" where
  "copy_pair c1 c2 p = do { a \<leftarrow> c1 (fst p); b \<leftarrow> c2 (snd p); State_Monad.return (a, b) }"

definition pair_reach ::
  "(heap \<Rightarrow> 'x \<Rightarrow> nat set) \<Rightarrow> (heap \<Rightarrow> 'y \<Rightarrow> nat set) \<Rightarrow> heap \<Rightarrow> 'x \<times> 'y \<Rightarrow> nat set" where
  "pair_reach r1 r2 h p = r1 h (fst p) \<union> r2 h (snd p)"

definition pair_holds ::
  "(heap \<Rightarrow> 'x \<Rightarrow> 'v) \<Rightarrow> (heap \<Rightarrow> 'y \<Rightarrow> 'w) \<Rightarrow> heap \<Rightarrow> 'x \<times> 'y \<Rightarrow> 'v \<times> 'w" where
  "pair_holds v1 v2 h p = (v1 h (fst p), v2 h (snd p))"

lemma pair_copier:
  assumes "deep_copier r1 v1 c1" and "deep_copier r2 v2 c2"
  shows "deep_copier (pair_reach r1 r2) (pair_holds v1 v2) (copy_pair c1 c2)"
proof (rule deep_copier.intro)
  fix h p assume p: "pair_reach r1 r2 h p \<subseteq> {..< next_addr h}"
  then have x: "r1 h (fst p) \<subseteq> {..< next_addr h}" and y: "r2 h (snd p) \<subseteq> {..< next_addr h}"
    by (auto simp: pair_reach_def)
  show "wp (copy_pair c1 c2 p) h (\<lambda>q h'. grows h h' \<and> pair_holds v1 v2 h' q = pair_holds v1 v2 h p \<and>
      pair_reach r1 r2 h' q \<subseteq> {next_addr h ..< next_addr h'})"
    unfolding copy_pair_def wp_bind wp_return
  proof (rule deep_copier.rule[OF assms(1) x])
    fix a h1 assume a: "grows h h1" "v1 h1 a = v1 h (fst p)" "r1 h1 a \<subseteq> {next_addr h ..< next_addr h1}"
    from deep_copier.later[OF assms(2) y a(1)] have y1: "v2 h1 (snd p) = v2 h (snd p)" "r2 h1 (snd p) = r2 h (snd p)"
      by simp_all
    with y grows_next[OF a(1)] have "r2 h1 (snd p) \<subseteq> {..< next_addr h1}" by auto
    then show "wp (c2 (snd p)) h1 (\<lambda>b h'. grows h h' \<and> pair_holds v1 v2 h' (a, b) = pair_holds v1 v2 h p \<and>
        pair_reach r1 r2 h' (a, b) \<subseteq> {next_addr h ..< next_addr h'})"
    proof (rule deep_copier.rule[OF assms(2)])
      fix b h2 assume b: "grows h1 h2" "v2 h2 b = v2 h1 (snd p)" "r2 h2 b \<subseteq> {next_addr h1 ..< next_addr h2}"
      from a(3) have "r1 h1 a \<subseteq> {..< next_addr h1}" by auto
      from deep_copier.later[OF assms(1) this b(1)] a(2,3) b(2,3) y1 grows_next[OF a(1)] grows_next[OF b(1)]
        grows_trans[OF a(1) b(1)]
      show "grows h h2 \<and> pair_holds v1 v2 h2 (a, b) = pair_holds v1 v2 h p \<and>
          pair_reach r1 r2 h2 (a, b) \<subseteq> {next_addr h ..< next_addr h2}"
        by (fastforce simp: pair_holds_def pair_reach_def)
    qed
  qed
next
  fix h p h' assume "same_at (pair_reach r1 r2 h p) h h'"
  then show "pair_holds v1 v2 h' p = pair_holds v1 v2 h p \<and> pair_reach r1 r2 h' p = pair_reach r1 r2 h p"
    using deep_copier.local[OF assms(1), of h "fst p" h'] deep_copier.local[OF assms(2), of h "snd p" h']
    by (simp add: pair_reach_def pair_holds_def same_at_Un)
qed

definition all_reach :: "(heap \<Rightarrow> 'x \<Rightarrow> nat set) \<Rightarrow> heap \<Rightarrow> 'x list \<Rightarrow> nat set" where
  "all_reach r h xs = (\<Union>x\<in>set xs. r h x)"

lemma all_local:
  assumes "deep_copier r v c" and "same_at (all_reach r h xs) h h'"
  shows "map (v h') xs = map (v h) xs \<and> all_reach r h' xs = all_reach r h xs"
  using assms(2)
proof (induction xs)
  case (Cons x xs)
  then show ?case using deep_copier.local[OF assms(1), of h x h'] by (simp add: all_reach_def same_at_Un)
qed (simp add: all_reach_def)

lemma each_copier:
  assumes "deep_copier r v c"
  shows "deep_copier (all_reach r) (\<lambda>h. map (v h)) (copy_each c)"
proof (rule deep_copier.intro)
  fix h xs assume "all_reach r h xs \<subseteq> {..< next_addr h}"
  then show "wp (copy_each c xs) h (\<lambda>ys h'. grows h h' \<and> map (v h') ys = map (v h) xs \<and>
      all_reach r h' ys \<subseteq> {next_addr h ..< next_addr h'})"
  proof (induction xs arbitrary: h)
    case Nil
    then show ?case by (simp add: wp_return all_reach_def)
  next
    case (Cons x xs)
    then have x: "r h x \<subseteq> {..< next_addr h}" and xs: "all_reach r h xs \<subseteq> {..< next_addr h}"
      by (auto simp: all_reach_def)
    show ?case unfolding copy_each.simps wp_bind wp_return
    proof (rule deep_copier.rule[OF assms x])
      fix a h1 assume a: "grows h h1" "v h1 a = v h x" "r h1 a \<subseteq> {next_addr h ..< next_addr h1}"
      from all_local[OF assms grows_same[OF a(1) xs]]
      have e: "map (v h1) xs = map (v h) xs" "all_reach r h1 xs = all_reach r h xs" by simp_all
      with xs grows_next[OF a(1)] have "all_reach r h1 xs \<subseteq> {..< next_addr h1}" by auto
      from Cons.IH[OF this]
      show "wp (copy_each c xs) h1 (\<lambda>ys h'. grows h h' \<and> map (v h') (a # ys) = map (v h) (x # xs) \<and>
          all_reach r h' (a # ys) \<subseteq> {next_addr h ..< next_addr h'})"
      proof (rule wp_conseq)
        fix ys h2 assume b: "grows h1 h2 \<and> map (v h2) ys = map (v h1) xs \<and>
          all_reach r h2 ys \<subseteq> {next_addr h1 ..< next_addr h2}"
        from a(3) have "r h1 a \<subseteq> {..< next_addr h1}" by auto
        with deep_copier.later[OF assms, of h1 a h2] b a e grows_next[OF a(1)] grows_next[of h1 h2]
          grows_trans[OF a(1), of h2]
        show "grows h h2 \<and> map (v h2) (a # ys) = map (v h) (x # xs) \<and>
            all_reach r h2 (a # ys) \<subseteq> {next_addr h ..< next_addr h2}"
          by (fastforce simp: all_reach_def)
      qed
    qed
  qed
qed (use all_local[OF assms] in blast)

definition slice_reach ::
  "(heap \<Rightarrow> nat \<Rightarrow> 'x list) \<Rightarrow> (heap \<Rightarrow> 'x \<Rightarrow> nat set) \<Rightarrow> heap \<Rightarrow> nat \<Rightarrow> nat set" where
  "slice_reach get_at r h a = insert a (all_reach r h (get_at h a))"

definition slice_holds :: "(heap \<Rightarrow> nat \<Rightarrow> 'x list) \<Rightarrow> (heap \<Rightarrow> 'x \<Rightarrow> 'v) \<Rightarrow> heap \<Rightarrow> nat \<Rightarrow> 'v list" where
  "slice_holds get_at v h a = map (v h) (get_at h a)"

text \<open>A place for slices in the store: read back what is set, and nothing else is changed.\<close>

definition place :: "(heap \<Rightarrow> nat \<Rightarrow> 'x list) \<Rightarrow> (nat \<Rightarrow> 'x list \<Rightarrow> heap \<Rightarrow> heap) \<Rightarrow> bool" where
  "place get_at set_at \<longleftrightarrow> (\<forall>b xs h. get_at (set_at b xs h) b = xs \<and> same_at (- {b}) h (set_at b xs h) \<and>
     next_addr (set_at b xs h) = next_addr h) \<and>
     (\<forall>a h h'. same_at {a} h h' \<longrightarrow> get_at h' a = get_at h a)"

lemma places: "place conditions_at set_conditions" "place items_at set_items"
  by (auto simp: place_def set_conditions_def set_items_def same_at_def)

lemma slice_copier:
  assumes c: "deep_copier r v c" and p: "place get_at set_at"
  shows "deep_copier (slice_reach get_at r) (slice_holds get_at v) (copy_slice get_at set_at c)"
proof (rule deep_copier.intro)
  fix h a assume s: "slice_reach get_at r h a \<subseteq> {..< next_addr h}"
  let ?xs = "get_at h a" let ?b = "next_addr h" let ?h1 = "h\<lparr>next_addr := next_addr h + 1\<rparr>"
  from s have xs: "all_reach r h ?xs \<subseteq> {..< next_addr h}" by (simp add: slice_reach_def)
  have g1: "grows h ?h1" by (simp add: grows_def same_at_def)
  from all_local[OF c grows_same[OF g1 xs]]
  have e1: "map (v ?h1) ?xs = map (v h) ?xs" "all_reach r ?h1 ?xs = all_reach r h ?xs" by simp_all
  with xs have xs1: "all_reach r ?h1 ?xs \<subseteq> {..< next_addr ?h1}" by auto
  show "wp (copy_slice get_at set_at c a) h (\<lambda>b h'. grows h h' \<and>
      slice_holds get_at v h' b = slice_holds get_at v h a \<and>
      slice_reach get_at r h' b \<subseteq> {next_addr h ..< next_addr h'})"
    unfolding copy_slice_def wp_bind wp_get wp_fresh
  proof (rule deep_copier.rule[OF each_copier[OF c] xs1], unfold wp_update wp_return)
    fix ys h2 assume h2: "grows ?h1 h2" "map (v h2) ys = map (v ?h1) ?xs"
      "all_reach r h2 ys \<subseteq> {next_addr ?h1 ..< next_addr h2}"
    let ?h3 = "set_at ?b ys h2"
    from p have h3: "get_at ?h3 ?b = ys" "same_at (- {?b}) h2 ?h3" "next_addr ?h3 = next_addr h2"
      by (auto simp: place_def)
    from h2(3) have "all_reach r h2 ys \<subseteq> - {?b}" by auto
    with h3(2) have "same_at (all_reach r h2 ys) h2 ?h3" by (rule same_at_mono)
    from all_local[OF c this] have e3: "map (v ?h3) ys = map (v h2) ys" "all_reach r ?h3 ys = all_reach r h2 ys"
      by simp_all
    have "same_at {..< next_addr h} h2 ?h3" using h3(2) by (rule same_at_mono) auto
    with grows_trans[OF g1 h2(1)] h3(3) have "grows h ?h3" by (auto simp: grows_def same_at_def)
    moreover have "slice_holds get_at v ?h3 ?b = slice_holds get_at v h a"
      using h3(1) e3(1) h2(2) e1(1) by (simp add: slice_holds_def)
    moreover have "slice_reach get_at r ?h3 ?b \<subseteq> {?b ..< next_addr ?h3}"
      using h2(3) grows_next[OF h2(1)] h3(1,3) e3(2) by (auto simp: slice_reach_def)
    ultimately show "grows h ?h3 \<and> slice_holds get_at v ?h3 ?b = slice_holds get_at v h a \<and>
        slice_reach get_at r ?h3 ?b \<subseteq> {?b ..< next_addr ?h3}" by blast
  qed
next
  fix h a h' assume s: "same_at (slice_reach get_at r h a) h h'"
  then have "same_at {a} h h'" and xs: "same_at (all_reach r h (get_at h a)) h h'"
    by (auto simp: slice_reach_def same_at_def)
  with p have "get_at h' a = get_at h a" by (auto simp: place_def)
  with all_local[OF c xs]
  show "slice_holds get_at v h' a = slice_holds get_at v h a \<and> slice_reach get_at r h' a = slice_reach get_at r h a"
    by (simp add: slice_holds_def slice_reach_def)
qed

text \<open>A struct of which some part has references and the rest is plain values.\<close>

lemma struct_copier:
  assumes c: "deep_copier r v c"
    and run: "\<And>s h Q. wp (into s) h Q \<longleftrightarrow> wp (c (part s)) h (\<lambda>x. Q (put s x))"
    and put: "\<And>s x. part (put s x) = x" "\<And>s x. plain (put s x) = plain s"
  shows "deep_copier (\<lambda>h s. r h (part s)) (\<lambda>h s. (plain s, v h (part s))) into"
proof (rule deep_copier.intro)
  fix h s assume "r h (part s) \<subseteq> {..< next_addr h}"
  from deep_copier.copies[OF c this]
  show "wp (into s) h (\<lambda>y h'. grows h h' \<and> (plain y, v h' (part y)) = (plain s, v h (part s)) \<and>
      r h' (part y) \<subseteq> {next_addr h ..< next_addr h'})"
    unfolding run by (rule wp_conseq) (simp add: put)
next
  fix h s h' assume "same_at (r h (part s)) h h'"
  from deep_copier.local[OF c this]
  show "(plain s, v h' (part s)) = (plain s, v h (part s)) \<and> r h' (part s) = r h (part s)" by simp
qed

section \<open>The API types\<close>

text \<open>For each type its references, its plain part, the addresses it reaches and what it holds.\<close>

definition quota_scaling_refs :: "quota_scaling_m \<Rightarrow> nat option \<times> nat option \<times> nat option" where
  "quota_scaling_refs q = (qm_MinQuota q, qm_MaxQuota q, qm_ScaleStep q)"

definition quota_scaling_reach :: "heap \<Rightarrow> quota_scaling_m \<Rightarrow> nat set" where
  "quota_scaling_reach = (\<lambda>h q. pair_reach (ref_reach addr_reach) (pair_reach (ref_reach addr_reach) (ref_reach addr_reach)) h
     (quota_scaling_refs q))"

definition quota_scaling_holds where
  "quota_scaling_holds = (\<lambda>h q. (q\<lparr>qm_MinQuota := None, qm_MaxQuota := None, qm_ScaleStep := None\<rparr>,
     pair_holds (ref_holds maps_at) (pair_holds (ref_holds maps_at) (ref_holds maps_at)) h (quota_scaling_refs q)))"

lemmas map_ref_copier = ref_copier[OF map_copier.deep_copier_axioms]

interpretation quota_scaling_copier: deep_copier quota_scaling_reach quota_scaling_holds QuotaScaling_DeepCopyInto
  unfolding quota_scaling_reach_def quota_scaling_holds_def
  by (rule struct_copier[OF pair_copier[OF map_ref_copier pair_copier[OF map_ref_copier map_ref_copier]],
        where put = "\<lambda>q x. q\<lparr>qm_MinQuota := fst x, qm_MaxQuota := fst (snd x), qm_ScaleStep := snd (snd x)\<rparr>"])
     (simp_all add: quota_scaling_refs_def QuotaScaling_DeepCopyInto_def copy_pair_def wp_simps)

definition behavior_reach :: "heap \<Rightarrow> behavior_m \<Rightarrow> nat set" where
  "behavior_reach = (\<lambda>h b. quota_scaling_reach h (bm_QuotaScaling b))"

definition behavior_holds where
  "behavior_holds = (\<lambda>h b. (bm_NodeScaling b, quota_scaling_holds h (bm_QuotaScaling b)))"

interpretation behavior_copier: deep_copier behavior_reach behavior_holds Behavior_DeepCopyInto
  unfolding behavior_reach_def behavior_holds_def
  by (rule struct_copier[OF quota_scaling_copier.deep_copier_axioms, where put = "\<lambda>b x. b\<lparr>bm_QuotaScaling := x\<rparr>"])
     (simp_all add: Behavior_DeepCopyInto_def wp_simps)

definition spec_reach :: "heap \<Rightarrow> spec_m \<Rightarrow> nat set" where
  "spec_reach = (\<lambda>h s. behavior_reach h (sm_Behavior s))"

definition spec_holds where
  "spec_holds = (\<lambda>h s. ((sm_ClusterRef s, sm_AppliedQuotaRef s), behavior_holds h (sm_Behavior s)))"

interpretation spec_copier: deep_copier spec_reach spec_holds NamespaceQuotaSpec_DeepCopyInto
  unfolding spec_reach_def spec_holds_def
  by (rule struct_copier[OF behavior_copier.deep_copier_axioms, where put = "\<lambda>s x. s\<lparr>sm_Behavior := x\<rparr>"])
     (simp_all add: NamespaceQuotaSpec_DeepCopyInto_def wp_simps)

text \<open>
  The documented behaviour of the library's three copiers: a Condition has no references,
  a Time is one cell, and an ObjectMeta reaches its two maps.
\<close>

definition meta_reach :: "heap \<Rightarrow> meta_m \<Rightarrow> nat set" where
  "meta_reach = (\<lambda>h m. pair_reach (ref_reach addr_reach) (ref_reach addr_reach) h (mm_Labels m, mm_Annotations m))"

definition meta_holds where
  "meta_holds = (\<lambda>h m. (m\<lparr>mm_Labels := None, mm_Annotations := None\<rparr>,
     pair_holds (ref_holds maps_at) (ref_holds maps_at) h (mm_Labels m, mm_Annotations m)))"

definition metav1_copies :: "metav1 \<Rightarrow> bool" where
  "metav1_copies lib \<longleftrightarrow> deep_copier meta_reach meta_holds (ObjectMeta_DeepCopyInto lib) \<and>
     deep_copier (\<lambda>h c. {}) (\<lambda>h c. c) (Condition_DeepCopyInto lib) \<and>
     deep_copier addr_reach time_at (Time_DeepCopy lib)"

lemma metav1_copiesD:
  assumes "metav1_copies lib"
  shows "deep_copier meta_reach meta_holds (ObjectMeta_DeepCopyInto lib)"
    and "deep_copier (\<lambda>h c. {}) (\<lambda>h c. c) (Condition_DeepCopyInto lib)"
    and "deep_copier addr_reach time_at (Time_DeepCopy lib)"
  using assms by (simp_all add: metav1_copies_def)

definition status_reach :: "heap \<Rightarrow> status_m \<Rightarrow> nat set" where
  "status_reach = (\<lambda>h s. pair_reach (ref_reach (slice_reach conditions_at (\<lambda>h c. {}))) (ref_reach addr_reach) h
     (tm_Conditions s, tm_LastUpdated s))"

definition status_holds where
  "status_holds = (\<lambda>h (s :: status_m). ((), pair_holds (ref_holds (slice_holds conditions_at (\<lambda>h c. c))) (ref_holds time_at) h
     (tm_Conditions s, tm_LastUpdated s)))"

lemma status_copier:
  assumes "metav1_copies lib"
  shows "deep_copier status_reach status_holds (NamespaceQuotaStatus_DeepCopyInto lib)"
  unfolding status_reach_def status_holds_def
  by (rule struct_copier[OF pair_copier[OF ref_copier[OF slice_copier[OF metav1_copiesD(2)[OF assms] places(1)]]
        ref_copier[OF metav1_copiesD(3)[OF assms]]],
        where put = "\<lambda>s x. s\<lparr>tm_Conditions := fst x, tm_LastUpdated := snd x\<rparr>"])
     (simp_all add: NamespaceQuotaStatus_DeepCopyInto_def copy_pair_def wp_simps)

definition nsq_reach :: "heap \<Rightarrow> nsq_m \<Rightarrow> nat set" where
  "nsq_reach = (\<lambda>h x. pair_reach meta_reach (pair_reach spec_reach status_reach) h
     (nm_ObjectMeta x, nm_Spec x, nm_Status x))"

definition nsq_holds where
  "nsq_holds = (\<lambda>h (x :: nsq_m). ((), pair_holds meta_holds (pair_holds spec_holds status_holds) h
     (nm_ObjectMeta x, nm_Spec x, nm_Status x)))"

lemma nsq_copier:
  assumes "metav1_copies lib"
  shows "deep_copier nsq_reach nsq_holds (NamespaceQuota_DeepCopyInto lib)"
  unfolding nsq_reach_def nsq_holds_def
  by (rule struct_copier[OF pair_copier[OF metav1_copiesD(1)[OF assms]
        pair_copier[OF spec_copier.deep_copier_axioms status_copier[OF assms]]],
        where put = "\<lambda>s x. s\<lparr>nm_ObjectMeta := fst x, nm_Spec := fst (snd x), nm_Status := snd (snd x)\<rparr>"])
     (simp_all add: NamespaceQuota_DeepCopyInto_def copy_pair_def wp_simps)

definition nsq_list_reach :: "heap \<Rightarrow> nsq_list_m \<Rightarrow> nat set" where
  "nsq_list_reach = (\<lambda>h l. ref_reach (slice_reach items_at nsq_reach) h (lm_Items l))"

definition nsq_list_holds where
  "nsq_list_holds = (\<lambda>h l. (l\<lparr>lm_Items := None\<rparr>, ref_holds (slice_holds items_at nsq_holds) h (lm_Items l)))"

lemma nsq_list_copier:
  assumes "metav1_copies lib"
  shows "deep_copier nsq_list_reach nsq_list_holds (NamespaceQuotaList_DeepCopyInto lib)"
  unfolding nsq_list_reach_def nsq_list_holds_def
  by (rule struct_copier[OF ref_copier[OF slice_copier[OF nsq_copier[OF assms] places(2)]],
        where put = "\<lambda>l x. l\<lparr>lm_Items := x\<rparr>"])
     (simp_all add: NamespaceQuotaList_DeepCopyInto_def wp_simps)

lemma same_pointer: "(if c \<noteq> None then c else None) = c"
  by simp

text \<open>
  C38. DeepCopyObject of a list of quota objects (what the client's cache hands to the
  handlers), with the library's own copiers keeping their contract: the list handed out
  holds the same values, the one in the cache is untouched, the two share no map, slice or
  time, and whatever is later written through the copy, the one in the cache still holds
  what it held.
\<close>

theorem deep_copy_separate:
  assumes "metav1_copies lib"
    and "ref_reach nsq_list_reach h inp \<subseteq> {..< next_addr h}"
  shows "wp (NamespaceQuotaList_DeepCopyObject lib inp) h (\<lambda>out h'.
    ref_holds nsq_list_holds h' out = ref_holds nsq_list_holds h inp \<and>
    ref_holds nsq_list_holds h' inp = ref_holds nsq_list_holds h inp \<and>
    ref_reach nsq_list_reach h' out \<inter> ref_reach nsq_list_reach h' inp = {} \<and>
    (\<forall>h''. if same_at (- ref_reach nsq_list_reach h' out) h' h''
       then ref_holds nsq_list_holds h'' inp = ref_holds nsq_list_holds h inp else True))"
  unfolding NamespaceQuotaList_DeepCopyObject_def NamespaceQuotaList_DeepCopy_def wp_bind wp_return
  using deep_copier.separate[OF ref_copier[OF nsq_list_copier[OF assms(1)]] assms(2)]
  unfolding same_pointer .


text \<open>A library that keeps the contract, and a store with one object in a list.\<close>

definition sample_ObjectMeta_DeepCopyInto :: "meta_m \<Rightarrow> (heap, meta_m) state" where
  "sample_ObjectMeta_DeepCopyInto m = do {
     l \<leftarrow> if_not_nil copy_map (mm_Labels m);
     a \<leftarrow> if_not_nil copy_map (mm_Annotations m);
     State_Monad.return (m\<lparr>mm_Labels := l, mm_Annotations := a\<rparr>)
   }"

definition sample_Time_DeepCopy :: "nat \<Rightarrow> (heap, nat) state" where
  "sample_Time_DeepCopy a = do {
     h \<leftarrow> State_Monad.get;
     b \<leftarrow> fresh;
     State_Monad.update (\<lambda>h'. h'\<lparr>time_at := (time_at h')(b := time_at h a)\<rparr>);
     State_Monad.return b
   }"

definition sample_metav1 :: metav1 where
  "sample_metav1 = \<lparr>ObjectMeta_DeepCopyInto = sample_ObjectMeta_DeepCopyInto,
     Condition_DeepCopyInto = State_Monad.return, Time_DeepCopy = sample_Time_DeepCopy\<rparr>"

interpretation sample_meta_copier: deep_copier meta_reach meta_holds sample_ObjectMeta_DeepCopyInto
  unfolding meta_reach_def meta_holds_def
  by (rule struct_copier[OF pair_copier[OF map_ref_copier map_ref_copier],
        where put = "\<lambda>m x. m\<lparr>mm_Labels := fst x, mm_Annotations := snd x\<rparr>"])
     (simp_all add: sample_ObjectMeta_DeepCopyInto_def copy_pair_def wp_simps)

interpretation sample_time_copier: deep_copier addr_reach time_at sample_Time_DeepCopy
  by unfold_locales (auto simp: addr_reach_def sample_Time_DeepCopy_def wp_simps grows_def same_at_def)

interpretation sample_condition_copier: deep_copier "\<lambda>h c. {}" "\<lambda>h (c :: condition). c" State_Monad.return
  by unfold_locales (simp_all add: wp_return)

lemma sample_metav1_copies: "metav1_copies sample_metav1"
  by (simp add: metav1_copies_def sample_metav1_def sample_meta_copier.deep_copier_axioms
      sample_time_copier.deep_copier_axioms sample_condition_copier.deep_copier_axioms)

definition sample_item :: nsq_m where
  "sample_item = \<lparr>
     nm_ObjectMeta = \<lparr>mm_Name = ''q'', mm_Namespace = ''team'', mm_Labels = Some 0, mm_Annotations = None, mm_Generation = 1\<rparr>,
     nm_Spec = \<lparr>sm_ClusterRef = \<lparr>cr_Name = ''c1'', cr_RepositoryURL = '''', cr_Path = '''', EndpointServer = '''',
         ManagementCluster = \<lparr>mc_Name = ''m'', mc_RepositoryURL = ''''\<rparr>\<rparr>,
       sm_AppliedQuotaRef = \<lparr>aqr_Namespace = ''team'', aqr_Name = ''rq''\<rparr>,
       sm_Behavior = \<lparr>bm_QuotaScaling = \<lparr>qm_Enabled = True, qm_MinQuota = Some 1, qm_MaxQuota = Some 2,
         qm_ScaleStep = None, qm_TargetQuotaUtilization = 80, qm_Mode = ''auto''\<rparr>, 
         bm_NodeScaling = \<lparr>ns_Enabled = True, MinNodes = 1, MaxNodes = 5, NodeFlavor = ''small'',
           ScaleUpCooldownSeconds = 60, ScaleUpThreshold = 80\<rparr>\<rparr>\<rparr>,
     nm_Status = \<lparr>tm_Conditions = Some 3, tm_LastUpdated = Some 4\<rparr>\<rparr>"

definition sample_heap :: heap where
  "sample_heap = \<lparr>next_addr = 6,
     maps_at = (\<lambda>a. if a = 2 then [''requests.cpu'' \<mapsto> ''8''] else Map.empty),
     conditions_at = (\<lambda>a. []), time_at = (\<lambda>a. 100), items_at = (\<lambda>a. if a = 5 then [sample_item] else [])\<rparr>"

definition sample_list :: nsq_list_m where
  "sample_list = \<lparr>lm_ResourceVersion = ''7'', lm_Continue = '''', lm_Items = Some 5\<rparr>"

lemmas reach_defs = ref_reach_def slice_reach_def all_reach_def pair_reach_def addr_reach_def nsq_list_reach_def
  nsq_reach_def meta_reach_def spec_reach_def behavior_reach_def quota_scaling_reach_def quota_scaling_refs_def
  status_reach_def

lemma sample_list_reach: "ref_reach nsq_list_reach sample_heap (Some sample_list) \<subseteq> {..< next_addr sample_heap}"
  by (simp add: reach_defs sample_heap_def sample_list_def sample_item_def)

theorem deep_copy_separate_witness:
  "wp (NamespaceQuotaList_DeepCopyObject sample_metav1 (Some sample_list)) sample_heap (\<lambda>out h'.
    ref_holds nsq_list_holds h' out = ref_holds nsq_list_holds sample_heap (Some sample_list) \<and>
    ref_reach nsq_list_reach h' out \<inter> ref_reach nsq_list_reach h' (Some sample_list) = {})"
  by (rule wp_conseq[OF deep_copy_separate[OF sample_metav1_copies sample_list_reach]]) blast

end
