(* ===== verification/Capacity_Bounds.thy ===== *)
theory Capacity_Bounds imports Reconciler begin

text \<open>
  The int64 arithmetic of computeClusterFree and of the comparison in Reconcile, against
  the numbers it stands for: where the cluster's amounts fit into int64, nothing wraps.
\<close>

section \<open>Amounts without wrap-around\<close>

definition alloc_cpu :: "('q, 'z) quantity_ops_scheme \<Rightarrow> 'q node \<Rightarrow> int" where
  "alloc_cpu Q n = MilliValue Q (rl_Cpu Q (Allocatable n))"

definition alloc_mem :: "('q, 'z) quantity_ops_scheme \<Rightarrow> 'q node \<Rightarrow> int" where
  "alloc_mem Q n = Value Q (rl_Memory Q (Allocatable n))"

definition alloc_gpu :: "('q, 'z) quantity_ops_scheme \<Rightarrow> 'q node \<Rightarrow> int" where
  "alloc_gpu Q n = (case Allocatable n ''nvidia.com/gpu'' of Some g \<Rightarrow> Value Q g | None \<Rightarrow> 0)"

definition cpu_request :: "('q, 'z) quantity_ops_scheme \<Rightarrow> 'q container \<Rightarrow> int" where
  "cpu_request Q c = MilliValue Q (rl_Cpu Q (Requests c))"

definition mem_request :: "('q, 'z) quantity_ops_scheme \<Rightarrow> 'q container \<Rightarrow> int" where
  "mem_request Q c = Value Q (rl_Memory Q (Requests c))"

text \<open>What a node has left of a resource, as a number, and when int64 can hold the sums.\<close>

definition left_over :: "('q node \<Rightarrow> int) \<Rightarrow> ('q container \<Rightarrow> int) \<Rightarrow> 'q pod list \<Rightarrow> 'q node \<Rightarrow> int" where
  "left_over alloc req pods n = max 0 (alloc n - (\<Sum>c\<leftarrow>containers_on (node_Name n) pods. req c))"

definition requested :: "('q container \<Rightarrow> int) \<Rightarrow> 'q pod list \<Rightarrow> int" where
  "requested req pods = (\<Sum>c\<leftarrow>concat (map all_containers pods). req c)"

definition int64_holds :: "('q node \<Rightarrow> int) \<Rightarrow> ('q container \<Rightarrow> int) \<Rightarrow> 'q node list \<Rightarrow> 'q pod list \<Rightarrow> bool" where
  "int64_holds alloc req nodes pods \<longleftrightarrow>
     list_all (\<lambda>n. 0 \<le> alloc n) nodes \<and> list_all (\<lambda>c. 0 \<le> req c) (concat (map all_containers pods)) \<and>
     (\<Sum>n\<leftarrow>nodes. alloc n) < 2 ^ 63 \<and> requested req pods < 2 ^ 63"

section \<open>Sums of numbers that are not negative\<close>

lemma sum_list_filter_le:
  "list_all (\<lambda>x. (0::int) \<le> f x) xs \<Longrightarrow> (\<Sum>x\<leftarrow>filter P xs. f x) \<le> (\<Sum>x\<leftarrow>xs. f x)"
  by (induction xs) auto

lemma sum_list_member_le:
  "list_all (\<lambda>x. (0::int) \<le> f x) xs \<Longrightarrow> x \<in> set xs \<Longrightarrow> f x \<le> (\<Sum>x\<leftarrow>xs. f x)"
proof (induction xs)
  case (Cons y ys)
  have "0 \<le> (\<Sum>x\<leftarrow>ys. f x)" using Cons.prems(1) by (intro sum_list_nonneg) (auto simp: list_all_iff)
  then show ?case using Cons by auto
qed simp

lemma on_node_le:
  assumes "list_all (\<lambda>c. 0 \<le> req c) (concat (map all_containers pods))"
  shows "0 \<le> (\<Sum>c\<leftarrow>containers_on nm pods. req c)"
    and "(\<Sum>c\<leftarrow>containers_on nm pods. req c) \<le> requested req pods"
proof -
  show "0 \<le> (\<Sum>c\<leftarrow>containers_on nm pods. req c)"
    using assms by (intro sum_list_nonneg) (auto simp: containers_on_def list_all_iff)
  have split: "(\<Sum>c\<leftarrow>concat (map all_containers ps). req c) = (\<Sum>p\<leftarrow>ps. \<Sum>c\<leftarrow>all_containers p. req c)" for ps
    by (induction ps) auto
  have "list_all (\<lambda>p. 0 \<le> (\<Sum>c\<leftarrow>all_containers p. req c)) pods"
    using assms by (auto simp: list_all_iff intro!: sum_list_nonneg)
  then show "(\<Sum>c\<leftarrow>containers_on nm pods. req c) \<le> requested req pods"
    unfolding containers_on_def requested_def split by (rule sum_list_filter_le)
qed

section \<open>Nothing wraps\<close>

lemma left_over_unwrapped:
  assumes holds: "int64_holds alloc req nodes pods" and "n \<in> set nodes"
  shows "max 0 (wrap64 (alloc n - (\<Sum>c\<leftarrow>containers_on (node_Name n) pods. req c))) = left_over alloc req pods n"
proof -
  have "0 \<le> alloc n" "alloc n \<le> (\<Sum>n\<leftarrow>nodes. alloc n)"
    using assms sum_list_member_le[of alloc nodes n] by (auto simp: int64_holds_def list_all_iff)
  moreover note on_node_le[of req pods "node_Name n"]
  ultimately show ?thesis using holds by (simp add: int64_holds_def left_over_def in64_def)
qed

lemma left_over_le:
  "int64_holds alloc req nodes pods \<Longrightarrow> n \<in> set nodes \<Longrightarrow> left_over alloc req pods n \<le> alloc n"
  using on_node_le(1)[of req pods "node_Name n"] by (auto simp: int64_holds_def left_over_def list_all_iff)

text \<open>The total, the largest, and what bounds them.\<close>

lemma free_unwrapped:
  assumes holds: "int64_holds alloc req nodes pods"
    and spec: "\<And>n. spec n = max 0 (wrap64 (alloc n - (\<Sum>c\<leftarrow>containers_on (node_Name n) pods. req c)))"
  shows "wrap64 (\<Sum>n\<leftarrow>filter eligible nodes. spec n) = (\<Sum>n\<leftarrow>filter eligible nodes. left_over alloc req pods n)"
    and "0 \<le> Max (insert 0 (spec ` set (filter eligible nodes)))"
    and "Max (insert 0 (spec ` set (filter eligible nodes))) \<le> (\<Sum>n\<leftarrow>filter eligible nodes. left_over alloc req pods n)"
    and "(\<Sum>n\<leftarrow>filter eligible nodes. left_over alloc req pods n) \<le> (\<Sum>n\<leftarrow>filter eligible nodes. alloc n)"
    and "(\<Sum>n\<leftarrow>filter eligible nodes. alloc n) < 2 ^ 63"
proof -
  let ?ns = "filter eligible nodes" and ?left = "left_over alloc req pods"
  have same: "map spec ?ns = map ?left ?ns"
    by (auto simp: spec intro!: left_over_unwrapped[OF holds])
  have nonneg: "list_all (\<lambda>n. 0 \<le> ?left n) ?ns" by (simp add: left_over_def list_all_iff)
  then have "0 \<le> (\<Sum>n\<leftarrow>?ns. ?left n)" by (intro sum_list_nonneg) (auto simp: list_all_iff)
  show le: "(\<Sum>n\<leftarrow>?ns. ?left n) \<le> (\<Sum>n\<leftarrow>?ns. alloc n)"
    by (intro sum_list_mono left_over_le[OF holds]) simp
  show bound: "(\<Sum>n\<leftarrow>?ns. alloc n) < 2 ^ 63"
    using sum_list_filter_le[of alloc nodes eligible] holds by (simp add: int64_holds_def)
  show "wrap64 (\<Sum>n\<leftarrow>?ns. spec n) = (\<Sum>n\<leftarrow>?ns. ?left n)"
    using le bound \<open>0 \<le> (\<Sum>n\<leftarrow>?ns. ?left n)\<close> unfolding same by (simp add: in64_def)
  show "0 \<le> Max (insert 0 (spec ` set ?ns))" by (simp add: Max_ge)
  have "spec n \<le> (\<Sum>n\<leftarrow>?ns. ?left n)" if "n \<in> set ?ns" for n
    using sum_list_member_le[OF nonneg that] left_over_unwrapped[OF holds, of n] that by (simp add: spec)
  then show "Max (insert 0 (spec ` set ?ns)) \<le> (\<Sum>n\<leftarrow>?ns. ?left n)"
    using \<open>0 \<le> (\<Sum>n\<leftarrow>?ns. ?left n)\<close> by simp
qed

text \<open>The requests of the pods that Reconcile adds up.\<close>

lemma requested_unwrapped:
  assumes "int64_holds alloc req nodes pods"
  shows "wrap64 (\<Sum>c\<leftarrow>concat (map all_containers pods). req c) = requested req pods"
proof -
  have "0 \<le> requested req pods"
    using assms unfolding requested_def by (intro sum_list_nonneg) (auto simp: int64_holds_def list_all_iff)
  then show ?thesis using assms by (simp add: int64_holds_def requested_def in64_def)
qed

text \<open>All three resources.\<close>

definition cluster_in_int64 :: "('q, 'z) quantity_ops_scheme \<Rightarrow> 'q node list \<Rightarrow> 'q pod list \<Rightarrow> bool" where
  "cluster_in_int64 Q nodes pods \<longleftrightarrow> int64_holds (alloc_cpu Q) (cpu_request Q) nodes pods \<and>
     int64_holds (alloc_mem Q) (mem_request Q) nodes pods \<and> int64_holds (alloc_gpu Q) (gpu_request Q) nodes pods"

text \<open>Total free, largest free, and the bounds on them, for one resource.\<close>

definition totals_ok :: "('q node \<Rightarrow> int) \<Rightarrow> ('q container \<Rightarrow> int) \<Rightarrow> 'q node list \<Rightarrow> 'q pod list \<Rightarrow> int \<Rightarrow> int \<Rightarrow> bool" where
  "totals_ok alloc req nodes pods all largest \<longleftrightarrow>
     all = (\<Sum>n\<leftarrow>filter eligible nodes. left_over alloc req pods n) \<and>
     largest = Max (insert 0 (left_over alloc req pods ` set (filter eligible nodes))) \<and>
     0 \<le> largest \<and> largest \<le> all \<and> all \<le> (\<Sum>n\<leftarrow>filter eligible nodes. alloc n)"

lemma totals_unwrapped:
  assumes "int64_holds alloc req nodes pods"
    and "\<And>n. spec n = max 0 (wrap64 (alloc n - (\<Sum>c\<leftarrow>containers_on (node_Name n) pods. req c)))"
  shows "totals_ok alloc req nodes pods (wrap64 (\<Sum>n\<leftarrow>filter eligible nodes. spec n))
    (Max (insert 0 (spec ` set (filter eligible nodes))))"
proof -
  have "spec ` set (filter eligible nodes) = left_over alloc req pods ` set (filter eligible nodes)"
    by (intro image_cong) (auto simp: assms(2) intro!: left_over_unwrapped[OF assms(1)])
  then show ?thesis
    using free_unwrapped[OF assms] by (simp add: totals_ok_def)
qed

lemma cluster_free_bounds:
  assumes "\<And>ks. mset (range_order E ks) = mset ks" and "distinct (map node_Name nodes)"
    and "\<And>n. n \<in> set nodes \<Longrightarrow> node_Name n \<noteq> []" and "cluster_in_int64 E nodes pods"
  shows "totals_ok (alloc_cpu E) (cpu_request E) nodes pods
      (ClusterCPU (cluster_free_of E nodes pods)) (MaxNodeCPU (cluster_free_of E nodes pods))"
    and "totals_ok (alloc_mem E) (mem_request E) nodes pods
      (ClusterMem (cluster_free_of E nodes pods)) (MaxNodeMem (cluster_free_of E nodes pods))"
    and "totals_ok (alloc_gpu E) (gpu_request E) nodes pods
      (ClusterGPU (cluster_free_of E nodes pods)) (MaxNodeGPU (cluster_free_of E nodes pods))"
proof -
  have h: "int64_holds (alloc_cpu E) (cpu_request E) nodes pods" "int64_holds (alloc_mem E) (mem_request E) nodes pods"
    "int64_holds (alloc_gpu E) (gpu_request E) nodes pods"
    using assms(4) by (simp_all add: cluster_in_int64_def)
  note whole = cluster_free_of_spec[OF assms(1-3)]
  show "totals_ok (alloc_cpu E) (cpu_request E) nodes pods
      (ClusterCPU (cluster_free_of E nodes pods)) (MaxNodeCPU (cluster_free_of E nodes pods))"
    using totals_unwrapped[OF h(1), of "spec_cpu E pods"]
    by (simp add: whole spec_cpu_def alloc_cpu_def cpu_request_def)
  show "totals_ok (alloc_mem E) (mem_request E) nodes pods
      (ClusterMem (cluster_free_of E nodes pods)) (MaxNodeMem (cluster_free_of E nodes pods))"
    using totals_unwrapped[OF h(2), of "spec_mem E pods"]
    by (simp add: whole spec_mem_def alloc_mem_def mem_request_def)
  show "totals_ok (alloc_gpu E) (gpu_request E) nodes pods
      (ClusterGPU (cluster_free_of E nodes pods)) (MaxNodeGPU (cluster_free_of E nodes pods))"
    using totals_unwrapped[OF h(3), of "spec_gpu E pods"]
    by (simp add: whole spec_gpu_def alloc_gpu_def)
qed

lemma fits_numbers:
  assumes "cluster_in_int64 E [] ps"
  shows "fits (sum_requests E ps) free \<longleftrightarrow> requested (cpu_request E) ps \<le> MaxNodeCPU free \<and>
    requested (mem_request E) ps \<le> MaxNodeMem free \<and> requested (gpu_request E) ps \<le> MaxNodeGPU free"
proof -
  have z: "in64 0" by (simp add: in64_def)
  note h = assms[unfolded cluster_in_int64_def]
  show ?thesis
    using requested_unwrapped[OF conjunct1[OF h]] requested_unwrapped[OF conjunct1[OF conjunct2[OF h]]]
      requested_unwrapped[OF conjunct2[OF conjunct2[OF h]]]
    by (simp add: fits_def sum_requests_concat sum_containers gpu_fold[OF z] foldl_add64[OF z]
        cpu_request_def mem_request_def)
qed

section \<open>Properties\<close>

text \<open>
  C9. Where the amounts of a cluster fit into int64, no sum of computeClusterFree wraps: for
  CPU, memory and GPU the totals are the sums and the maxima the largest of what the nodes
  have left, 0 \<le> maximum \<le> total \<le> allocatable, and Reconcile compares the maxima with
  the very sums of the requests of the pods it looks at.
\<close>

theorem free_capacity_bounds:
  fixes s :: "('e, 'q, 'z) world_scheme"
  assumes "\<And>ks. mset (range_order E ks) = mset ks"
    and "distinct (map node_Name nodes)" and "\<And>n. n \<in> set nodes \<Longrightarrow> node_Name n \<noteq> []"
    and "fst (ListNodes E (env s)) = Inr nodes"
    and "fst (ListPods E None (snd (ListNodes E (env s)))) = Inr pods"
    and "cluster_in_int64 E nodes pods" and "cluster_in_int64 E [] ps"
  shows "\<exists>free. fst (run_state (computeClusterFree E) s) = Inr free \<and>
    totals_ok (alloc_cpu E) (cpu_request E) nodes pods (ClusterCPU free) (MaxNodeCPU free) \<and>
    totals_ok (alloc_mem E) (mem_request E) nodes pods (ClusterMem free) (MaxNodeMem free) \<and>
    totals_ok (alloc_gpu E) (gpu_request E) nodes pods (ClusterGPU free) (MaxNodeGPU free) \<and>
    (fits (sum_requests E ps) free \<longleftrightarrow> requested (cpu_request E) ps \<le> MaxNodeCPU free \<and>
       requested (mem_request E) ps \<le> MaxNodeMem free \<and> requested (gpu_request E) ps \<le> MaxNodeGPU free)"
proof -
  have "wp (computeClusterFree E) s (\<lambda>r _. r = Inr (cluster_free_of E nodes pods))"
    using assms(4,5) by (simp add: computeClusterFree_def wp_simps)
  then show ?thesis
    using cluster_free_bounds[OF assms(1-3,6)] fits_numbers[OF assms(7)] by (simp add: wp_run)
qed

theorem free_capacity_bounds_witness:
  "\<exists>free. fst (run_state (computeClusterFree (sample_ext (\<lambda>_. []))) \<lparr>env = example_env, trace = []\<rparr>) = Inr free \<and>
     MaxNodeCPU free \<le> ClusterCPU free \<and> (fits (sum_requests (sample_ext (\<lambda>_. [])) (map snd example_pods)) free \<longleftrightarrow>
       3000 \<le> MaxNodeCPU free \<and> 0 \<le> MaxNodeMem free \<and> 0 \<le> MaxNodeGPU free)"
proof -
  let ?E = "sample_ext (\<lambda>_. []) :: (sample_env, int) ext"
  have ok: "cluster_in_int64 ?E [node_w1, node_w2, node_cp] (map snd example_pods)"
    "cluster_in_int64 ?E [] (map snd example_pods)"
    by (simp_all add: cluster_in_int64_def int64_holds_def alloc_cpu_def alloc_mem_def alloc_gpu_def
        cpu_request_def mem_request_def gpu_request_def requested_def all_containers_def example_pods_def
        node_defs ceil_div_def)
  have r: "requested (cpu_request ?E) (map snd example_pods) = 3000"
    "requested (mem_request ?E) (map snd example_pods) = 0" "requested (gpu_request ?E) (map snd example_pods) = 0"
    by (simp_all add: cpu_request_def mem_request_def gpu_request_def requested_def all_containers_def
        example_pods_def ceil_div_def)
  have "\<exists>free. fst (run_state (computeClusterFree ?E) \<lparr>env = example_env, trace = []\<rparr>) = Inr free \<and>
    totals_ok (alloc_cpu ?E) (cpu_request ?E) [node_w1, node_w2, node_cp] (map snd example_pods)
      (ClusterCPU free) (MaxNodeCPU free) \<and>
    totals_ok (alloc_mem ?E) (mem_request ?E) [node_w1, node_w2, node_cp] (map snd example_pods)
      (ClusterMem free) (MaxNodeMem free) \<and>
    totals_ok (alloc_gpu ?E) (gpu_request ?E) [node_w1, node_w2, node_cp] (map snd example_pods)
      (ClusterGPU free) (MaxNodeGPU free) \<and>
    (fits (sum_requests ?E (map snd example_pods)) free \<longleftrightarrow>
       requested (cpu_request ?E) (map snd example_pods) \<le> MaxNodeCPU free \<and>
       requested (mem_request ?E) (map snd example_pods) \<le> MaxNodeMem free \<and>
       requested (gpu_request ?E) (map snd example_pods) \<le> MaxNodeGPU free)"
    by (rule free_capacity_bounds[OF _ _ _ _ _ ok]) (auto simp: example_env_def)
  then show ?thesis unfolding r totals_ok_def by blast
qed

text \<open>
  The maxima of different resources may be those of different nodes: with one node that has
  CPU left and another that has memory left, the pods of a namespace are found to fit
  although neither node has room for them.
\<close>

definition cpu_node :: "int node" where
  "cpu_node = \<lparr>node_Name = ''c'', Unschedulable = False, Taints = [],
     Allocatable = [''cpu'' \<mapsto> 8000000000, ''memory'' \<mapsto> 1000000000]\<rparr>"

definition mem_node :: "int node" where
  "mem_node = \<lparr>node_Name = ''m'', Unschedulable = False, Taints = [],
     Allocatable = [''cpu'' \<mapsto> 1000000000, ''memory'' \<mapsto> 8000000000]\<rparr>"

definition big_pod :: "int pod" where
  "big_pod = \<lparr>InitContainers = [], Containers = [\<lparr>Requests = [''cpu'' \<mapsto> 4000000000, ''memory'' \<mapsto> 4000000000]\<rparr>],
     NodeName = [], Phase = ''Pending''\<rparr>"

theorem fits_by_different_nodes:
  "fits (sum_requests (sample_ext g) [big_pod]) (cluster_free_of (sample_ext g) [cpu_node, mem_node] [big_pod]) \<and>
   list_all (\<lambda>n. \<not> fits (sum_requests (sample_ext g) [big_pod]) (cluster_free_of (sample_ext g) [n] [big_pod]))
     [cpu_node, mem_node]"
  by (simp add: cluster_free_of_def worker_nodes_def skip_node_def node_usages_def add_pod_def no_usage_def
      sum_requests_def add_request_def fits_def add_node_free_def Let_def free_cpu_def free_mem_def free_gpu_def
      zero_free_def clamp0_def add64_def sub64_def wrap64_def cpu_node_def mem_node_def big_pod_def ceil_div_def)

end
