(* ===== verification/Scaling_Bounds.thy ===== *)
theory Scaling_Bounds imports Composition begin

text \<open>
  What any number of node requests makes of one MachineDeployment in the repository, with
  others changing other files in between.
\<close>

section \<open>A branch under requests\<close>

text \<open>
  \<open>scaled Y scaling p t k u\<close>: from the files t, k requests that edited the file p by the pool of
  goroutines, on a clone of what was there, and any number of commits by others that leave
  that manifest as it is, have made the files u.
\<close>

inductive scaled :: "yaml_ops \<Rightarrow> node_scaling \<Rightarrow> string \<Rightarrow> fs \<Rightarrow> nat \<Rightarrow> fs \<Rightarrow> bool" for Y scaling p t where
  none: "scaled Y scaling p t 0 t"
| others: "scaled Y scaling p t k u \<Longrightarrow> manifest_of Y p v = manifest_of Y p u \<Longrightarrow> scaled Y scaling p t k v"
| request: "scaled Y scaling p t k (clone_fs cl) \<Longrightarrow> edited (deployment_edit Y scaling) cl ms cl' \<Longrightarrow>
    distinct ms \<Longrightarrow> p \<in> set ms \<Longrightarrow> scaled Y scaling p t (Suc k) (clone_fs cl')"

text \<open>The replicas after k requests, from r under a limit.\<close>

definition replicas_after :: "int \<Rightarrow> int \<Rightarrow> nat \<Rightarrow> int" where
  "replicas_after limit r k = (if r = 0 then 0 else if k = 0 then r else min limit (r + int k))"

lemma replicas_after_Suc:
  "0 \<le> r \<Longrightarrow> 0 < limit \<Longrightarrow> replicas_after limit r (Suc k) =
     (if replicas_after limit r k = 0 then 0 else if limit \<le> replicas_after limit r k then limit
      else replicas_after limit r k + 1)"
  by (auto simp: replicas_after_def)

lemma replicas_written_at:
  assumes "replicas_written Y limit ms t u" "p \<in> set ms" "manifest_of Y p t = Some (doc, spec)"
    and "spec ''replicas'' = Some (YInt r)" "- (2 ^ 63) \<le> r" "r < 2 ^ 63 - 1"
  shows "manifest_of Y p u = (let spec' = spec(''replicas'' \<mapsto>
       YInt (if r = 0 then 0 else if limit \<le> r then limit else r + 1))
     in Some (doc(''spec'' \<mapsto> YMap spec'), spec'))"
  using assms(1)[unfolded replicas_written_def, rule_format, of p] assms(2-6) by (auto simp del: fun_upd_apply)

lemma scaled_replicas:
  assumes "scaled Y scaling p t k u" and Y: "yaml_laws Y" and m: "manifest_of Y p t = Some (doc, spec)"
    and r: "spec ''replicas'' = Some (YInt r)" and "0 \<le> r" "r < 2 ^ 63 - 1"
    and "0 < MaxNodes scaling" "MaxNodes scaling < 2 ^ 63 - 1"
  shows "manifest_of Y p u = (let spec' = spec(''replicas'' \<mapsto> YInt (replicas_after (MaxNodes scaling) r k))
     in Some (if k = 0 then doc else doc(''spec'' \<mapsto> YMap spec'), spec'))"
  using assms(1)
proof (induction rule: scaled.induct)
  case none
  have "replicas_after (MaxNodes scaling) r 0 = r" by (simp add: replicas_after_def)
  with r show ?case by (simp add: m Let_def fun_upd_idem)
next
  case (others k u v)
  then show ?case by simp
next
  case (request k cl ms cl')
  let ?n = "replicas_after (MaxNodes scaling) r k"
  have b: "- (2 ^ 63) \<le> ?n" "?n < 2 ^ 63 - 1" "in64 (MaxNodes scaling)"
    using assms(5-8) by (auto simp: replicas_after_def in64_def)
  have before: "manifest_of Y p (clone_fs cl) = Some (if k = 0 then doc else
      doc(''spec'' \<mapsto> YMap (spec(''replicas'' \<mapsto> YInt ?n))), spec(''replicas'' \<mapsto> YInt ?n))"
    using request(5) by (simp only: Let_def)
  have "replicas_written Y (MaxNodes scaling) ms (clone_fs cl) (clone_fs cl')"
    by (rule edited_deployment[OF Y request(3) b(3) request(2)])
  from replicas_written_at[OF this request(4) before fun_upd_same b(1,2)] show ?case
    by (simp only: replicas_after_Suc[OF assms(5,7), of k] fun_upd_upd Let_def split: if_split) simp
qed

section \<open>Property\<close>

text \<open>
  C6. The bounds of node scaling: after k requests for one MachineDeployment with r replicas,
  whatever others commit to other files in between, its replicas are the smaller of r + k
  and maxNodes if k is positive; so they never go above maxNodes once a request was served,
  reach it after maxNodes - r requests, and stay. A MachineDeployment with 0 replicas stays
  at 0. Everything else in the document is as it was.
\<close>

theorem node_count_bounded:
  assumes "scaled Y scaling p t k u" and "yaml_laws Y" and "manifest_of Y p t = Some (doc, spec)"
    and "spec ''replicas'' = Some (YInt r)" and "0 \<le> r" "r < 2 ^ 63 - 1"
    and "0 < MaxNodes scaling" "MaxNodes scaling < 2 ^ 63 - 1"
  shows "manifest_of Y p u = (let spec' = spec(''replicas'' \<mapsto> YInt
       (if r = 0 then 0 else if k = 0 then r else min (MaxNodes scaling) (r + int k)))
     in Some (if k = 0 then doc else doc(''spec'' \<mapsto> YMap spec'), spec'))"
  using scaled_replicas[OF assms] by (simp add: replicas_after_def)

lemma sample_scaled: "scaled sample_yaml (up_to 5) ''a.yaml'' (sample_fs ''md2'') 1 (sample_fs ''md3'')"
proof -
  let ?cl = "sample_clone\<lparr>clone_fs := sample_fs ''md2''\<rparr>"
  have "edited (deployment_edit sample_yaml (up_to 5)) ?cl [''a.yaml''] (?cl\<lparr>clone_fs := sample_fs ''md3''\<rparr>)"
    using pool_run_reaches[of "deployment_edit sample_yaml (up_to 5)" "[''a.yaml'']" _ "[0, 0, 0, 0]"] sample_nodes_pool
    unfolding edited_def by (intro exI[of _ "\<lparr>phases = [Done None], pool_fs = sample_fs ''md3'', errChan = []\<rparr>"])
      (simp add: all_done_def, metis)
  then have "scaled sample_yaml (up_to 5) ''a.yaml'' (sample_fs ''md2'') (Suc 0)
      (clone_fs (?cl\<lparr>clone_fs := sample_fs ''md3''\<rparr>))"
    by (intro scaled.request[where ms = "[''a.yaml'']"]) (simp_all add: scaled.none)
  then show ?thesis by simp
qed

theorem node_count_bounded_witness:
  "manifest_of sample_yaml ''a.yaml'' (sample_fs ''md3'') = Some (md_doc 3, [''replicas'' \<mapsto> YInt 3])"
  using node_count_bounded[OF sample_scaled sample_yaml_laws sample_manifests(1), of 2] by (simp add: Let_def)

end
