(* ===== verification/Spec2Isabelle.thy ===== *)
theory Spec2Isabelle
  imports Controller Concurrent_Limiter Gitea_Methods Remote Rest_Server Schemes Command_Line Gitea_Wait Quota_Upload Deep_Copy
    Capacity_Bounds Scaling_Bounds
begin

text \<open>
  A model of quota-based-autoscaling, a Kubernetes operator in Go, from src/. One program
  runs in two roles. On a workload cluster it is a controller
  (internal/controller/namespacequota_controller.go): it watches the namespaces that have
  a NamespaceQuota, notices when their ResourceQuota is exhausted or their pods cannot be
  placed, and POSTs a raised ResourceQuota or a request for nodes to the management
  cluster. There the same program serves an endpoint (restapi/restapi_server.go): it
  clones the Git repository the object names, searches it for matching manifests
  (reconcilers/git/gitea.go), edits them concurrently, commits, pushes, and asks Argo CD
  for a sync. cmd/main.go chooses the role by the variable SERVER_TYPE.

  Theories, each with the part of the program it models.

  Prelude: int64 arithmetic as integers with the wrap-around written out (tied to 64-bit
  words), nil-able maps, durations, the functions of package strings, panics as values,
  and weakest preconditions over the library's state monad, in which every handler that
  talks to the outside is written. Api_Types: api/v1/namespacequota_types.go and the
  Kubernetes types as records of the fields the code touches; quantities are a type
  variable with their operations as a record and their documented laws as the predicate
  quantity_laws. Platform: the outside of a workload cluster (API server, HTTP, clock) as
  a record of functions over an environment of any type, so two calls may be answered
  differently, and the trace of actions that change something outside the process, a
  ghost. Sample_World and Sample_Server: concrete outsides for the witnesses only.

  Cluster_Free: computeClusterFree, with a map-free reference definition; Capacity_Bounds:
  the same as plain arithmetic, where the cluster fits into int64. Quota_State:
  used and hard amounts, DetectQuotaExceeded, detectWorkloadShortage, postYAML,
  patchQuota. Rate_Limit: allowScale, as a throttle (locale rate_limiter).
  Concurrent_Limiter: the same under its mutex, with many callers, as a step relation.
  Scale_Triggers:
  TriggerScaleUpForCluster and TriggerScaleUpResourceQuota, as triggers that only POST
  (locale scale_trigger) and as throttled ones (locale throttled_trigger). Reconciler:
  Reconcile and the watches. Controller: what SetupWithManager registers, and the running
  controller that calls watches and Reconcile in any order (locale paying_steps).

  Manifests: the three editors of gitea.go over a file system with read and write faults;
  yaml.v3 is a parameter with its documented laws (yaml_laws); all three are instances of
  one contract, read, edit, write (locale manifest_updater). Update_Pool: the goroutines of
  the handlers as a step relation: a semaphore of two, read and write as separate steps.
  Repo_Scan: the search as a step relation of a walker, workers, a closer and the
  collecting loop, over channels of bounded size. Repo_Search: the two searches as the
  handlers call them, from the clone on. Git_Access: credentials, the Gitea
  singleton with concurrent callers as a step relation, CommitAndPush, the Argo CD sync.
  Gitea_Methods: the methods of gc that forward to the SDK.
  Workload_Access: reconcilers/capi/cluster.go. Management: both handlers and the endpoint
  (locale request_handler). Heartbeats: the store of heartbeats. Rest_Server: the HTTP
  server with its two patterns. Schemes: the schemes that main.go, restapi_server.go and
  cluster.go build from groupversion_info.go and the library packages, which decide what a
  client may be asked for. Gitea_Wait: WaitForInitialization, a partial function whose
  value None is a loop that never returns. Quota_Upload: restapi/helper.go, with base64.
  Deep_Copy: the generated deep copies, over a store in which maps, slices and times have
  addresses (locale deep_copier). Startup: cmd/main.go from the parsed flags on.
  Command_Line: its flags and flag.Parse.
  Composition: requests as a whole, from the received object to the commit, and from the
  workload cluster to Git; the two roles. Remote: the same requests on a Git branch to
  which others push meanwhile (locale interference). Scaling_Bounds: what any number of
  node requests makes of one MachineDeployment.

  What the lemmas show. Workload cluster: the computed capacities equal the reference; a quota
  is found exceeded exactly for an exhausted status, a failed replica or a recent denial,
  and a shortage exactly for an unready ReplicaSet with its event; every POST has one of
  the forms the code builds, and quota POSTs of a namespace are a minute apart in every
  history; concurrent callers of allowScale get what the atomic limiter answers in the
  order of the lock. The controller as a whole is throttled over every run, and only a
  quota without hard limits can make one of its watches panic.
  Search and pool: under every interleaving the search returns only matches,
  never panics, ends within \<open>cost\<close> steps (a number computed from the repository and the
  number of workers), and loses matches only where select may take a closed channel; over
  distinct files the pool equals the sequence of its edits and ends after four steps per
  file. Server: on every path commits, pushes and syncs come in that order, and a request
  that is served has committed exactly the manifests it should; it is served when the
  outside works; its commit is put on the tree it was made from, whoever else pushes. No
  client is asked for a type its scheme does not know. Node counts stay within maxNodes
  over any number of requests. Names of uploaded files sort by time. A command line gives back the
  settings it was written from. A deep copy shares nothing with its original. Theorems
  about what the code does and its documents do not say (lost matches, duplicated edits, a
  cooldown that is never stored, a limit that is never read, room found on two nodes, heartbeats that nobody
  stores) are stated as what the code does.

  Bounds and schedules. No fuel is used except in schedules: a schedule is a list of moves
  that the outside chooses, moves that cannot be made are skipped, and a schedule that ends
  early leaves the handler Pending, so nothing is proved of a run that has not ended; that
  runs do end is proved of the step relations themselves.

  Not modelled: logging, printYAML, ListArgoApplications and LogRepositories (they print
  and are not called), getenvDuration (called only from the commented-out node monitor), the node monitor and UpsertNodeHealth (commented
  out, and an empty body), the pod webhook (the file is commented out). Requests are served
  concurrently. They share state of the program in the Gitea singleton and the heartbeat
  store, where that is modelled step by step; each clones into a directory of its own, so
  the handlers are otherwise run one at a time, and what others do to the cluster and the
  repositories meanwhile is in the answers of the outside, about which nothing is assumed
  from one call to the next, except in Remote, where Git's own rules are.
\<close>

end
